theory Spec2Isabelle
  imports Complex_Main "HOL-Library.Sublist"
begin

section \<open>JavaScript values\<close>

text \<open>
  The scraper and the ETL service are JavaScript: a field of a scraped record holds
  \<open>undefined\<close>, \<open>null\<close>, a boolean, a number or a string, and the code tests
  fields for truthiness (\<open>x || d\<close>, \<open>!x\<close>, \<open>a && b\<close>).
  A finite number \<open>Fin q\<close> stands for the double nearest to the rational \<open>q\<close>;
  \<open>Infinity True\<close> is \<open>+Infinity\<close>, \<open>Infinity False\<close> is \<open>-Infinity\<close>.
  A string is the list of its code units (Latin-1 range).
\<close>

datatype jsnum = NaN | Infinity bool | Fin rat

datatype jsval = JUndefined | JNull | JBool bool | JNum jsnum | JStr string

fun truthy :: "jsval \<Rightarrow> bool" where
  "truthy JUndefined = False"
| "truthy JNull = False"
| "truthy (JBool b) = b"
| "truthy (JNum n) = (n \<noteq> NaN \<and> n \<noteq> Fin 0)"
| "truthy (JStr s) = (s \<noteq> [])"

text \<open>\<open>a || d\<close>\<close>

definition orJ :: "jsval \<Rightarrow> jsval \<Rightarrow> jsval" where
  "orJ a d = (if truthy a then a else d)"

section \<open>String primitives\<close>

text \<open>White space and line terminators removed by \<open>trim\<close> and skipped by the number parsers.\<close>

definition is_space :: "char \<Rightarrow> bool" where
  "is_space c = ((of_char c :: nat) \<in> {9, 10, 11, 12, 13, 32, 160})"

definition trim :: "string \<Rightarrow> string" where
  "trim s = rev (dropWhile is_space (rev (dropWhile is_space s)))"

text \<open>\<open>s.split(c)\<close> for a one-character separator: never empty, \<open>"".split(c)\<close> is \<open>[""]\<close>.\<close>

fun split_on :: "char \<Rightarrow> string \<Rightarrow> string list" where
  "split_on c [] = [[]]"
| "split_on c (x # xs) =
     (if x = c then [] # split_on c xs
      else (case split_on c xs of w # ws \<Rightarrow> (x # w) # ws | [] \<Rightarrow> [[x]]))"

text \<open>\<open>xs[i]\<close>: \<open>None\<close> is \<open>undefined\<close>.\<close>

definition nth_opt :: "'a list \<Rightarrow> nat \<Rightarrow> 'a option" where
  "nth_opt xs i = (if i < length xs then Some (xs ! i) else None)"

text \<open>Truthiness of a string that may be \<open>undefined\<close>.\<close>

definition present :: "string option \<Rightarrow> bool" where
  "present v = (case v of None \<Rightarrow> False | Some s \<Rightarrow> s \<noteq> [])"

text \<open>\<open>s.padStart(2, '0')\<close>\<close>

definition padStart2 :: "string \<Rightarrow> string" where
  "padStart2 s = replicate (2 - length s) (CHR ''0'') @ s"

definition lower_char :: "char \<Rightarrow> char" where
  "lower_char c =
     (let n = (of_char c :: nat)
      in if (65 \<le> n \<and> n \<le> 90) \<or> (192 \<le> n \<and> n \<le> 222 \<and> n \<noteq> 215)
         then char_of (n + 32) else c)"

definition toLowerCase :: "string \<Rightarrow> string" where
  "toLowerCase s = map lower_char s"

definition is_digit :: "char \<Rightarrow> bool" where
  "is_digit c = (48 \<le> (of_char c :: nat) \<and> (of_char c :: nat) \<le> 57)"

definition digit_val :: "char \<Rightarrow> nat" where
  "digit_val c = of_char c - 48"

definition digits_val :: "string \<Rightarrow> nat" where
  "digits_val ds = foldl (\<lambda>a c. a * 10 + digit_val c) 0 ds"

definition is_hex_digit :: "char \<Rightarrow> bool" where
  "is_hex_digit c =
     (let n = (of_char c :: nat)
      in (48 \<le> n \<and> n \<le> 57) \<or> (65 \<le> n \<and> n \<le> 70) \<or> (97 \<le> n \<and> n \<le> 102))"

definition hex_digit_val :: "char \<Rightarrow> nat" where
  "hex_digit_val c =
     (let n = (of_char c :: nat)
      in if n \<le> 57 then n - 48 else if n \<le> 70 then n - 55 else n - 87)"

text \<open>An optional sign in front of a numeral: whether it is \<open>-\<close>, and the rest.\<close>

fun take_sign :: "string \<Rightarrow> bool \<times> string" where
  "take_sign [] = (False, [])"
| "take_sign (c # r) =
     (if c = CHR ''-'' then (True, r)
      else if c = CHR ''+'' then (False, r)
      else (False, c # r))"

text \<open>
  The built-in \<open>parseInt(s)\<close> without a radix: leading white space, an optional sign,
  an optional \<open>0x\<close>/\<open>0X\<close> prefix, then the longest run of digits; \<open>None\<close> is \<open>NaN\<close>.
\<close>

definition parseInt :: "string \<Rightarrow> int option" where
  "parseInt s =
     (case take_sign (dropWhile is_space s) of (neg, t) \<Rightarrow>
        if prefix ''0x'' t \<or> prefix ''0X'' t
        then (let ds = takeWhile is_hex_digit (drop 2 t)
              in if ds = [] then None
                 else Some ((if neg then - 1 else 1) *
                            int (foldl (\<lambda>a c. a * 16 + hex_digit_val c) 0 ds)))
        else (let ds = takeWhile is_digit t
              in if ds = [] then None
                 else Some ((if neg then - 1 else 1) * int (digits_val ds))))"

text \<open>The exponent part of a decimal literal, as a factor; 1 when there is none.\<close>

definition exponent_of :: "string \<Rightarrow> rat" where
  "exponent_of r =
     (case r of
        [] \<Rightarrow> 1
      | c # r' \<Rightarrow>
          if c = CHR ''e'' \<or> c = CHR ''E''
          then (case take_sign r' of (eneg, r'') \<Rightarrow>
                  (let ed = takeWhile is_digit r''
                   in if ed = [] then 1
                      else if eneg then 1 / 10 ^ digits_val ed
                      else 10 ^ digits_val ed))
          else 1)"

text \<open>
  The Number value of a mathematical value: the nearest double, ties to even. A magnitude
  of \<open>2^1024 - 2^970\<close> or more (half an ulp beyond the largest double) is an infinity;
  a magnitude of \<open>2^-1075\<close> or less (half the smallest subnormal) is zero; anything
  between is the finite double nearest to the value, written \<open>Fin\<close> of the value.
\<close>

definition to_double :: "rat \<Rightarrow> jsnum" where
  "to_double q =
     (if 2 ^ 1024 - 2 ^ 970 \<le> \<bar>q\<bar> then Infinity (0 < q)
      else if \<bar>q\<bar> \<le> 1 / 2 ^ 1075 then Fin 0
      else Fin q)"

text \<open>
  The built-in \<open>parseFloat(s)\<close>: leading white space, an optional sign, then
  \<open>Infinity\<close> or the longest prefix that is a decimal literal (digits, an optional
  fraction, an optional exponent); \<open>NaN\<close> when there is no such prefix. The result is
  the Number value of the literal.
\<close>

definition parseFloat :: "string \<Rightarrow> jsnum" where
  "parseFloat s =
     (case take_sign (dropWhile is_space s) of (neg, t) \<Rightarrow>
        if prefix ''Infinity'' t then Infinity (\<not> neg)
        else (let ip = takeWhile is_digit t;
                  r1 = dropWhile is_digit t;
                  fp = (case r1 of [] \<Rightarrow> []
                        | c # r \<Rightarrow> if c = CHR ''.'' then takeWhile is_digit r else []);
                  r2 = (case r1 of [] \<Rightarrow> []
                        | c # r \<Rightarrow> if c = CHR ''.'' then dropWhile is_digit r else r1)
              in if ip = [] \<and> fp = [] then NaN
                 else to_double ((if neg then - 1 else 1) *
                           (of_nat (digits_val ip) + of_nat (digits_val fp) / 10 ^ length fp) *
                           exponent_of r2)))"

section \<open>RecordNormalizer: \<open>SeaceScraper.normalizeProcesoData\<close>\<close>

text \<open>
  Step 1, the publication date. A truthy value is trimmed and split at blanks; the first
  part is split at \<open>/\<close> into day, month and year. When all three are non-empty the
  field becomes \<open>yyyy-mm-dd hora\<close>; otherwise the \<open>if\<close> has no \<open>else\<close> and the
  field keeps its value. A truthy value that is not a string has no \<open>trim\<close>: the
  TypeError is caught and the field becomes \<open>null\<close>. A falsy value becomes \<open>null\<close>.
\<close>

definition normalize_fecha :: "jsval \<Rightarrow> jsval" where
  "normalize_fecha f =
     (if truthy f then
        (case f of
           JStr s \<Rightarrow>
             (let parts = split_on (CHR '' '') (trim s) in
              case nth_opt parts 0 of
                None \<Rightarrow> JNull
              | Some fecha \<Rightarrow>
                  (let hora = (if present (nth_opt parts 1) then the (nth_opt parts 1)
                               else ''00:00:00'');
                       ds = split_on (CHR ''/'') fecha;
                       dia = nth_opt ds 0; mes = nth_opt ds 1; anio = nth_opt ds 2
                   in if present dia \<and> present mes \<and> present anio
                      then JStr (the anio @ ''-'' @ padStart2 (the mes) @ ''-'' @
                                 padStart2 (the dia) @ '' '' @ hora)
                      else f))
         | _ \<Rightarrow> JNull)
      else JNull)"

text \<open>
  Step 2, the reference amount. A truthy value other than \<open>'---'\<close> and \<open>'N/A'\<close> loses
  every \<open>.\<close>, has every \<open>,\<close> turned into \<open>.\<close>, is trimmed and handed to
  \<open>parseFloat\<close>; \<open>NaN\<close> becomes \<open>null\<close>. A truthy value that is not a string has no
  \<open>replace\<close>: the TypeError is caught and the field becomes \<open>null\<close>.
\<close>

definition valorLimpio :: "string \<Rightarrow> string" where
  "valorLimpio s =
     trim (map (\<lambda>c. if c = CHR '','' then CHR ''.'' else c) (filter (\<lambda>c. c \<noteq> CHR ''.'') s))"

definition normalize_monto :: "jsval \<Rightarrow> jsval" where
  "normalize_monto m =
     (if truthy m \<and> m \<noteq> JStr ''---'' \<and> m \<noteq> JStr ''N/A'' then
        (case m of
           JStr s \<Rightarrow>
             (let montoNumero = parseFloat (valorLimpio s)
              in if montoNumero = NaN then JNull else JNum montoNumero)
         | _ \<Rightarrow> JNull)
      else JNull)"


text \<open>
  The scraped record: the object literal built in \<open>extractTableData\<close>, with the same
  28 keys that \<open>mapScrapeDataToProcesoSchema\<close> writes and the table \<open>procesos\<close> stores.
\<close>

record proceso =
  id_proceso :: jsval
  nombre_entidad :: jsval
  entidad_nombre :: jsval
  fecha_publicacion :: jsval
  nomenclatura :: jsval
  reiniciado_desde :: jsval
  objeto_contratacion :: jsval
  descripcion_objeto :: jsval
  codigo_snip :: jsval
  estado_proceso :: jsval
  tipo_proceso :: jsval
  url_proceso :: jsval
  source_url :: jsval
  pagina_scraping :: jsval
  numero_convocatoria :: jsval
  entidad_ruc :: jsval
  codigo_cui :: jsval
  departamento :: jsval
  provincia :: jsval
  distrito :: jsval
  monto_referencial :: jsval
  moneda :: jsval
  rubro :: jsval
  version_seace :: jsval
  fecha_scraping :: jsval
  requiere_visita_previa :: jsval
  datos_ocds :: jsval
  fecha_limite_presentacion :: jsval

datatype exn = TypeError | Error string

text \<open>
  Steps 3 and 4 test \<open>!v || v.trim() === ''\<close>. Nothing catches there: a truthy value
  that is not a string raises a TypeError out of \<open>normalizeProcesoData\<close>.
\<close>

definition missing_or_blank :: "jsval \<Rightarrow> exn + bool" where
  "missing_or_blank v =
     (if \<not> truthy v then Inr True
      else (case v of JStr s \<Rightarrow> Inr (trim s = []) | _ \<Rightarrow> Inl TypeError))"

text \<open>Step 5: \<open>v === '' || (typeof v === 'string' && v.trim() === '')\<close> becomes \<open>null\<close>.\<close>

definition blank_to_null :: "jsval \<Rightarrow> jsval" where
  "blank_to_null v = (case v of JStr s \<Rightarrow> if s = [] \<or> trim s = [] then JNull else v | _ \<Rightarrow> v)"

text \<open>\<open>Object.keys(proceso).forEach\<close> over the 28 keys.\<close>

definition map_fields :: "(jsval \<Rightarrow> jsval) \<Rightarrow> proceso \<Rightarrow> proceso" where
  "map_fields g p =
     \<lparr> id_proceso = g (id_proceso p),
       nombre_entidad = g (nombre_entidad p),
       entidad_nombre = g (entidad_nombre p),
       fecha_publicacion = g (fecha_publicacion p),
       nomenclatura = g (nomenclatura p),
       reiniciado_desde = g (reiniciado_desde p),
       objeto_contratacion = g (objeto_contratacion p),
       descripcion_objeto = g (descripcion_objeto p),
       codigo_snip = g (codigo_snip p),
       estado_proceso = g (estado_proceso p),
       tipo_proceso = g (tipo_proceso p),
       url_proceso = g (url_proceso p),
       source_url = g (source_url p),
       pagina_scraping = g (pagina_scraping p),
       numero_convocatoria = g (numero_convocatoria p),
       entidad_ruc = g (entidad_ruc p),
       codigo_cui = g (codigo_cui p),
       departamento = g (departamento p),
       provincia = g (provincia p),
       distrito = g (distrito p),
       monto_referencial = g (monto_referencial p),
       moneda = g (moneda p),
       rubro = g (rubro p),
       version_seace = g (version_seace p),
       fecha_scraping = g (fecha_scraping p),
       requiere_visita_previa = g (requiere_visita_previa p),
       datos_ocds = g (datos_ocds p),
       fecha_limite_presentacion = g (fecha_limite_presentacion p) \<rparr>"

text \<open>
  \<open>normalizeProcesoData\<close>. The argument \<open>rnd\<close> is the text that
  \<open>Date.now()\<close> and \<open>Math.random()\<close> give to the generated identifier of step 6.
\<close>

definition normalizeProcesoData :: "string \<Rightarrow> proceso \<Rightarrow> exn + proceso" where
  "normalizeProcesoData rnd p =
     (let p1 = p\<lparr>fecha_publicacion := normalize_fecha (fecha_publicacion p)\<rparr>;
          p2 = p1\<lparr>monto_referencial := normalize_monto (monto_referencial p1)\<rparr>
      in case missing_or_blank (moneda p2) of
           Inl e \<Rightarrow> Inl e
         | Inr b3 \<Rightarrow>
             (let p3 = (if b3 then p2\<lparr>moneda := JStr ''Soles''\<rparr> else p2)
              in case missing_or_blank (version_seace p3) of
                   Inl e \<Rightarrow> Inl e
                 | Inr b4 \<Rightarrow>
                     (let p4 = (if b4 then p3\<lparr>version_seace := JStr ''3''\<rparr> else p3);
                          p5 = map_fields blank_to_null p4;
                          p6 = (if \<not> truthy (id_proceso p5)
                                then p5\<lparr>id_proceso := JStr (''PROC-'' @ rnd)\<rparr> else p5);
                          p7 = (if \<not> truthy (nombre_entidad p6)
                                then p6\<lparr>nombre_entidad := JStr ''Entidad Desconocida''\<rparr> else p6)
                      in Inr p7)))"

section \<open>PaginatedExtractor: \<open>SeaceScraper.extractTableData\<close>\<close>

text \<open>
  A table cell is its text content and the numbers of links and images inside it; a row
  is the list of its \<open>td\<close> cells. The page offers the rows of the results grid
  (\<open>table[role="grid"] tbody tr[data-ri]\<close>) and the rows of every table whose class
  contains \<open>ui-datatable\<close>.
\<close>

record cell =
  textContent :: string
  links :: nat
  images :: nat

type_synonym row = "cell list"

record dom =
  grid_rows :: "row list"
  datatables :: "row list list"

text \<open>
  What the page script reads besides the table: the page address, the clock as an ISO
  string, and the text \<open>Date.now()-index-random\<close> of a generated identifier.
\<close>

record ambient =
  href :: string
  now_iso :: string
  proc_suffix :: "nat \<Rightarrow> string"
  norm_suffix :: string

definition select_rows :: "dom \<Rightarrow> row list" where
  "select_rows d =
     (if grid_rows d = [] then
        (case filter (\<lambda>t. t \<noteq> []) (datatables d) of [] \<Rightarrow> grid_rows d | t # _ \<Rightarrow> t)
      else grid_rows d)"

definition getCleanText :: "cell option \<Rightarrow> jsval" where
  "getCleanText c =
     (case c of
        None \<Rightarrow> JNull
      | Some cl \<Rightarrow>
          if 0 < links cl \<or> 0 < images cl then
            (let t = trim (textContent cl)
             in if truthy (JStr t) \<and> t \<noteq> '' '' then JStr t else JNull)
          else orJ (JStr (trim (textContent cl))) JNull)"

text \<open>
  \<open>isNumber(value)\<close> is \<open>value && !isNaN(parseInt(value))\<close>; \<open>parseInt\<close> reads
  the string form of its argument.
\<close>

definition isNumber :: "jsval \<Rightarrow> bool" where
  "isNumber v =
     (truthy v \<and>
      (case v of
         JStr s \<Rightarrow> parseInt s \<noteq> None
       | JNum n \<Rightarrow> (case n of Fin q \<Rightarrow> True | _ \<Rightarrow> False)
       | _ \<Rightarrow> False))"

definition isNotHeader :: "jsval \<Rightarrow> bool" where
  "isNotHeader v =
     (case v of
        JStr s \<Rightarrow> s \<noteq> [] \<and> toLowerCase s \<noteq> ''nombre o sigla de la entidad''
                  \<and> toLowerCase s \<noteq> ''entidad''
      | _ \<Rightarrow> False)"

definition hasDescriptionLength :: "jsval \<Rightarrow> bool" where
  "hasDescriptionLength v = (case v of JStr s \<Rightarrow> s \<noteq> [] \<and> 10 \<le> length s | _ \<Rightarrow> False)"

text \<open>
  The body of \<open>rows.forEach((row, index) => ...)\<close>: \<open>None\<close> when the row is left
  out (\<open>return\<close>), the object pushed onto \<open>results\<close> otherwise. The
  \<open>console.info\<close> after the push names an undeclared variable; its ReferenceError is
  caught by the row's own \<open>try\<close> after the push and changes nothing.
\<close>

definition process_row :: "ambient \<Rightarrow> nat \<Rightarrow> row \<Rightarrow> proceso option" where
  "process_row env index cells =
     (if length cells < 7 then None
      else
        (let numero_orden = getCleanText (nth_opt cells 0);
             nombre = getCleanText (nth_opt cells 1);
             fecha = getCleanText (nth_opt cells 2);
             nomen = getCleanText (nth_opt cells 3);
             reiniciado = getCleanText (nth_opt cells 4);
             objeto = getCleanText (nth_opt cells 5);
             descripcion = getCleanText (nth_opt cells 6);
             snip = getCleanText (nth_opt cells 7);
             monto_text = getCleanText (nth_opt cells 8);
             moneda_text = getCleanText (nth_opt cells 9);
             version = getCleanText (nth_opt cells 10)
         in if \<not> isNumber numero_orden \<or> \<not> isNotHeader nombre \<or> \<not> hasDescriptionLength descripcion
            then None
            else Some
              \<lparr> id_proceso = orJ nomen (JStr (''PROC-'' @ proc_suffix env index)),
                nombre_entidad = nombre,
                entidad_nombre = nombre,
                fecha_publicacion = fecha,
                nomenclatura = nomen,
                reiniciado_desde = reiniciado,
                objeto_contratacion = objeto,
                descripcion_objeto = descripcion,
                codigo_snip = orJ snip JNull,
                estado_proceso = JStr ''Publicado'',
                tipo_proceso = JNull,
                url_proceso = JNull,
                source_url = JStr (href env),
                pagina_scraping = JStr (href env),
                numero_convocatoria = nomen,
                entidad_ruc = JNull,
                codigo_cui = JNull,
                departamento = JNull,
                provincia = JNull,
                distrito = JNull,
                monto_referencial =
                  (if truthy monto_text \<and> monto_text \<noteq> JStr ''---'' then monto_text else JNull),
                moneda = orJ moneda_text (JStr ''Soles''),
                rubro = objeto,
                version_seace = orJ version (JStr ''3''),
                fecha_scraping = JStr (now_iso env),
                requiere_visita_previa = JBool False,
                datos_ocds = JNull,
                fecha_limite_presentacion = JNull \<rparr>))"

text \<open>The \<open>forEach\<close> loop with its index, accumulating \<open>results\<close>.\<close>

fun scan_rows :: "ambient \<Rightarrow> nat \<Rightarrow> row list \<Rightarrow> proceso list" where
  "scan_rows env index [] = []"
| "scan_rows env index (r # rs) =
     (case process_row env index r of
        None \<Rightarrow> scan_rows env (Suc index) rs
      | Some p \<Rightarrow> p # scan_rows env (Suc index) rs)"

text \<open>\<open>data.map(proceso => this.normalizeProcesoData(proceso))\<close>: the first exception ends it.\<close>

fun normalize_all :: "string \<Rightarrow> proceso list \<Rightarrow> exn + proceso list" where
  "normalize_all rnd [] = Inr []"
| "normalize_all rnd (p # ps) =
     (case normalizeProcesoData rnd p of
        Inl e \<Rightarrow> Inl e
      | Inr q \<Rightarrow> (case normalize_all rnd ps of Inl e \<Rightarrow> Inl e | Inr qs \<Rightarrow> Inr (q # qs)))"

text \<open>
  \<open>extractTableData\<close>: the page script, then the normalizer; the outer \<open>catch\<close>
  turns every exception into the empty list. The script itself can fail (the browser
  call \<open>page.evaluate\<close> rejects): \<open>None\<close> for the page.
\<close>

definition extractTableData :: "ambient \<Rightarrow> dom option \<Rightarrow> proceso list" where
  "extractTableData env page =
     (case page of
        None \<Rightarrow> []
      | Some d \<Rightarrow>
          (case normalize_all (norm_suffix env) (scan_rows env 0 (select_rows d)) of
             Inl e \<Rightarrow> []
           | Inr ps \<Rightarrow> ps))"


section \<open>FormDriver: the steps of \<open>SeaceScraper.searchProcesses\<close> before extraction\<close>

text \<open>
  Browser calls (\<open>page.$\<close>, \<open>page.evaluate\<close>, waits, keyboard input) either give a
  value or reject. A step of the form driver is a computation that appends to the log and
  ends with a value or with a thrown exception. Log messages are shortened to ASCII, and
  of the \<open>logger.info\<close> lines only those that mark a branch are kept.
\<close>

datatype level = Info | Warn | Err

type_synonym log = "level \<times> string"

type_synonym 'a act = "log list \<Rightarrow> log list \<times> (exn + 'a)"

definition returnA :: "'a \<Rightarrow> 'a act" where
  "returnA v = (\<lambda>l. (l, Inr v))"

definition throwA :: "exn \<Rightarrow> 'a act" where
  "throwA e = (\<lambda>l. (l, Inl e))"

definition bindA :: "'a act \<Rightarrow> ('a \<Rightarrow> 'b act) \<Rightarrow> 'b act" where
  "bindA m f = (\<lambda>l. case m l of (l', Inl e) \<Rightarrow> (l', Inl e) | (l', Inr v) \<Rightarrow> f v l')"

definition thenA :: "'a act \<Rightarrow> 'b act \<Rightarrow> 'b act" where
  "thenA m n = bindA m (\<lambda>_. n)"

definition logA :: "level \<Rightarrow> string \<Rightarrow> unit act" where
  "logA lv msg = (\<lambda>l. (l @ [(lv, msg)], Inr ()))"

text \<open>\<open>await\<close> of a browser call with the given outcome.\<close>

definition callA :: "exn + 'a \<Rightarrow> 'a act" where
  "callA r = (\<lambda>l. (l, r))"

text \<open>\<open>try { m } catch (err) { h err }\<close>\<close>

definition tryA :: "'a act \<Rightarrow> (exn \<Rightarrow> 'a act) \<Rightarrow> 'a act" where
  "tryA m h = (\<lambda>l. case m l of (l', Inl e) \<Rightarrow> h e l' | (l', Inr v) \<Rightarrow> (l', Inr v))"

fun seqA :: "unit act list \<Rightarrow> unit act" where
  "seqA [] = returnA ()"
| "seqA (m # ms) = thenA m (seqA ms)"

datatype tab_found = TabNotFound | TabFound bool string

text \<open>
  The outcome of each browser call the form driver makes, by its arguments.
  \<open>pg_eval_select_inherited\<close> is the selection script handed, in place of the text to
  look for, a member that every object inherits.
\<close>

record page =
  pg_goto :: "string \<Rightarrow> exn + unit"
  pg_query :: "string \<Rightarrow> exn + bool"
  pg_isIntersectingViewport :: "string \<Rightarrow> exn + bool"
  pg_scrollIntoView :: "string \<Rightarrow> exn + unit"
  pg_waitForTimeout :: "nat \<Rightarrow> exn + unit"
  pg_focus :: "string \<Rightarrow> exn + unit"
  pg_key :: "string \<Rightarrow> exn + unit"
  pg_type :: "string \<Rightarrow> exn + unit"
  pg_select :: "string \<Rightarrow> string \<Rightarrow> exn + unit"
  pg_eval_tab :: "exn + tab_found"
  pg_eval_any_tab :: "exn + bool"
  pg_eval_select :: "string \<Rightarrow> string \<Rightarrow> exn + bool"
  pg_eval_select_inherited :: "string \<Rightarrow> string \<Rightarrow> exn + bool"
  pg_eval_click :: "string \<Rightarrow> exn + bool"
  pg_waitForSelector :: "string \<Rightarrow> nat \<Rightarrow> exn + unit"

text \<open>\<open>isIntersectingViewport\<close>, then \<open>scrollIntoView\<close> and a wait when not visible.\<close>

definition ensure_visible :: "page \<Rightarrow> string \<Rightarrow> bool act" where
  "ensure_visible pg sel =
     bindA (callA (pg_isIntersectingViewport pg sel)) (\<lambda>isVisible.
       thenA (if \<not> isVisible
              then thenA (callA (pg_scrollIntoView pg sel)) (callA (pg_waitForTimeout pg 500))
              else returnA ())
             (returnA isVisible))"

text \<open>Focus the input, select all, delete, type the text.\<close>

definition clear_and_type :: "page \<Rightarrow> string \<Rightarrow> string \<Rightarrow> unit act" where
  "clear_and_type pg sel txt =
     seqA [callA (pg_focus pg sel), callA (pg_waitForTimeout pg 200),
           callA (pg_key pg ''down Control''), callA (pg_key pg ''press a''),
           callA (pg_key pg ''up Control''), callA (pg_key pg ''press Backspace''),
           callA (pg_waitForTimeout pg 200), callA (pg_type pg txt)]"

definition selectProcedimientosSeleccion :: "page \<Rightarrow> unit act" where
  "selectProcedimientosSeleccion pg =
     tryA
       (thenA (logA Info ''Seleccionando pestana Procedimientos de Seleccion'')
         (bindA (callA (pg_eval_tab pg)) (\<lambda>tabFound.
            case tabFound of
              TabFound clicked txt \<Rightarrow>
                if clicked
                then thenA (logA Info ''Pestana encontrada y clickeada'')
                           (callA (pg_waitForTimeout pg 2000))
                else logA Info ''Pestana ya esta activa''
            | TabNotFound \<Rightarrow>
                bindA (callA (pg_eval_any_tab pg)) (\<lambda>anyTabClicked.
                  if anyTabClicked
                  then thenA (logA Info ''Tab clickeado usando fallback'')
                             (callA (pg_waitForTimeout pg 2000))
                  else logA Warn ''No se pudo seleccionar la pestana''))))
       (\<lambda>err. logA Warn ''Error seleccionando pestana'')"

definition sel_objeto :: string where
  "sel_objeto = ''select[id=\"tbBuscador:idFormBuscarProceso:j_idt201_input\"]''"

definition sel_descripcion :: string where
  "sel_descripcion = ''input[id=\"tbBuscador:idFormBuscarProceso:descripcionObjeto\"]''"

definition sel_anio :: string where
  "sel_anio = ''select[id=\"tbBuscador:idFormBuscarProceso:anioConvocatoria_input\"]''"

definition sel_fecha_desde :: string where
  "sel_fecha_desde = ''input[id=\"tbBuscador:idFormBuscarProceso:fechaPublicacionDesde_input\"]''"

definition sel_fecha_hasta :: string where
  "sel_fecha_hasta = ''input[id=\"tbBuscador:idFormBuscarProceso:fechaPublicacionHasta_input\"]''"

definition sel_buscar :: string where
  "sel_buscar = ''button[id=\"tbBuscador:idFormBuscarProceso:btnBuscarSel\"]''"

definition sel_results :: string where
  "sel_results = ''table[role=\"grid\"] tbody tr''"

text \<open>
  The lookup table \<open>valorMap\<close> and \<open>valorMap[valor] || valor\<close>. The table is an
  object literal, so besides its eight keys a lookup finds the members that every object
  inherits; those are functions or objects, truthy and not text, written \<open>None\<close>.
\<close>

definition valorMap :: "(string \<times> string) list" where
  "valorMap =
     [(''bien'', ''62''), (''consultoria'', ''63''),
      (''consultor'' @ [char_of (237 :: nat)] @ ''a'', ''63''),
      (''obra'', ''64''), (''servicio'', ''65''), (''Bien'', ''62''),
      (''Consultor'' @ [char_of (237 :: nat)] @ ''a de Obra'', ''63''),
      (''Servicio'', ''65'')]"

definition inherited_keys :: "string list" where
  "inherited_keys =
     [''constructor'', ''hasOwnProperty'', ''isPrototypeOf'', ''propertyIsEnumerable'',
      ''toLocaleString'', ''toString'', ''valueOf'', ''__proto__'', ''__defineGetter__'',
      ''__defineSetter__'', ''__lookupGetter__'', ''__lookupSetter__'']"

definition valorSeleccion :: "string \<Rightarrow> string option" where
  "valorSeleccion valor =
     (case map_of valorMap valor of
        Some v \<Rightarrow> Some (if v \<noteq> [] then v else valor)
      | None \<Rightarrow> if valor \<in> set inherited_keys then None else Some valor)"

definition selectObjetoContratacion :: "page \<Rightarrow> string \<Rightarrow> unit act" where
  "selectObjetoContratacion pg valor =
     tryA
       (thenA (logA Info ''Seleccionando Objeto de Contratacion'')
         (bindA (callA (pg_query pg sel_objeto)) (\<lambda>element.
            bindA
              (if element then
                 thenA (logA Info ''Elemento select encontrado'')
                   (bindA (ensure_visible pg sel_objeto) (\<lambda>isVisible.
                      thenA (logA Info ''Valor mapeado'')
                        (bindA (callA (case valorSeleccion valor of
                                         Some val \<Rightarrow> pg_eval_select pg sel_objeto val
                                       | None \<Rightarrow> pg_eval_select_inherited pg sel_objeto valor))
                           (\<lambda>success.
                              if success
                              then thenA (logA Info ''Objeto de Contratacion seleccionado'')
                                     (thenA (callA (pg_waitForTimeout pg 1000)) (returnA True))
                              else thenA (logA Warn ''La evaluacion de seleccion fallo'')
                                     (returnA False)))))
               else thenA (logA Warn ''No se encontro el elemento select'') (returnA False))
              (\<lambda>returned.
                 if returned then returnA ()
                 else logA Warn ''No se pudo seleccionar Objeto de Contratacion''))))
       (\<lambda>err. logA Warn ''Error seleccionando Objeto de Contratacion'')"

definition fillDescripcion :: "page \<Rightarrow> string \<Rightarrow> unit act" where
  "fillDescripcion pg texto =
     tryA
       (thenA (logA Info ''Ingresando descripcion'')
         (bindA (callA (pg_query pg sel_descripcion)) (\<lambda>element.
            if element then
              seqA [logA Info ''Elemento input descripcion encontrado'',
                    thenA (ensure_visible pg sel_descripcion) (returnA ()),
                    clear_and_type pg sel_descripcion texto,
                    logA Info ''Descripcion ingresada'',
                    callA (pg_waitForTimeout pg 1000)]
            else logA Warn ''No se encontro el elemento input'')))
       (\<lambda>err. logA Warn ''Error ingresando descripcion'')"

definition selectAnio :: "page \<Rightarrow> string \<Rightarrow> unit act" where
  "selectAnio pg anio =
     tryA
       (thenA (logA Info ''Seleccionando anio'')
         (bindA (callA (pg_query pg sel_anio)) (\<lambda>element.
            if element then
              seqA [thenA (ensure_visible pg sel_anio) (returnA ()),
                    callA (pg_select pg sel_anio anio),
                    logA Info ''Anio seleccionado'',
                    callA (pg_waitForTimeout pg 1000)]
            else logA Warn ''No se pudo seleccionar anio'')))
       (\<lambda>err. logA Warn ''Error seleccionando anio'')"

text \<open>The helper \<open>setFecha\<close> inside \<open>setFechaPublicacion\<close>.\<close>

definition setFecha :: "page \<Rightarrow> string \<Rightarrow> string \<Rightarrow> bool act" where
  "setFecha pg sel fecha =
     tryA
       (bindA (callA (pg_query pg sel)) (\<lambda>element.
          if element then
            thenA (seqA [logA Info ''Elemento de fecha encontrado'',
                         thenA (ensure_visible pg sel) (returnA ()),
                         clear_and_type pg sel fecha,
                         logA Info ''Fecha configurada'',
                         callA (pg_waitForTimeout pg 500)])
                  (returnA True)
          else thenA (logA Warn ''No se encontro el elemento de fecha'') (returnA False)))
       (\<lambda>err. thenA (logA Warn ''Error configurando fecha'') (returnA False))"

definition setFechaPublicacion :: "page \<Rightarrow> string \<Rightarrow> string \<Rightarrow> bool act" where
  "setFechaPublicacion pg fechaDesde fechaHasta =
     tryA
       (thenA (logA Info ''Configurando fechas de publicacion'')
         (bindA (setFecha pg sel_fecha_desde fechaDesde) (\<lambda>desdeSuccess.
            bindA (setFecha pg sel_fecha_hasta fechaHasta) (\<lambda>hastaSuccess.
              if desdeSuccess \<and> hastaSuccess
              then thenA (logA Info ''Fechas de publicacion configuradas'')
                     (thenA (callA (pg_waitForTimeout pg 1000)) (returnA True))
              else thenA (logA Warn ''No se pudieron configurar todas las fechas'')
                     (returnA False)))))
       (\<lambda>err. thenA (logA Warn ''Error configurando fechas de publicacion'') (returnA False))"

text \<open>
  \<open>clickBuscar\<close>: when the button is missing, or the click script reports no button,
  the step logs warnings and returns; its \<open>catch\<close> logs the exception at error level
  and does not rethrow.
\<close>

definition clickBuscar :: "page \<Rightarrow> unit act" where
  "clickBuscar pg =
     tryA
       (thenA (logA Info ''Haciendo click en buscar'')
         (bindA (callA (pg_query pg sel_buscar)) (\<lambda>element.
            bindA
              (if element then
                 thenA (logA Info ''Elemento boton buscar encontrado'')
                   (bindA (ensure_visible pg sel_buscar) (\<lambda>isVisible.
                      thenA (logA Info ''Elemento boton visible?'')
                        (bindA (callA (pg_eval_click pg sel_buscar)) (\<lambda>clickSuccess.
                           if clickSuccess
                           then thenA (logA Info ''Click en buscar realizado exitosamente'')
                                  (thenA (callA (pg_waitForTimeout pg 2000)) (returnA True))
                           else thenA (logA Warn ''No se pudo hacer click usando evaluate'')
                                  (returnA False)))))
               else thenA (logA Warn ''No se encontro el elemento boton'') (returnA False))
              (\<lambda>returned.
                 if returned then returnA ()
                 else logA Warn ''No se encontro boton de buscar''))))
       (\<lambda>err. logA Err ''Error haciendo click en buscar'')"

text \<open>\<open>waitForResults\<close>: the only step whose \<open>catch\<close> throws.\<close>

definition waitForResults :: "page \<Rightarrow> nat \<Rightarrow> unit act" where
  "waitForResults pg timeout =
     tryA
       (seqA [logA Info ''Esperando resultados'',
              callA (pg_waitForSelector pg sel_results timeout),
              callA (pg_waitForTimeout pg 2000),
              logA Info ''Tabla de resultados cargada''])
       (\<lambda>err. thenA (logA Err ''Error esperando resultados'')
                 (throwA (Error ''No se encontraron resultados en el tiempo esperado'')))"

text \<open>
  The parameters of \<open>searchProcesses\<close> after destructuring; \<open>maxProcesses\<close> is a
  number or \<open>null\<close> (\<open>None\<close>).
\<close>

record search_params =
  kwords :: "string list"
  objetoContratacion :: string
  anio :: string
  maxProcesses :: "int option"
  fechaDesde :: "string option"
  fechaHasta :: "string option"

definition baseUrl :: string where
  "baseUrl = ''https://prodapp2.seace.gob.pe/seacebus-uiwd-pub/buscadorPublico/buscadorPublico.xhtml''"

text \<open>\<open>keywords.join(' ')\<close>\<close>

fun join_blank :: "string list \<Rightarrow> string" where
  "join_blank [] = []"
| "join_blank [w] = w"
| "join_blank (w # ws) = w @ '' '' @ join_blank ws"

text \<open>Steps 1 to 5 of \<open>searchProcesses\<close>, in order.\<close>

definition form_driving :: "page \<Rightarrow> nat \<Rightarrow> search_params \<Rightarrow> unit act" where
  "form_driving pg timeout ps =
     seqA [callA (pg_goto pg baseUrl),
           logA Info ''Pagina SEACE cargada'',
           callA (pg_waitForTimeout pg 3000),
           selectProcedimientosSeleccion pg,
           (if objetoContratacion ps \<noteq> [] then selectObjetoContratacion pg (objetoContratacion ps)
            else returnA ()),
           (if anio ps \<noteq> [] then selectAnio pg (anio ps) else returnA ()),
           thenA (setFechaPublicacion pg
                    (if present (fechaDesde ps) then the (fechaDesde ps) else anio ps @ ''-01-01'')
                    (if present (fechaHasta ps) then the (fechaHasta ps) else anio ps @ ''-12-31''))
                 (returnA ()),
           (if join_blank (kwords ps) \<noteq> [] \<and> trim (join_blank (kwords ps)) \<noteq> []
            then fillDescripcion pg (join_blank (kwords ps)) else returnA ()),
           clickBuscar pg,
           waitForResults pg timeout]"


section \<open>PaginatedExtractor: the page loop of \<open>searchProcesses\<close>\<close>

text \<open>
  The browser session after the search was submitted is a state \<open>'s\<close>. On it,
  \<open>current_dom\<close> is what the page script of \<open>extractTableData\<close> sees (\<open>None\<close>
  when the script call rejects), \<open>has_next\<close> is \<open>hasNextPage\<close> (its \<open>catch\<close>
  answers \<open>false\<close>), and \<open>go_next\<close> is \<open>goToNextPage\<close> followed by the pause of
  one second: the next state, or the exception either of them throws.
\<close>

record 's pager =
  current_dom :: "'s \<Rightarrow> dom option"
  has_next :: "'s \<Rightarrow> bool"
  go_next :: "'s \<Rightarrow> exn + 's"

text \<open>How the loop was left: one constructor for each \<open>break\<close> and one for the loop condition.\<close>

datatype stop = EmptyPage | LimitReached | NoMorePages | GuardFalse

partial_function (option) extract_pages ::
  "ambient \<Rightarrow> 's pager \<Rightarrow> int option \<Rightarrow> 's \<Rightarrow> bool \<Rightarrow> proceso list \<Rightarrow>
   (exn + proceso list \<times> stop) option"
where
  "extract_pages env pgr maxP s hasMorePages allResults =
     (if hasMorePages \<and> (maxP = None \<or> int (length allResults) < the maxP) then
        (let pageResults = extractTableData env (current_dom pgr s) in
         if pageResults = [] then Some (Inr (allResults, EmptyPage))
         else
           (let allResults' = allResults @ pageResults in
            if (case maxP of None \<Rightarrow> False | Some m \<Rightarrow> m \<noteq> 0 \<and> m \<le> int (length allResults'))
            then Some (Inr (allResults', LimitReached))
            else if \<not> has_next pgr s then Some (Inr (allResults', NoMorePages))
            else (case go_next pgr s of
                    Inl e \<Rightarrow> Some (Inl e)
                  | Inr s' \<Rightarrow> extract_pages env pgr maxP s' (has_next pgr s) allResults')))
      else Some (Inr (allResults, GuardFalse)))"

text \<open>\<open>xs.slice(0, m)\<close>: a negative \<open>m\<close> counts from the end.\<close>

definition slice0 :: "'a list \<Rightarrow> int \<Rightarrow> 'a list" where
  "slice0 xs m = (if 0 \<le> m then take (nat m) xs else take (length xs - nat (- m)) xs)"

text \<open>
  \<open>searchProcesses\<close>: the form driver, the page loop from the state \<open>s0\<close> the search
  leaves, and \<open>maxProcesses ? allResults.slice(0, maxProcesses) : allResults\<close>.
  \<open>None\<close>: the loop does not end. The outer \<open>catch\<close> logs and rethrows, so an
  exception of a step is the result. \<open>performScraping\<close> has initialized the scraper
  before the call: the branch \<open>if (!this.browser)\<close> is not taken.
\<close>

definition searchProcesses ::
  "ambient \<Rightarrow> page \<Rightarrow> nat \<Rightarrow> 's pager \<Rightarrow> 's \<Rightarrow> search_params \<Rightarrow> (exn + proceso list) option"
where
  "searchProcesses env pg timeout pgr s0 ps =
     (case snd (form_driving pg timeout ps []) of
        Inl e \<Rightarrow> Some (Inl e)
      | Inr u \<Rightarrow>
          (case extract_pages env pgr (maxProcesses ps) s0 True [] of
             None \<Rightarrow> None
           | Some (Inl e) \<Rightarrow> Some (Inl e)
           | Some (Inr (allResults, why)) \<Rightarrow>
               Some (Inr (case maxProcesses ps of
                            None \<Rightarrow> allResults
                          | Some m \<Rightarrow> if m \<noteq> 0 then slice0 allResults m else allResults))))"

text \<open>A finite source: the list of the pages still to come, the current one first.\<close>

definition list_pager :: "dom list pager" where
  "list_pager =
     \<lparr> current_dom = (\<lambda>s. case s of [] \<Rightarrow> None | d # _ \<Rightarrow> Some d),
       has_next = (\<lambda>s. 1 < length s),
       go_next = (\<lambda>s. Inr (tl s)) \<rparr>"

section \<open>IngestionStore and JobOrchestrator: \<open>ETLService\<close>\<close>

text \<open>
  \<open>mapScrapeDataToProcesoSchema\<close>: \<open>id_proceso\<close> is copied, every other key is
  \<open>procesoData.key || default\<close>. The argument \<open>now\<close> is \<open>new Date().toISOString()\<close>.
\<close>

definition mapScrapeDataToProcesoSchema :: "string \<Rightarrow> proceso \<Rightarrow> proceso" where
  "mapScrapeDataToProcesoSchema now procesoData =
     \<lparr> id_proceso = id_proceso procesoData,
       nombre_entidad = orJ (nombre_entidad procesoData) (JNull),
       entidad_nombre = orJ (entidad_nombre procesoData) (JNull),
       fecha_publicacion = orJ (fecha_publicacion procesoData) (JNull),
       nomenclatura = orJ (nomenclatura procesoData) (JNull),
       reiniciado_desde = orJ (reiniciado_desde procesoData) (JNull),
       objeto_contratacion = orJ (objeto_contratacion procesoData) (JNull),
       descripcion_objeto = orJ (descripcion_objeto procesoData) (JNull),
       codigo_snip = orJ (codigo_snip procesoData) (JNull),
       estado_proceso = orJ (estado_proceso procesoData) (JStr ''Publicado''),
       tipo_proceso = orJ (tipo_proceso procesoData) (JNull),
       url_proceso = orJ (url_proceso procesoData) (JNull),
       source_url = orJ (source_url procesoData) (JNull),
       pagina_scraping = orJ (pagina_scraping procesoData) (JNull),
       numero_convocatoria = orJ (numero_convocatoria procesoData) (JNull),
       entidad_ruc = orJ (entidad_ruc procesoData) (JNull),
       codigo_cui = orJ (codigo_cui procesoData) (JNull),
       departamento = orJ (departamento procesoData) (JNull),
       provincia = orJ (provincia procesoData) (JNull),
       distrito = orJ (distrito procesoData) (JNull),
       monto_referencial = orJ (monto_referencial procesoData) (JNull),
       moneda = orJ (moneda procesoData) (JStr ''Soles''),
       rubro = orJ (rubro procesoData) (JNull),
       version_seace = orJ (version_seace procesoData) (JStr ''3''),
       fecha_scraping = orJ (fecha_scraping procesoData) (JStr now),
       requiere_visita_previa = orJ (requiere_visita_previa procesoData) (JBool False),
       datos_ocds = orJ (datos_ocds procesoData) (JNull),
       fecha_limite_presentacion = orJ (fecha_limite_presentacion procesoData) (JNull) \<rparr>"

text \<open>
  The table \<open>procesos\<close> is the list of its rows, each the 28 mapped columns. The
  database may refuse the values of a row (a type or length constraint): \<open>rejects\<close>.
  \<open>findOne\<close> looks a row up by \<open>id_proceso\<close>; \<open>instance.update(values)\<close> rewrites
  the row that was found.
\<close>

type_synonym table = "proceso list"

definition findOne :: "table \<Rightarrow> jsval \<Rightarrow> proceso option" where
  "findOne t k = find (\<lambda>r. id_proceso r = k) t"

fun update_row :: "jsval \<Rightarrow> proceso \<Rightarrow> table \<Rightarrow> table" where
  "update_row k v [] = []"
| "update_row k v (r # rs) = (if id_proceso r = k then v # rs else r # update_row k v rs)"

definition db_create :: "(proceso \<Rightarrow> bool) \<Rightarrow> proceso \<Rightarrow> table \<Rightarrow> exn + table" where
  "db_create rejects v t = (if rejects v then Inl (Error ''database error'') else Inr (t @ [v]))"

definition db_update :: "(proceso \<Rightarrow> bool) \<Rightarrow> jsval \<Rightarrow> proceso \<Rightarrow> table \<Rightarrow> exn + table" where
  "db_update rejects k v t =
     (if rejects v then Inl (Error ''database error'') else Inr (update_row k v t))"

text \<open>
  The upsert of \<open>performScraping\<close>: map, require \<open>id_proceso\<close>, \<open>findOrCreate\<close> by
  \<open>id_proceso\<close> with the mapped record as defaults, and \<open>update\<close> when the row was
  there. The result is the table and \<open>created\<close>.
\<close>

definition upsert :: "(proceso \<Rightarrow> bool) \<Rightarrow> string \<Rightarrow> table \<Rightarrow> proceso \<Rightarrow> exn + table \<times> bool" where
  "upsert rejects now t procesoData =
     (let procesoMapeado = mapScrapeDataToProcesoSchema now procesoData in
      if \<not> truthy (id_proceso procesoMapeado) then Inl (Error ''id_proceso es requerido'')
      else
        (case findOne t (id_proceso procesoMapeado) of
           None \<Rightarrow>
             (case db_create rejects procesoMapeado t of
                Inl e \<Rightarrow> Inl e
              | Inr t' \<Rightarrow> Inr (t', True))
         | Some proceso \<Rightarrow>
             (case db_update rejects (id_proceso procesoMapeado) procesoMapeado t of
                Inl e \<Rightarrow> Inl e
              | Inr t' \<Rightarrow> Inr (t', False))))"

text \<open>The variables of the persistence loop, and the table.\<close>

record persist =
  tbl :: table
  savedCount :: nat
  updateCount :: nat
  errorCount :: nat
  errorDetails :: "(jsval \<times> exn) list"
  newProcessesInserted :: nat

definition persist_init :: "table \<Rightarrow> persist" where
  "persist_init t =
     \<lparr> tbl = t, savedCount = 0, updateCount = 0, errorCount = 0, errorDetails = [],
       newProcessesInserted = 0 \<rparr>"

text \<open>\<open>const maxNewProcesses = params.maxProcesses || null\<close>\<close>

definition maxNewProcesses_of :: "int option \<Rightarrow> int option" where
  "maxNewProcesses_of m = (case m of None \<Rightarrow> None | Some n \<Rightarrow> if n \<noteq> 0 then Some n else None)"

text \<open>\<open>maxNewProcesses && newProcessesInserted >= maxNewProcesses\<close>\<close>

definition cap_reached :: "int option \<Rightarrow> persist \<Rightarrow> bool" where
  "cap_reached maxNew st =
     (case maxNew of None \<Rightarrow> False | Some m \<Rightarrow> m \<noteq> 0 \<and> m \<le> int (newProcessesInserted st))"

definition count_error :: "jsval \<Rightarrow> exn \<Rightarrow> persist \<Rightarrow> persist" where
  "count_error k e st =
     st\<lparr>errorCount := Suc (errorCount st), errorDetails := errorDetails st @ [(k, e)]\<rparr>"

text \<open>The body of \<open>for (const procesoData of results)\<close> with its \<open>try\<close>/\<open>catch\<close>.\<close>

definition persist_step ::
  "(proceso \<Rightarrow> bool) \<Rightarrow> string \<Rightarrow> int option \<Rightarrow> persist \<Rightarrow> proceso \<Rightarrow> persist" where
  "persist_step rejects now maxNew st procesoData =
     (if cap_reached maxNew st then
        (case findOne (tbl st) (id_proceso procesoData) of
           Some existingProceso \<Rightarrow>
             (case db_update rejects (id_proceso procesoData)
                     (mapScrapeDataToProcesoSchema now procesoData) (tbl st) of
                Inl e \<Rightarrow> count_error (id_proceso procesoData) e st
              | Inr t' \<Rightarrow> st\<lparr>tbl := t', updateCount := Suc (updateCount st)\<rparr>)
         | None \<Rightarrow> st)
      else
        (case upsert rejects now (tbl st) procesoData of
           Inl e \<Rightarrow> count_error (id_proceso procesoData) e st
         | Inr (t', created) \<Rightarrow>
             if created
             then st\<lparr>tbl := t', savedCount := Suc (savedCount st),
                     newProcessesInserted := Suc (newProcessesInserted st)\<rparr>
             else st\<lparr>tbl := t', updateCount := Suc (updateCount st)\<rparr>))"

definition persist_all ::
  "(proceso \<Rightarrow> bool) \<Rightarrow> string \<Rightarrow> int option \<Rightarrow> persist \<Rightarrow> proceso list \<Rightarrow> persist" where
  "persist_all rejects now maxNew st results = foldl (persist_step rejects now maxNew) st results"

text \<open>The row of \<open>etl_logs\<close> that \<open>performScraping\<close> writes at its end.\<close>

datatype job_status = Running | Completed | Failed

record etl_log =
  status :: job_status
  process_count :: nat
  inserted_count :: nat
  updated_count :: nat
  error_count :: nat

text \<open>
  The request body of a job, and what the service has around it: the browser launch of
  \<open>scraper.initialize\<close>, the three exports of \<open>exportService\<close> (a module that is
  not part of the sources at hand: its outcome is a parameter), the database's refusal
  of a row, the clock and the current year. Writes to \<open>etl_logs\<close> are taken to succeed;
  \<open>scraper.close()\<close> in the \<open>finally\<close> block swallows its own failure and changes
  neither the log row nor the table.
\<close>

record job_params =
  jp_keywords :: "string list option"
  jp_objetoContratacion :: "string option"
  jp_anio :: "string option"
  jp_maxProcesses :: "int option"

record services =
  launch :: "exn + unit"
  export_results :: "proceso list \<Rightarrow> exn + unit"
  db_rejects :: "proceso \<Rightarrow> bool"
  clock_iso :: string
  current_year :: string

text \<open>The object handed to \<open>scraper.searchProcesses\<close>; \<open>params.maxProcesses || 100\<close>.\<close>

definition scraper_params :: "services \<Rightarrow> job_params \<Rightarrow> search_params" where
  "scraper_params sv params =
     \<lparr> kwords = (case jp_keywords params of None \<Rightarrow> [''software''] | Some ks \<Rightarrow> ks),
       objetoContratacion =
         (if present (jp_objetoContratacion params) then the (jp_objetoContratacion params)
          else ''Servicio''),
       anio = (if present (jp_anio params) then the (jp_anio params) else current_year sv),
       maxProcesses =
         (case jp_maxProcesses params of
            None \<Rightarrow> Some 100
          | Some n \<Rightarrow> if n \<noteq> 0 then Some n else Some 100),
       fechaDesde = None,
       fechaHasta = None \<rparr>"

definition failed_log :: etl_log where
  "failed_log =
     \<lparr> status = Failed, process_count = 0, inserted_count = 0, updated_count = 0,
       error_count = 1 \<rparr>"

definition performScraping ::
  "services \<Rightarrow> ambient \<Rightarrow> page \<Rightarrow> 's pager \<Rightarrow> 's \<Rightarrow> job_params \<Rightarrow> table \<Rightarrow>
   (etl_log \<times> table) option" where
  "performScraping sv env pg pgr s0 params t =
     (case launch sv of
        Inl e \<Rightarrow> Some (failed_log, t)
      | Inr u \<Rightarrow>
          (case searchProcesses env pg 90000 pgr s0 (scraper_params sv params) of
             None \<Rightarrow> None
           | Some (Inl e) \<Rightarrow> Some (failed_log, t)
           | Some (Inr results) \<Rightarrow>
               (case (if results \<noteq> [] then export_results sv results else Inr ()) of
                  Inl e \<Rightarrow> Some (failed_log, t)
                | Inr u' \<Rightarrow>
                    (let st = persist_all (db_rejects sv) (clock_iso sv)
                                (maxNewProcesses_of (jp_maxProcesses params))
                                (persist_init t) results
                     in Some (\<lparr> status = Completed,
                                 process_count = savedCount st + updateCount st,
                                 inserted_count = savedCount st,
                                 updated_count = updateCount st,
                                 error_count = errorCount st \<rparr>,
                              tbl st)))))"

section \<open>Reference predicates and sample inputs\<close>

text \<open>
  The row check in words: at least seven cells; the trimmed first cell is read by
  \<open>parseInt\<close> as a number; the trimmed entity cell is non-empty and is not one of the two
  header labels, compared in lower case; the trimmed description has at least ten
  characters.
\<close>

definition row_accepted :: "row \<Rightarrow> bool" where
  "row_accepted cells =
     (if length cells < 7 then False
      else parseInt (trim (textContent (cells ! 0))) \<noteq> None
           \<and> trim (textContent (cells ! 1)) \<noteq> []
           \<and> toLowerCase (trim (textContent (cells ! 1))) \<noteq> ''nombre o sigla de la entidad''
           \<and> toLowerCase (trim (textContent (cells ! 1))) \<noteq> ''entidad''
           \<and> 10 \<le> length (trim (textContent (cells ! 6))))"

text \<open>
  A text that \<open>parseFloat\<close> reads as a number: after leading white space and an
  optional sign it starts with a digit, with a point followed by a digit, or with
  \<open>Infinity\<close>.
\<close>

definition numeric_prefix :: "string \<Rightarrow> bool" where
  "numeric_prefix t =
     (case take_sign (dropWhile is_space t) of (neg, u) \<Rightarrow>
        prefix ''Infinity'' u
        \<or> (case u of
              [] \<Rightarrow> False
            | c # r \<Rightarrow> is_digit c
                \<or> (c = CHR ''.'' \<and> (case r of [] \<Rightarrow> False | d # r' \<Rightarrow> is_digit d))))"

text \<open>
  The whole part of an amount as SEACE prints it: digits, at least one, with points
  between groups of them.
\<close>

definition amount_digits :: "string \<Rightarrow> bool" where
  "amount_digits w = ((\<exists>c\<in>set w. is_digit c) \<and> (\<forall>c\<in>set w. is_digit c \<or> c = CHR ''.''))"

text \<open>The session state after \<open>n\<close> successful page changes.\<close>

fun page_at :: "'s pager \<Rightarrow> 's \<Rightarrow> nat \<Rightarrow> 's option" where
  "page_at pgr s 0 = Some s"
| "page_at pgr s (Suc n) =
     (case go_next pgr s of Inl e \<Rightarrow> None | Inr s' \<Rightarrow> page_at pgr s' n)"

text \<open>
  \<open>maxProcesses && allResults.length >= maxProcesses\<close>: the accumulated rows have
  reached a cap that is neither \<open>null\<close> nor 0.
\<close>

definition limit_hit :: "int option \<Rightarrow> proceso list \<Rightarrow> bool" where
  "limit_hit maxP rows = (case maxP of None \<Rightarrow> False | Some m \<Rightarrow> m \<noteq> 0 \<and> m \<le> int (length rows))"

text \<open>The rows of the first \<open>n\<close> pages, from the session state \<open>s\<close>.\<close>

fun rows_before :: "ambient \<Rightarrow> 's pager \<Rightarrow> 's \<Rightarrow> nat \<Rightarrow> proceso list" where
  "rows_before env pgr s 0 = []"
| "rows_before env pgr s (Suc n) =
     extractTableData env (current_dom pgr s)
     @ (case go_next pgr s of Inl e \<Rightarrow> [] | Inr s' \<Rightarrow> rows_before env pgr s' n)"

text \<open>
  The loop goes through the first \<open>n\<close> pages without stopping: each of them has rows,
  the rows accumulated with it stay under the cap, \<open>hasNextPage\<close> says yes and
  \<open>goToNextPage\<close> succeeds.
\<close>

fun passes :: "ambient \<Rightarrow> 's pager \<Rightarrow> int option \<Rightarrow> 's \<Rightarrow> proceso list \<Rightarrow> nat \<Rightarrow> bool" where
  "passes env pgr maxP s acc 0 = True"
| "passes env pgr maxP s acc (Suc n) =
     (extractTableData env (current_dom pgr s) \<noteq> []
      \<and> \<not> limit_hit maxP (acc @ extractTableData env (current_dom pgr s))
      \<and> has_next pgr s
      \<and> (case go_next pgr s of
            Inl e \<Rightarrow> False
          | Inr s' \<Rightarrow> passes env pgr maxP s' (acc @ extractTableData env (current_dom pgr s)) n))"



definition mk_cell :: "string \<Rightarrow> cell" where
  "mk_cell t = \<lparr> textContent = t, links = 0, images = 0 \<rparr>"

text \<open>A results row of twelve cells with the given ordinal, nomenclature, date and amount.\<close>

definition sample_row :: "string \<Rightarrow> string \<Rightarrow> string \<Rightarrow> string \<Rightarrow> row" where
  "sample_row ordinal nomen fecha monto =
     map mk_cell
       [ordinal, ''MUNICIPALIDAD DE LIMA'', fecha, nomen, [], ''Servicio'',
        ''Servicio de desarrollo de software'', [], monto, ''Soles'', ''3'', []]"

definition one_page :: "row list \<Rightarrow> dom" where
  "one_page rs = \<lparr> grid_rows = rs, datatables = [] \<rparr>"

definition sample_env :: ambient where
  "sample_env =
     \<lparr> href = ''https://prodapp2.seace.gob.pe/buscadorPublico.xhtml'',
       now_iso = ''2025-10-09T15:00:00.000Z'',
       proc_suffix = (\<lambda>i. replicate (Suc i) (CHR ''x'')),
       norm_suffix = ''n'' \<rparr>"

text \<open>The record that the scraper makes of \<open>sample_row\<close>, with the given date and amount.\<close>

definition sample_record :: "jsval \<Rightarrow> jsval \<Rightarrow> proceso" where
  "sample_record fecha monto =
     \<lparr> id_proceso = JStr ''AS-SM-1-2025'',
       nombre_entidad = JStr ''MUNICIPALIDAD DE LIMA'',
       entidad_nombre = JStr ''MUNICIPALIDAD DE LIMA'',
       fecha_publicacion = fecha,
       nomenclatura = JStr ''AS-SM-1-2025'',
       reiniciado_desde = JNull,
       objeto_contratacion = JStr ''Servicio'',
       descripcion_objeto = JStr ''Servicio de desarrollo de software'',
       codigo_snip = JNull,
       estado_proceso = JStr ''Publicado'',
       tipo_proceso = JNull,
       url_proceso = JNull,
       source_url = JStr ''https://prodapp2.seace.gob.pe/buscadorPublico.xhtml'',
       pagina_scraping = JStr ''https://prodapp2.seace.gob.pe/buscadorPublico.xhtml'',
       numero_convocatoria = JStr ''AS-SM-1-2025'',
       entidad_ruc = JNull,
       codigo_cui = JNull,
       departamento = JNull,
       provincia = JNull,
       distrito = JNull,
       monto_referencial = monto,
       moneda = JStr ''Soles'',
       rubro = JStr ''Servicio'',
       version_seace = JStr ''3'',
       fecha_scraping = JStr ''2025-10-09T15:00:00.000Z'',
       requiere_visita_previa = JBool False,
       datos_ocds = JNull,
       fecha_limite_presentacion = JNull \<rparr>"

text \<open>A page of forty rows.\<close>

definition sample_page :: dom where
  "sample_page =
     one_page (replicate 40
       (sample_row ''1'' ''AS-SM-1-2025'' ''09/10/2025 14:30'' ''1.234.567,89''))"

text \<open>A browser in which every call succeeds, and one without the search button.\<close>

definition ok_page :: page where
  "ok_page =
     \<lparr> pg_goto = (\<lambda>u. Inr ()),
       pg_query = (\<lambda>sel. Inr True),
       pg_isIntersectingViewport = (\<lambda>sel. Inr True),
       pg_scrollIntoView = (\<lambda>sel. Inr ()),
       pg_waitForTimeout = (\<lambda>ms. Inr ()),
       pg_focus = (\<lambda>sel. Inr ()),
       pg_key = (\<lambda>k. Inr ()),
       pg_type = (\<lambda>txt. Inr ()),
       pg_select = (\<lambda>sel v. Inr ()),
       pg_eval_tab = Inr (TabFound False ''Buscar Procedimientos de Seleccion''),
       pg_eval_any_tab = Inr False,
       pg_eval_select = (\<lambda>sel v. Inr True),
       pg_eval_select_inherited = (\<lambda>sel k. Inl TypeError),
       pg_eval_click = (\<lambda>sel. Inr True),
       pg_waitForSelector = (\<lambda>sel ms. Inr ()) \<rparr>"

definition no_button_page :: page where
  "no_button_page = ok_page\<lparr>pg_query := (\<lambda>sel. Inr (sel \<noteq> sel_buscar))\<rparr>"

definition ok_services :: services where
  "ok_services =
     \<lparr> launch = Inr (),
       export_results = (\<lambda>rs. Inr ()),
       db_rejects = (\<lambda>r. False),
       clock_iso = ''2025-10-09T16:00:00.000Z'',
       current_year = ''2025'' \<rparr>"

definition job :: "int option \<Rightarrow> job_params" where
  "job m =
     \<lparr> jp_keywords = Some [''software''], jp_objetoContratacion = Some ''servicio'',
       jp_anio = Some ''2025'', jp_maxProcesses = m \<rparr>"

section \<open>Text and number primitives\<close>

lemmas str_eval =
  is_space_def trim_def nth_opt_def present_def padStart2_def is_digit_def
  digit_val_def digits_val_def valorLimpio_def parseFloat_def exponent_of_def to_double_def

lemma exponent_of_pos: "0 < exponent_of r"
proof (cases r)
  case Nil
  then show ?thesis by (simp add: exponent_of_def)
next
  case (Cons c r')
  obtain eneg r'' where "take_sign r' = (eneg, r'')" by (cases "take_sign r'")
  with Cons show ?thesis by (simp add: exponent_of_def Let_def)
qed

lemma to_double_not_NaN: "to_double q \<noteq> NaN"
  by (simp add: to_double_def)

lemma to_double_nonneg:
  assumes "0 \<le> q"
  shows "to_double q = Infinity True \<or> (\<exists>r\<ge>0. to_double q = Fin r)"
proof (cases "2 ^ 1024 - 2 ^ 970 \<le> \<bar>q\<bar>")
  case True
  have "(0 :: rat) < 2 ^ 1024 - 2 ^ 970" by simp
  with True assms have "0 < q" by linarith
  with True show ?thesis by (simp add: to_double_def)
next
  case False
  then show ?thesis using assms by (simp add: to_double_def)
qed

lemma take_sign_neg: "take_sign t = (True, r) \<Longrightarrow> CHR ''-'' \<in> set t"
  by (cases t) (auto split: if_splits)

lemma parseFloat_unsigned:
  assumes "CHR ''-'' \<notin> set t"
  shows "parseFloat t = NaN \<or> parseFloat t = Infinity True \<or> (\<exists>q\<ge>0. parseFloat t = Fin q)"
proof -
  obtain neg r where ts: "take_sign (dropWhile is_space t) = (neg, r)"
    by (cases "take_sign (dropWhile is_space t)")
  have nn: "\<not> neg"
  proof
    assume neg
    with ts have "CHR ''-'' \<in> set (dropWhile is_space t)" by (auto dest: take_sign_neg)
    then have "CHR ''-'' \<in> set t" by (rule set_dropWhileD)
    with assms show False by simp
  qed
  have m: "0 \<le> (of_nat a + of_nat b / 10 ^ k :: rat) * exponent_of r'" for a b k r'
    using exponent_of_pos [of r'] by (simp add: zero_le_mult_iff)
  have d: "to_double q = Infinity True \<or> (\<exists>r\<ge>0. to_double q = Fin r)" if "0 \<le> q" for q
    using to_double_nonneg [OF that] .
  show ?thesis
  proof (cases "prefix ''Infinity'' r")
    case True
    then show ?thesis using nn by (simp add: parseFloat_def ts)
  next
    case False
    let ?ip = "takeWhile is_digit r"
    let ?r1 = "dropWhile is_digit r"
    let ?fp = "case ?r1 of [] \<Rightarrow> [] | c # r \<Rightarrow> if c = CHR ''.'' then takeWhile is_digit r else []"
    let ?r2 = "case ?r1 of [] \<Rightarrow> [] | c # r \<Rightarrow> if c = CHR ''.'' then dropWhile is_digit r else ?r1"
    let ?q = "(of_nat (digits_val ?ip) + of_nat (digits_val ?fp) / 10 ^ length ?fp :: rat)
                * exponent_of ?r2"
    have pf: "parseFloat t = (if ?ip = [] \<and> ?fp = [] then NaN else to_double ?q)"
      using nn False by (simp add: parseFloat_def ts Let_def)
    from d [OF m [of "digits_val ?ip" "digits_val ?fp" "length ?fp" ?r2]] pf
    show ?thesis by (cases "?ip = [] \<and> ?fp = []") auto
  qed
qed

lemma set_trim: "set (trim s) \<subseteq> set s"
proof
  fix x assume "x \<in> set (trim s)"
  then have "x \<in> set (dropWhile is_space (rev (dropWhile is_space s)))"
    by (simp add: trim_def)
  then have "x \<in> set (rev (dropWhile is_space s))" by (rule set_dropWhileD)
  then have "x \<in> set (dropWhile is_space s)" by simp
  then show "x \<in> set s" by (rule set_dropWhileD)
qed

lemma valorLimpio_minus: "CHR ''-'' \<notin> set s \<Longrightarrow> CHR ''-'' \<notin> set (valorLimpio s)"
proof -
  assume a: "CHR ''-'' \<notin> set s"
  let ?m = "map (\<lambda>c. if c = CHR '','' then CHR ''.'' else c) (filter (\<lambda>c. c \<noteq> CHR ''.'') s)"
  have "CHR ''-'' \<notin> set ?m" using a by auto
  then show ?thesis using set_trim [of ?m] unfolding valorLimpio_def by blast
qed

lemma normalize_monto_unsigned:
  assumes "CHR ''-'' \<notin> set s"
  shows "normalize_monto (JStr s) = JNull \<or> normalize_monto (JStr s) = JNum (Infinity True)
         \<or> (\<exists>q\<ge>0. normalize_monto (JStr s) = JNum (Fin q))"
  using parseFloat_unsigned [OF valorLimpio_minus [OF assms]]
  by (auto simp: normalize_monto_def Let_def)

lemma normalize_monto_never_NaN:
  "normalize_monto m = JNull \<or> (\<exists>n. normalize_monto m = JNum n \<and> n \<noteq> NaN)"
  by (cases m) (simp_all add: normalize_monto_def Let_def)

lemma digit_facts:
  assumes "is_digit c"
  shows "\<not> is_space c" "c \<noteq> CHR ''.''" "c \<noteq> CHR '',''" "c \<noteq> CHR ''-''" "c \<noteq> CHR ''+''"
    "c \<noteq> CHR ''I''" "digit_val c \<le> 9"
  using assms by (auto simp: is_digit_def is_space_def digit_val_def)

lemma not_digit_point: "\<not> is_digit (CHR ''.'')" "\<not> is_space (CHR ''.'')"
  by (simp_all add: is_digit_def is_space_def)

lemma trim_no_space:
  assumes "\<forall>c\<in>set s. \<not> is_space c"
  shows "trim s = s"
proof -
  have a: "dropWhile is_space s = s" using assms by (cases s) auto
  have "\<forall>c\<in>set (rev s). \<not> is_space c" using assms by simp
  then have b: "dropWhile is_space (rev s) = rev s" by (cases "rev s") simp_all
  show ?thesis by (simp add: trim_def a b)
qed

lemma digits_val_snoc: "digits_val (ds @ [c]) = digits_val ds * 10 + digit_val c"
  by (simp add: digits_val_def)

lemma digits_val_bound: "\<forall>c\<in>set ds. is_digit c \<Longrightarrow> digits_val ds < 10 ^ length ds"
proof (induction ds rule: rev_induct)
  case Nil
  then show ?case by (simp add: digits_val_def)
next
  case (snoc c ds)
  then have "digits_val ds < 10 ^ length ds" "digit_val c \<le> 9"
    by (auto dest: digit_facts(7))
  then have "digits_val ds * 10 + digit_val c < 10 ^ length ds * 10" by linarith
  then show ?case by (simp add: digits_val_snoc)
qed

lemma parseFloat_digits:
  assumes w: "w \<noteq> []" "\<forall>c\<in>set w. is_digit c" and f: "\<forall>c\<in>set f. is_digit c"
  shows "parseFloat (w @ CHR ''.'' # f)
         = to_double (of_nat (digits_val w) + of_nat (digits_val f) / 10 ^ length f)"
    and "parseFloat w = to_double (of_nat (digits_val w))"
proof -
  obtain c r where cr: "w = c # r" using w(1) by (cases w) auto
  then have c: "is_digit c" using w(2) by simp
  have tw: "takeWhile is_digit (w @ CHR ''.'' # f) = w" "dropWhile is_digit (w @ CHR ''.'' # f) = CHR ''.'' # f"
    using w(2) by (simp_all add: takeWhile_append2 dropWhile_append2 not_digit_point)
  have tf: "takeWhile is_digit f = f" "dropWhile is_digit f = []"
    using f by simp_all
  have tw2: "takeWhile is_digit w = w" "dropWhile is_digit w = []"
    using w(2) by simp_all
  have d1: "dropWhile is_space (w @ CHR ''.'' # f) = w @ CHR ''.'' # f" "dropWhile is_space w = w"
    using cr digit_facts(1) [OF c] by simp_all
  have s1: "take_sign (w @ CHR ''.'' # f) = (False, w @ CHR ''.'' # f)" "take_sign w = (False, w)"
    using cr digit_facts(4,5) [OF c] by simp_all
  have p1: "\<not> prefix ''Infinity'' (w @ CHR ''.'' # f)" "\<not> prefix ''Infinity'' w"
    using cr digit_facts(6) [OF c] by simp_all
  show "parseFloat (w @ CHR ''.'' # f)
         = to_double (of_nat (digits_val w) + of_nat (digits_val f) / 10 ^ length f)"
    using w(1) by (simp add: parseFloat_def d1 s1 p1 tw tf Let_def exponent_of_def)
  show "parseFloat w = to_double (of_nat (digits_val w))"
    using w(1) by (simp add: parseFloat_def d1 s1 p1 tw2 Let_def exponent_of_def digits_val_def)
qed

lemma amount_digits_clean:
  assumes "amount_digits w"
  shows "filter (\<lambda>c. c \<noteq> CHR ''.'') w = filter is_digit w"
    and "filter is_digit w \<noteq> []"
    and "map (\<lambda>c. if c = CHR '','' then CHR ''.'' else c) (filter is_digit w) = filter is_digit w"
proof -
  have all: "\<forall>c\<in>set w. is_digit c \<or> c = CHR ''.''" and some: "\<exists>c\<in>set w. is_digit c"
    using assms by (auto simp: amount_digits_def)
  show "filter (\<lambda>c. c \<noteq> CHR ''.'') w = filter is_digit w"
    using all by (intro filter_cong) (auto dest: digit_facts(2))
  show "filter is_digit w \<noteq> []" using some by (simp add: filter_empty_conv)
  show "map (\<lambda>c. if c = CHR '','' then CHR ''.'' else c) (filter is_digit w) = filter is_digit w"
    by (induction w) (auto dest: digit_facts(3))
qed

lemma valorLimpio_amount:
  assumes w: "amount_digits w" and f: "\<forall>c\<in>set f. is_digit c"
  shows "valorLimpio (w @ CHR '','' # f) = filter is_digit w @ CHR ''.'' # f"
    and "valorLimpio w = filter is_digit w"
proof -
  have ff: "filter (\<lambda>c. c \<noteq> CHR ''.'') f = f" using f by (auto simp: filter_id_conv dest: digit_facts(2))
  have mf: "map (\<lambda>c. if c = CHR '','' then CHR ''.'' else c) f = f"
    using f by (induction f) (auto dest: digit_facts(3))
  have ns: "\<forall>c\<in>set (filter is_digit w @ CHR ''.'' # f). \<not> is_space c"
    using f by (auto dest: digit_facts(1) simp: not_digit_point)
  have ns2: "\<forall>c\<in>set (filter is_digit w). \<not> is_space c"
    by (auto dest: digit_facts(1))
  show "valorLimpio (w @ CHR '','' # f) = filter is_digit w @ CHR ''.'' # f"
    using trim_no_space [OF ns]
    by (simp add: valorLimpio_def amount_digits_clean [OF w] ff mf)
  show "valorLimpio w = filter is_digit w"
    using trim_no_space [OF ns2] by (simp add: valorLimpio_def amount_digits_clean [OF w])
qed

lemma amount_not_marker:
  assumes "\<exists>c\<in>set s. is_digit c"
  shows "s \<noteq> []" "s \<noteq> ''---''" "s \<noteq> ''N/A''"
  using assms by (auto simp: is_digit_def)

lemma normalize_monto_amount:
  assumes w: "amount_digits w" and f: "\<forall>c\<in>set f. is_digit c"
  shows "normalize_monto (JStr (w @ CHR '','' # f))
         = JNum (to_double (of_nat (digits_val (filter is_digit w))
                            + of_nat (digits_val f) / 10 ^ length f))"
    and "normalize_monto (JStr w) = JNum (to_double (of_nat (digits_val (filter is_digit w))))"
proof -
  have d: "\<exists>c\<in>set w. is_digit c" "\<exists>c\<in>set (w @ CHR '','' # f). is_digit c"
    using w by (auto simp: amount_digits_def)
  have fw: "filter is_digit w \<noteq> []" "\<forall>c\<in>set (filter is_digit w). is_digit c"
    using amount_digits_clean(2) [OF w] by auto
  show "normalize_monto (JStr (w @ CHR '','' # f))
         = JNum (to_double (of_nat (digits_val (filter is_digit w))
                            + of_nat (digits_val f) / 10 ^ length f))"
    using amount_not_marker [OF d(2)]
    by (simp add: normalize_monto_def valorLimpio_amount(1) [OF w f]
          parseFloat_digits(1) [OF fw f] to_double_not_NaN Let_def)
  show "normalize_monto (JStr w) = JNum (to_double (of_nat (digits_val (filter is_digit w))))"
    using amount_not_marker [OF d(1)]
    by (simp add: normalize_monto_def valorLimpio_amount(2) [OF w f]
          parseFloat_digits(2) [OF fw f] to_double_not_NaN Let_def)
qed

lemma parseFloat_NaN_iff: "parseFloat t = NaN \<longleftrightarrow> \<not> numeric_prefix t"
proof -
  obtain neg u where ts: "take_sign (dropWhile is_space t) = (neg, u)"
    by (cases "take_sign (dropWhile is_space t)")
  show ?thesis
  proof (cases "prefix ''Infinity'' u")
    case True
    then show ?thesis by (simp add: parseFloat_def numeric_prefix_def ts)
  next
    case inf: False
    show ?thesis
    proof (cases u)
      case Nil
      then show ?thesis by (simp add: parseFloat_def numeric_prefix_def ts)
    next
      case (Cons c r)
      show ?thesis
      proof (cases "is_digit c")
        case True
        then show ?thesis using inf Cons
          by (simp add: parseFloat_def numeric_prefix_def ts Let_def to_double_not_NaN)
      next
        case nd: False
        show ?thesis
        proof (cases "c = CHR ''.''")
          case False
          then show ?thesis using inf Cons nd
            by (simp add: parseFloat_def numeric_prefix_def ts Let_def)
        next
          case True
          then show ?thesis using inf Cons nd
            by (cases r) (simp_all add: parseFloat_def numeric_prefix_def ts Let_def to_double_not_NaN)
        qed
      qed
    qed
  qed
qed

lemma normalize_monto_null_iff:
  "normalize_monto (JStr s) = JNull
   \<longleftrightarrow> s = [] \<or> s = ''---'' \<or> s = ''N/A'' \<or> \<not> numeric_prefix (valorLimpio s)"
  by (simp add: normalize_monto_def Let_def parseFloat_NaN_iff)

lemma to_double_finite:
  assumes "0 \<le> q" "q < 10 ^ 308"
  shows "\<exists>r\<ge>0. to_double q = Fin r"
proof -
  have "(10 :: rat) ^ 308 < 2 ^ 1024 - 2 ^ 970" by simp
  with assms have "\<not> 2 ^ 1024 - 2 ^ 970 \<le> \<bar>q\<bar>" by linarith
  then show ?thesis using assms(1) by (simp add: to_double_def)
qed

lemma amount_value_bound:
  assumes w: "\<forall>c\<in>set w. is_digit c" "length w \<le> 308" and f: "\<forall>c\<in>set f. is_digit c"
  shows "(of_nat (digits_val w) + of_nat (digits_val f) / 10 ^ length f :: rat) < 10 ^ 308"
    and "(0 :: rat) \<le> of_nat (digits_val w) + of_nat (digits_val f) / 10 ^ length f"
proof -
  have a: "digits_val w < 10 ^ length w" using w(1) by (rule digits_val_bound)
  have "(10 :: nat) ^ length w \<le> 10 ^ 308" using w(2) by (intro power_increasing) simp_all
  with a have "digits_val w + 1 \<le> 10 ^ 308" by linarith
  then have "(of_nat (digits_val w + 1) :: rat) \<le> of_nat (10 ^ 308)" by (simp only: of_nat_le_iff)
  then have a': "(of_nat (digits_val w) :: rat) + 1 \<le> 10 ^ 308" by simp
  have b: "digits_val f < 10 ^ length f" using f by (rule digits_val_bound)
  then have "(of_nat (digits_val f) :: rat) < of_nat (10 ^ length f)" by (simp only: of_nat_less_iff)
  then have "(of_nat (digits_val f) :: rat) < 10 ^ length f" by simp
  then have b': "(of_nat (digits_val f) :: rat) / 10 ^ length f < 1" by simp
  from a' b' show "(of_nat (digits_val w) + of_nat (digits_val f) / 10 ^ length f :: rat) < 10 ^ 308"
    by linarith
  show "(0 :: rat) \<le> of_nat (digits_val w) + of_nat (digits_val f) / 10 ^ length f"
    by simp
qed

lemma to_double_exact:
  assumes "1 \<le> q" "q < 10 ^ 308"
  shows "to_double q = Fin q"
proof -
  have "(10 :: rat) ^ 308 < 2 ^ 1024 - 2 ^ 970" by simp
  with assms have a: "\<not> 2 ^ 1024 - 2 ^ 970 \<le> \<bar>q\<bar>" by linarith
  have "(1 :: rat) / 2 ^ 1075 < 1" by simp
  with assms have b: "\<not> \<bar>q\<bar> \<le> 1 / 2 ^ 1075" by linarith
  show ?thesis using a b by (simp only: to_double_def if_False)
qed

lemma normalize_monto_amount_finite:
  assumes w: "amount_digits w" "length (filter is_digit w) \<le> 308" and f: "\<forall>c\<in>set f. is_digit c"
  shows "\<exists>q\<ge>0. normalize_monto (JStr (w @ CHR '','' # f)) = JNum (Fin q)"
    and "\<exists>q\<ge>0. normalize_monto (JStr w) = JNum (Fin q)"
    and "0 < digits_val (filter is_digit w) \<Longrightarrow>
           normalize_monto (JStr (w @ CHR '','' # f))
           = JNum (Fin (of_nat (digits_val (filter is_digit w))
                        + of_nat (digits_val f) / 10 ^ length f))"
    and "0 < digits_val (filter is_digit w) \<Longrightarrow>
           normalize_monto (JStr w) = JNum (Fin (of_nat (digits_val (filter is_digit w))))"
proof -
  let ?w = "filter is_digit w"
  have dw: "\<forall>c\<in>set ?w. is_digit c" by simp
  have e: "\<forall>c\<in>set ([] :: string). is_digit c" by simp
  note b1 = amount_value_bound [OF dw w(2) f]
  note b2 = amount_value_bound [OF dw w(2) e]
  from to_double_finite [OF b1(2) b1(1)]
  show "\<exists>q\<ge>0. normalize_monto (JStr (w @ CHR '','' # f)) = JNum (Fin q)"
    by (simp add: normalize_monto_amount(1) [OF w(1) f])
  from to_double_finite [OF b2(2) b2(1)]
  show "\<exists>q\<ge>0. normalize_monto (JStr w) = JNum (Fin q)"
    by (simp add: normalize_monto_amount(2) [OF w(1) f] digits_val_def)
  {
    assume pos: "0 < digits_val ?w"
    then have "(1 :: rat) \<le> of_nat (digits_val ?w)" by simp
    moreover have "(0 :: rat) \<le> of_nat (digits_val f) / 10 ^ length f" by simp
    ultimately have one: "(1 :: rat) \<le> of_nat (digits_val ?w) + of_nat (digits_val f) / 10 ^ length f"
      and one': "(1 :: rat) \<le> of_nat (digits_val ?w)"
      by linarith+
    from to_double_exact [OF one b1(1)]
    show "normalize_monto (JStr (w @ CHR '','' # f))
           = JNum (Fin (of_nat (digits_val ?w) + of_nat (digits_val f) / 10 ^ length f))"
      by (simp add: normalize_monto_amount(1) [OF w(1) f])
    from b2(1) have "(of_nat (digits_val ?w) :: rat) < 10 ^ 308" by (simp add: digits_val_def)
    from to_double_exact [OF one' this]
    show "normalize_monto (JStr w) = JNum (Fin (of_nat (digits_val ?w)))"
      by (simp add: normalize_monto_amount(2) [OF w(1) f])
  }
qed

lemma normalize_monto_pipeline:
  assumes "s \<noteq> []" "s \<noteq> ''---''" "s \<noteq> ''N/A''"
  shows "normalize_monto (JStr s)
         = (case parseFloat (trim (map (\<lambda>c. if c = CHR '','' then CHR ''.'' else c)
                                       (filter (\<lambda>c. c \<noteq> CHR ''.'') s))) of
              NaN \<Rightarrow> JNull | Infinity b \<Rightarrow> JNum (Infinity b) | Fin q \<Rightarrow> JNum (Fin q))"
  using assms by (simp add: normalize_monto_def valorLimpio_def Let_def split: jsnum.splits)

lemma normalize_monto_not_text: "\<forall>s. m \<noteq> JStr s \<Longrightarrow> normalize_monto m = JNull"
  by (cases m) (simp_all add: normalize_monto_def)

section \<open>Amount normalization\<close>

text \<open>
  C6, as stated, fails on two counts. Nothing in step 2 looks at the sign: the text
  \<open>-5\<close> becomes the negative amount \<open>-5\<close>. And \<open>parseFloat\<close> reads
  \<open>Infinity\<close>, which is not \<open>NaN\<close>: the text \<open>Infinity\<close> becomes the amount
  \<open>Infinity\<close>, which is no decimal.
\<close>

theorem C6_negative_and_infinite_amounts:
  "normalize_monto (JStr ''-5'') = JNum (Fin (- 5)) \<and> (- 5 :: rat) < 0
   \<and> normalize_monto (JStr ''Infinity'') = JNum (Infinity True)"
  by (simp add: normalize_monto_def str_eval)

text \<open>
  C6, amended. Step 2 gives \<open>null\<close> for a value that is not text and for the texts
  \<open>---\<close>, \<open>N/A\<close> and the empty one; of every other text it removes every \<open>.\<close>,
  turns every \<open>,\<close> into \<open>.\<close>, trims, and hands the result to \<open>parseFloat\<close>,
  whose \<open>NaN\<close> becomes \<open>null\<close>. So an amount printed as groups of digits with
  points between them, with or without a comma and decimals, becomes the Number value of
  that decimal: \<open>1.234.567,89\<close> gives 1234567.89; with at most 308 digits before the
  comma it is a finite number that is not negative, and the decimal itself when its whole
  part is not zero. The result is \<open>null\<close> exactly for the three texts above and for
  the texts whose cleaned form does not start, after an optional sign, with a digit, a
  point and a digit, or \<open>Infinity\<close>; \<open>abc\<close> is one. For every input the step
  returns, and the amount is \<open>null\<close> or a number that is not \<open>NaN\<close>; when the text
  has no minus sign that number is not negative.
\<close>

theorem C6_amount_normalization:
  "normalize_monto (JStr ''1.234.567,89'') = JNum (Fin (123456789 / 100))
   \<and> normalize_monto (JStr ''---'') = JNull
   \<and> normalize_monto (JStr ''N/A'') = JNull
   \<and> normalize_monto (JStr []) = JNull
   \<and> normalize_monto JNull = JNull
   \<and> normalize_monto (JStr ''abc'') = JNull
   \<and> (\<forall>m. (\<forall>s. m \<noteq> JStr s) \<longrightarrow> normalize_monto m = JNull)
   \<and> (\<forall>s. s \<noteq> [] \<and> s \<noteq> ''---'' \<and> s \<noteq> ''N/A'' \<longrightarrow>
          normalize_monto (JStr s)
          = (case parseFloat (trim (map (\<lambda>c. if c = CHR '','' then CHR ''.'' else c)
                                        (filter (\<lambda>c. c \<noteq> CHR ''.'') s))) of
               NaN \<Rightarrow> JNull | Infinity b \<Rightarrow> JNum (Infinity b) | Fin q \<Rightarrow> JNum (Fin q)))
   \<and> (\<forall>w f. amount_digits w \<and> (\<forall>c\<in>set f. is_digit c) \<longrightarrow>
          normalize_monto (JStr (w @ CHR '','' # f))
          = JNum (to_double (of_nat (digits_val (filter is_digit w))
                             + of_nat (digits_val f) / 10 ^ length f))
          \<and> normalize_monto (JStr w)
            = JNum (to_double (of_nat (digits_val (filter is_digit w)))))
   \<and> (\<forall>w f. amount_digits w \<and> length (filter is_digit w) \<le> 308 \<and> (\<forall>c\<in>set f. is_digit c) \<longrightarrow>
          (\<exists>q\<ge>0. normalize_monto (JStr (w @ CHR '','' # f)) = JNum (Fin q))
          \<and> (\<exists>q\<ge>0. normalize_monto (JStr w) = JNum (Fin q))
          \<and> (0 < digits_val (filter is_digit w) \<longrightarrow>
               normalize_monto (JStr (w @ CHR '','' # f))
               = JNum (Fin (of_nat (digits_val (filter is_digit w))
                            + of_nat (digits_val f) / 10 ^ length f))
               \<and> normalize_monto (JStr w)
                 = JNum (Fin (of_nat (digits_val (filter is_digit w))))))
   \<and> (\<forall>s. normalize_monto (JStr s) = JNull
          \<longleftrightarrow> s = [] \<or> s = ''---'' \<or> s = ''N/A'' \<or> \<not> numeric_prefix (valorLimpio s))
   \<and> (\<forall>m. normalize_monto m = JNull \<or> (\<exists>n. normalize_monto m = JNum n \<and> n \<noteq> NaN))
   \<and> (\<forall>s. CHR ''-'' \<notin> set s \<longrightarrow>
          normalize_monto (JStr s) = JNull \<or> normalize_monto (JStr s) = JNum (Infinity True)
          \<or> (\<exists>q\<ge>0. normalize_monto (JStr s) = JNum (Fin q)))"
proof -
  have a: "normalize_monto (JStr ''1.234.567,89'') = JNum (Fin (123456789 / 100))"
    by (simp add: normalize_monto_def str_eval)
  have b: "normalize_monto (JStr ''---'') = JNull" "normalize_monto (JStr ''N/A'') = JNull"
    "normalize_monto (JStr []) = JNull" "normalize_monto JNull = JNull"
    by (simp_all add: normalize_monto_def)
  have c: "normalize_monto (JStr ''abc'') = JNull"
    by (simp add: normalize_monto_def str_eval)
  have d: "\<forall>m. (\<forall>s. m \<noteq> JStr s) \<longrightarrow> normalize_monto m = JNull"
    using normalize_monto_not_text by blast
  have e: "\<forall>s. s \<noteq> [] \<and> s \<noteq> ''---'' \<and> s \<noteq> ''N/A'' \<longrightarrow>
          normalize_monto (JStr s)
          = (case parseFloat (trim (map (\<lambda>c. if c = CHR '','' then CHR ''.'' else c)
                                        (filter (\<lambda>c. c \<noteq> CHR ''.'') s))) of
               NaN \<Rightarrow> JNull | Infinity b \<Rightarrow> JNum (Infinity b) | Fin q \<Rightarrow> JNum (Fin q))"
    using normalize_monto_pipeline by blast
  have f: "\<forall>w f. amount_digits w \<and> (\<forall>c\<in>set f. is_digit c) \<longrightarrow>
          normalize_monto (JStr (w @ CHR '','' # f))
          = JNum (to_double (of_nat (digits_val (filter is_digit w))
                             + of_nat (digits_val f) / 10 ^ length f))
          \<and> normalize_monto (JStr w)
            = JNum (to_double (of_nat (digits_val (filter is_digit w))))"
    using normalize_monto_amount by blast
  have g: "\<forall>w f. amount_digits w \<and> length (filter is_digit w) \<le> 308 \<and> (\<forall>c\<in>set f. is_digit c) \<longrightarrow>
          (\<exists>q\<ge>0. normalize_monto (JStr (w @ CHR '','' # f)) = JNum (Fin q))
          \<and> (\<exists>q\<ge>0. normalize_monto (JStr w) = JNum (Fin q))
          \<and> (0 < digits_val (filter is_digit w) \<longrightarrow>
               normalize_monto (JStr (w @ CHR '','' # f))
               = JNum (Fin (of_nat (digits_val (filter is_digit w))
                            + of_nat (digits_val f) / 10 ^ length f))
               \<and> normalize_monto (JStr w)
                 = JNum (Fin (of_nat (digits_val (filter is_digit w)))))"
    using normalize_monto_amount_finite by blast
  have h: "\<forall>s. normalize_monto (JStr s) = JNull
          \<longleftrightarrow> s = [] \<or> s = ''---'' \<or> s = ''N/A'' \<or> \<not> numeric_prefix (valorLimpio s)"
    using normalize_monto_null_iff by blast
  have i: "\<forall>m. normalize_monto m = JNull \<or> (\<exists>n. normalize_monto m = JNum n \<and> n \<noteq> NaN)"
    using normalize_monto_never_NaN by blast
  have j: "\<forall>s. CHR ''-'' \<notin> set s \<longrightarrow>
          normalize_monto (JStr s) = JNull \<or> normalize_monto (JStr s) = JNum (Infinity True)
          \<or> (\<exists>q\<ge>0. normalize_monto (JStr s) = JNum (Fin q))"
    using normalize_monto_unsigned by blast
  show ?thesis
    by (intro conjI a b c d e f g h i j)
qed

theorem C6_amount_normalization_witness:
  "amount_digits ''100'' \<and> is_digit (CHR ''5'') \<and> is_digit (CHR ''0'')
   \<and> length (filter is_digit ''100'') \<le> 308
   \<and> 0 < digits_val (filter is_digit ''100'')
   \<and> CHR ''-'' \<notin> set ''100,50''
   \<and> normalize_monto (JStr ''100,50'') = JNum (Fin (201 / 2))
   \<and> normalize_monto (JStr ''100'') = JNum (Fin 100)
   \<and> \<not> numeric_prefix (valorLimpio ''S/ 100'')
   \<and> normalize_monto (JStr ''S/ 100'') = JNull"
proof -
  have w: "amount_digits ''100''" by (simp add: amount_digits_def is_digit_def)
  have f: "\<forall>c\<in>set ''50''. is_digit c" by (simp add: is_digit_def)
  have l: "length (filter is_digit ''100'') \<le> 308" by (simp add: is_digit_def)
  have p: "0 < digits_val (filter is_digit ''100'')" by (simp add: is_digit_def digits_val_def digit_val_def)
  have n: "\<not> numeric_prefix (valorLimpio ''S/ 100'')"
    by (simp add: numeric_prefix_def str_eval)
  have m: "CHR ''-'' \<notin> set ''100,50''" by simp
  from C6_amount_normalization
  have g: "\<forall>w f. amount_digits w \<and> length (filter is_digit w) \<le> 308 \<and> (\<forall>c\<in>set f. is_digit c) \<longrightarrow>
          (\<exists>q\<ge>0. normalize_monto (JStr (w @ CHR '','' # f)) = JNum (Fin q))
          \<and> (\<exists>q\<ge>0. normalize_monto (JStr w) = JNum (Fin q))
          \<and> (0 < digits_val (filter is_digit w) \<longrightarrow>
               normalize_monto (JStr (w @ CHR '','' # f))
               = JNum (Fin (of_nat (digits_val (filter is_digit w))
                            + of_nat (digits_val f) / 10 ^ length f))
               \<and> normalize_monto (JStr w)
                 = JNum (Fin (of_nat (digits_val (filter is_digit w)))))"
    and h: "\<forall>s. normalize_monto (JStr s) = JNull
          \<longleftrightarrow> s = [] \<or> s = ''---'' \<or> s = ''N/A'' \<or> \<not> numeric_prefix (valorLimpio s)"
    by blast+
  from g w l f p
  have v: "normalize_monto (JStr (''100'' @ CHR '','' # ''50''))
             = JNum (Fin (of_nat (digits_val (filter is_digit ''100''))
                          + of_nat (digits_val ''50'') / 10 ^ length ''50''))"
    "normalize_monto (JStr ''100'') = JNum (Fin (of_nat (digits_val (filter is_digit ''100''))))"
    by blast+
  have v1: "normalize_monto (JStr ''100,50'') = JNum (Fin (201 / 2))"
    using v(1) by (simp add: is_digit_def digits_val_def digit_val_def)
  have v2: "normalize_monto (JStr ''100'') = JNum (Fin 100)"
    using v(2) by (simp add: is_digit_def digits_val_def digit_val_def)
  from h n have v3: "normalize_monto (JStr ''S/ 100'') = JNull" by blast
  show ?thesis using w f l p n m v1 v2 v3 by simp
qed

section \<open>Trimmed text and the row check\<close>

lemma trim_split: "dropWhile is_space s = trim s @ rev (takeWhile is_space (rev (dropWhile is_space s)))"
proof -
  let ?X = "dropWhile is_space s"
  have "rev (dropWhile is_space (rev ?X)) @ rev (takeWhile is_space (rev ?X))
        = rev (takeWhile is_space (rev ?X) @ dropWhile is_space (rev ?X))"
    by (simp only: rev_append)
  also have "\<dots> = rev (rev ?X)" by (simp only: takeWhile_dropWhile_id)
  also have "\<dots> = ?X" by (simp only: rev_rev_ident)
  finally show ?thesis unfolding trim_def by (rule sym)
qed

lemma trim_hd_not_space: "trim s \<noteq> [] \<Longrightarrow> \<not> is_space (hd (trim s))"
proof -
  assume ne: "trim s \<noteq> []"
  let ?X = "dropWhile is_space s"
  let ?T = "rev (takeWhile is_space (rev ?X))"
  have X: "?X = trim s @ ?T" by (rule trim_split)
  obtain a as where t: "trim s = a # as" using ne by (cases "trim s") auto
  with X have X': "?X = a # (as @ ?T)" by simp
  have "?X \<noteq> []"
  proof (cases ?X)
    case Nil
    with X' show ?thesis by simp
  next
    case (Cons b bs)
    then show ?thesis by simp
  qed
  then have "\<not> is_space (hd ?X)" by (rule hd_dropWhile)
  moreover from X' have "hd ?X = a" by (metis list.sel(1))
  ultimately have "\<not> is_space a" by simp
  with t show ?thesis by simp
qed

lemma dropWhile_trim: "dropWhile is_space (trim s) = trim s"
proof (cases "trim s")
  case Nil
  then show ?thesis by simp
next
  case (Cons a as)
  with trim_hd_not_space [of s] have "\<not> is_space a" by simp
  with Cons show ?thesis by simp
qed

lemma trim_idem: "trim (trim s) = trim s"
proof -
  have "trim (trim s) = rev (dropWhile is_space (rev (trim s)))"
    by (simp add: trim_def [of "trim s"] dropWhile_trim)
  also have "rev (trim s) = dropWhile is_space (rev (dropWhile is_space s))"
    by (simp add: trim_def)
  also have "rev (dropWhile is_space (dropWhile is_space (rev (dropWhile is_space s)))) = trim s"
    by (simp add: trim_def dropWhile_idem)
  finally show ?thesis .
qed

lemma trim_not_blank: "trim s \<noteq> '' ''"
proof
  assume "trim s = '' ''"
  then have "trim s \<noteq> []" "hd (trim s) = CHR '' ''" by simp_all
  with trim_hd_not_space [of s] show False by (simp add: is_space_def)
qed

lemma getCleanText_Some:
  "getCleanText (Some c) = (if trim (textContent c) = [] then JNull else JStr (trim (textContent c)))"
  by (simp add: getCleanText_def Let_def orJ_def trim_not_blank)

lemma getCleanText_None: "getCleanText None = JNull"
  by (simp add: getCleanText_def)

lemma parseInt_Nil: "parseInt [] = None"
  by (simp add: parseInt_def)

lemma isNumber_clean:
  "isNumber (getCleanText (Some c)) = (parseInt (trim (textContent c)) \<noteq> None)"
  by (simp add: getCleanText_Some isNumber_def parseInt_Nil)

lemma isNotHeader_clean:
  "isNotHeader (getCleanText (Some c)) =
     (trim (textContent c) \<noteq> []
      \<and> toLowerCase (trim (textContent c)) \<noteq> ''nombre o sigla de la entidad''
      \<and> toLowerCase (trim (textContent c)) \<noteq> ''entidad'')"
  by (simp add: getCleanText_Some isNotHeader_def)

lemma hasDescriptionLength_clean:
  "hasDescriptionLength (getCleanText (Some c)) = (10 \<le> length (trim (textContent c)))"
  by (auto simp: getCleanText_Some hasDescriptionLength_def)

lemma process_row_None_iff: "(process_row env i cells = None) = (\<not> row_accepted cells)"
  by (auto simp: process_row_def row_accepted_def Let_def nth_opt_def
        isNumber_clean isNotHeader_clean hasDescriptionLength_clean)

section \<open>The normalizer and the row script, field by field\<close>

lemma map_fields_sel:
  "id_proceso (map_fields g p) = g (id_proceso p)"
  "nombre_entidad (map_fields g p) = g (nombre_entidad p)"
  "entidad_nombre (map_fields g p) = g (entidad_nombre p)"
  "fecha_publicacion (map_fields g p) = g (fecha_publicacion p)"
  "nomenclatura (map_fields g p) = g (nomenclatura p)"
  "reiniciado_desde (map_fields g p) = g (reiniciado_desde p)"
  "objeto_contratacion (map_fields g p) = g (objeto_contratacion p)"
  "descripcion_objeto (map_fields g p) = g (descripcion_objeto p)"
  "codigo_snip (map_fields g p) = g (codigo_snip p)"
  "estado_proceso (map_fields g p) = g (estado_proceso p)"
  "tipo_proceso (map_fields g p) = g (tipo_proceso p)"
  "url_proceso (map_fields g p) = g (url_proceso p)"
  "source_url (map_fields g p) = g (source_url p)"
  "pagina_scraping (map_fields g p) = g (pagina_scraping p)"
  "numero_convocatoria (map_fields g p) = g (numero_convocatoria p)"
  "entidad_ruc (map_fields g p) = g (entidad_ruc p)"
  "codigo_cui (map_fields g p) = g (codigo_cui p)"
  "departamento (map_fields g p) = g (departamento p)"
  "provincia (map_fields g p) = g (provincia p)"
  "distrito (map_fields g p) = g (distrito p)"
  "monto_referencial (map_fields g p) = g (monto_referencial p)"
  "moneda (map_fields g p) = g (moneda p)"
  "rubro (map_fields g p) = g (rubro p)"
  "version_seace (map_fields g p) = g (version_seace p)"
  "fecha_scraping (map_fields g p) = g (fecha_scraping p)"
  "requiere_visita_previa (map_fields g p) = g (requiere_visita_previa p)"
  "datos_ocds (map_fields g p) = g (datos_ocds p)"
  "fecha_limite_presentacion (map_fields g p) = g (fecha_limite_presentacion p)"
  by (simp_all add: map_fields_def)

lemma normalize_sel:
  assumes "normalizeProcesoData rnd p = Inr q"
  shows "id_proceso q = (if truthy (blank_to_null (id_proceso p)) then blank_to_null (id_proceso p)
        else JStr (''PROC-'' @ rnd))"
    and "nombre_entidad q = (if truthy (blank_to_null (nombre_entidad p)) then blank_to_null (nombre_entidad p)
        else JStr ''Entidad Desconocida'')"
    and "entidad_nombre q = blank_to_null (entidad_nombre p)"
    and "fecha_publicacion q = blank_to_null (normalize_fecha (fecha_publicacion p))"
    and "nomenclatura q = blank_to_null (nomenclatura p)"
    and "reiniciado_desde q = blank_to_null (reiniciado_desde p)"
    and "objeto_contratacion q = blank_to_null (objeto_contratacion p)"
    and "descripcion_objeto q = blank_to_null (descripcion_objeto p)"
    and "codigo_snip q = blank_to_null (codigo_snip p)"
    and "estado_proceso q = blank_to_null (estado_proceso p)"
    and "tipo_proceso q = blank_to_null (tipo_proceso p)"
    and "url_proceso q = blank_to_null (url_proceso p)"
    and "source_url q = blank_to_null (source_url p)"
    and "pagina_scraping q = blank_to_null (pagina_scraping p)"
    and "numero_convocatoria q = blank_to_null (numero_convocatoria p)"
    and "entidad_ruc q = blank_to_null (entidad_ruc p)"
    and "codigo_cui q = blank_to_null (codigo_cui p)"
    and "departamento q = blank_to_null (departamento p)"
    and "provincia q = blank_to_null (provincia p)"
    and "distrito q = blank_to_null (distrito p)"
    and "monto_referencial q = blank_to_null (normalize_monto (monto_referencial p))"
    and "moneda q = blank_to_null (if missing_or_blank (moneda p) = Inr True then JStr ''Soles'' else moneda p)"
    and "rubro q = blank_to_null (rubro p)"
    and "version_seace q = blank_to_null (if missing_or_blank (version_seace p) = Inr True then JStr ''3''
        else version_seace p)"
    and "fecha_scraping q = blank_to_null (fecha_scraping p)"
    and "requiere_visita_previa q = blank_to_null (requiere_visita_previa p)"
    and "datos_ocds q = blank_to_null (datos_ocds p)"
    and "fecha_limite_presentacion q = blank_to_null (fecha_limite_presentacion p)"
proof -
  obtain b3 where m: "missing_or_blank (moneda p) = Inr b3"
    using assms
    by (cases "missing_or_blank (moneda p)") (simp_all add: normalizeProcesoData_def Let_def)
  obtain b4 where v: "missing_or_blank (version_seace p) = Inr b4"
    using assms m
    by (cases "missing_or_blank (version_seace p)"; cases b3)
       (simp_all add: normalizeProcesoData_def Let_def)
  have q: "q = projr (normalizeProcesoData rnd p)" using assms by simp
  note unf = q normalizeProcesoData_def Let_def m v map_fields_sel
  show "id_proceso q = (if truthy (blank_to_null (id_proceso p)) then blank_to_null (id_proceso p)
        else JStr (''PROC-'' @ rnd))"
    by (cases b3; cases b4) (simp_all add: unf)
  show "nombre_entidad q = (if truthy (blank_to_null (nombre_entidad p)) then blank_to_null (nombre_entidad p)
        else JStr ''Entidad Desconocida'')"
    by (cases b3; cases b4) (simp_all add: unf)
  show "entidad_nombre q = blank_to_null (entidad_nombre p)"
    by (cases b3; cases b4) (simp_all add: unf)
  show "fecha_publicacion q = blank_to_null (normalize_fecha (fecha_publicacion p))"
    by (cases b3; cases b4) (simp_all add: unf)
  show "nomenclatura q = blank_to_null (nomenclatura p)"
    by (cases b3; cases b4) (simp_all add: unf)
  show "reiniciado_desde q = blank_to_null (reiniciado_desde p)"
    by (cases b3; cases b4) (simp_all add: unf)
  show "objeto_contratacion q = blank_to_null (objeto_contratacion p)"
    by (cases b3; cases b4) (simp_all add: unf)
  show "descripcion_objeto q = blank_to_null (descripcion_objeto p)"
    by (cases b3; cases b4) (simp_all add: unf)
  show "codigo_snip q = blank_to_null (codigo_snip p)"
    by (cases b3; cases b4) (simp_all add: unf)
  show "estado_proceso q = blank_to_null (estado_proceso p)"
    by (cases b3; cases b4) (simp_all add: unf)
  show "tipo_proceso q = blank_to_null (tipo_proceso p)"
    by (cases b3; cases b4) (simp_all add: unf)
  show "url_proceso q = blank_to_null (url_proceso p)"
    by (cases b3; cases b4) (simp_all add: unf)
  show "source_url q = blank_to_null (source_url p)"
    by (cases b3; cases b4) (simp_all add: unf)
  show "pagina_scraping q = blank_to_null (pagina_scraping p)"
    by (cases b3; cases b4) (simp_all add: unf)
  show "numero_convocatoria q = blank_to_null (numero_convocatoria p)"
    by (cases b3; cases b4) (simp_all add: unf)
  show "entidad_ruc q = blank_to_null (entidad_ruc p)"
    by (cases b3; cases b4) (simp_all add: unf)
  show "codigo_cui q = blank_to_null (codigo_cui p)"
    by (cases b3; cases b4) (simp_all add: unf)
  show "departamento q = blank_to_null (departamento p)"
    by (cases b3; cases b4) (simp_all add: unf)
  show "provincia q = blank_to_null (provincia p)"
    by (cases b3; cases b4) (simp_all add: unf)
  show "distrito q = blank_to_null (distrito p)"
    by (cases b3; cases b4) (simp_all add: unf)
  show "monto_referencial q = blank_to_null (normalize_monto (monto_referencial p))"
    by (cases b3; cases b4) (simp_all add: unf)
  show "moneda q = blank_to_null (if missing_or_blank (moneda p) = Inr True then JStr ''Soles'' else moneda p)"
    by (cases b3; cases b4) (simp_all add: unf)
  show "rubro q = blank_to_null (rubro p)"
    by (cases b3; cases b4) (simp_all add: unf)
  show "version_seace q = blank_to_null (if missing_or_blank (version_seace p) = Inr True then JStr ''3''
        else version_seace p)"
    by (cases b3; cases b4) (simp_all add: unf)
  show "fecha_scraping q = blank_to_null (fecha_scraping p)"
    by (cases b3; cases b4) (simp_all add: unf)
  show "requiere_visita_previa q = blank_to_null (requiere_visita_previa p)"
    by (cases b3; cases b4) (simp_all add: unf)
  show "datos_ocds q = blank_to_null (datos_ocds p)"
    by (cases b3; cases b4) (simp_all add: unf)
  show "fecha_limite_presentacion q = blank_to_null (fecha_limite_presentacion p)"
    by (cases b3; cases b4) (simp_all add: unf)
qed

lemma normalize_defined:
  assumes "missing_or_blank (moneda p) = Inr a" "missing_or_blank (version_seace p) = Inr b"
  shows "\<exists>q. normalizeProcesoData rnd p = Inr q"
  using assms by (cases a) (simp_all add: normalizeProcesoData_def Let_def)

lemma process_row_accepted: "process_row env i cells = Some p \<Longrightarrow> row_accepted cells"
  using process_row_None_iff [of env i cells] by auto

lemma process_row_sel:
  assumes "process_row env i cells = Some p"
  shows "id_proceso p = orJ (getCleanText (nth_opt cells 3)) (JStr (''PROC-'' @ proc_suffix env i))"
    and "nombre_entidad p = getCleanText (nth_opt cells 1)"
    and "entidad_nombre p = getCleanText (nth_opt cells 1)"
    and "fecha_publicacion p = getCleanText (nth_opt cells 2)"
    and "nomenclatura p = getCleanText (nth_opt cells 3)"
    and "reiniciado_desde p = getCleanText (nth_opt cells 4)"
    and "objeto_contratacion p = getCleanText (nth_opt cells 5)"
    and "descripcion_objeto p = getCleanText (nth_opt cells 6)"
    and "codigo_snip p = orJ (getCleanText (nth_opt cells 7)) JNull"
    and "estado_proceso p = JStr ''Publicado''"
    and "tipo_proceso p = JNull"
    and "url_proceso p = JNull"
    and "source_url p = JStr (href env)"
    and "pagina_scraping p = JStr (href env)"
    and "numero_convocatoria p = getCleanText (nth_opt cells 3)"
    and "entidad_ruc p = JNull"
    and "codigo_cui p = JNull"
    and "departamento p = JNull"
    and "provincia p = JNull"
    and "distrito p = JNull"
    and "monto_referencial p = (if truthy (getCleanText (nth_opt cells 8)) \<and> getCleanText (nth_opt cells 8) \<noteq> JStr ''---''
        then getCleanText (nth_opt cells 8) else JNull)"
    and "moneda p = orJ (getCleanText (nth_opt cells 9)) (JStr ''Soles'')"
    and "rubro p = getCleanText (nth_opt cells 5)"
    and "version_seace p = orJ (getCleanText (nth_opt cells 10)) (JStr ''3'')"
    and "fecha_scraping p = JStr (now_iso env)"
    and "requiere_visita_previa p = JBool False"
    and "datos_ocds p = JNull"
    and "fecha_limite_presentacion p = JNull"
proof -
  have c1: "\<not> length cells < 7"
    using process_row_accepted [OF assms] by (simp add: row_accepted_def split: if_splits)
  have c2: "\<not> (\<not> isNumber (getCleanText (nth_opt cells 0))
              \<or> \<not> isNotHeader (getCleanText (nth_opt cells 1))
              \<or> \<not> hasDescriptionLength (getCleanText (nth_opt cells 6)))"
  proof
    assume "\<not> isNumber (getCleanText (nth_opt cells 0))
              \<or> \<not> isNotHeader (getCleanText (nth_opt cells 1))
              \<or> \<not> hasDescriptionLength (getCleanText (nth_opt cells 6))"
    then have "process_row env i cells = None"
      unfolding process_row_def Let_def by (simp only: if_True if_False c1)
    with assms show False by simp
  qed
  have p: "p = the (process_row env i cells)" using assms by simp
  note unf = p process_row_def Let_def if_not_P [OF c1] if_not_P [OF c2]
  show "id_proceso p = orJ (getCleanText (nth_opt cells 3)) (JStr (''PROC-'' @ proc_suffix env i))"
    unfolding unf by simp
  show "nombre_entidad p = getCleanText (nth_opt cells 1)"
    unfolding unf by simp
  show "entidad_nombre p = getCleanText (nth_opt cells 1)"
    unfolding unf by simp
  show "fecha_publicacion p = getCleanText (nth_opt cells 2)"
    unfolding unf by simp
  show "nomenclatura p = getCleanText (nth_opt cells 3)"
    unfolding unf by simp
  show "reiniciado_desde p = getCleanText (nth_opt cells 4)"
    unfolding unf by simp
  show "objeto_contratacion p = getCleanText (nth_opt cells 5)"
    unfolding unf by simp
  show "descripcion_objeto p = getCleanText (nth_opt cells 6)"
    unfolding unf by simp
  show "codigo_snip p = orJ (getCleanText (nth_opt cells 7)) JNull"
    unfolding unf by simp
  show "estado_proceso p = JStr ''Publicado''"
    unfolding unf by simp
  show "tipo_proceso p = JNull"
    unfolding unf by simp
  show "url_proceso p = JNull"
    unfolding unf by simp
  show "source_url p = JStr (href env)"
    unfolding unf by simp
  show "pagina_scraping p = JStr (href env)"
    unfolding unf by simp
  show "numero_convocatoria p = getCleanText (nth_opt cells 3)"
    unfolding unf by simp
  show "entidad_ruc p = JNull"
    unfolding unf by simp
  show "codigo_cui p = JNull"
    unfolding unf by simp
  show "departamento p = JNull"
    unfolding unf by simp
  show "provincia p = JNull"
    unfolding unf by simp
  show "distrito p = JNull"
    unfolding unf by simp
  show "monto_referencial p = (if truthy (getCleanText (nth_opt cells 8)) \<and> getCleanText (nth_opt cells 8) \<noteq> JStr ''---''
        then getCleanText (nth_opt cells 8) else JNull)"
    unfolding unf by simp
  show "moneda p = orJ (getCleanText (nth_opt cells 9)) (JStr ''Soles'')"
    unfolding unf by simp
  show "rubro p = getCleanText (nth_opt cells 5)"
    unfolding unf by simp
  show "version_seace p = orJ (getCleanText (nth_opt cells 10)) (JStr ''3'')"
    unfolding unf by simp
  show "fecha_scraping p = JStr (now_iso env)"
    unfolding unf by simp
  show "requiere_visita_previa p = JBool False"
    unfolding unf by simp
  show "datos_ocds p = JNull"
    unfolding unf by simp
  show "fecha_limite_presentacion p = JNull"
    unfolding unf by simp
qed

section \<open>Row validation\<close>

lemma getCleanText_cases:
  "getCleanText c = JNull \<or> (\<exists>t. getCleanText c = JStr t \<and> t \<noteq> [] \<and> trim t = t)"
  by (cases c) (simp_all add: getCleanText_None getCleanText_Some trim_idem)

lemma blank_to_null_clean: "blank_to_null (getCleanText c) = getCleanText c"
  using getCleanText_cases [of c] by (auto simp: blank_to_null_def)

lemma missing_or_blank_text: "\<exists>b. missing_or_blank (orJ (getCleanText c) (JStr d)) = Inr b"
  using getCleanText_cases [of c] by (auto simp: missing_or_blank_def orJ_def)

lemma process_row_normalizes:
  assumes "process_row env i cells = Some p"
  shows "\<exists>q. normalizeProcesoData rnd p = Inr q"
proof -
  obtain a where a: "missing_or_blank (moneda p) = Inr a"
    using missing_or_blank_text by (auto simp: process_row_sel [OF assms])
  obtain b where b: "missing_or_blank (version_seace p) = Inr b"
    using missing_or_blank_text by (auto simp: process_row_sel [OF assms])
  from a b show ?thesis by (rule normalize_defined)
qed

lemma process_row_descripcion:
  assumes "process_row env i cells = Some p"
  shows "descripcion_objeto p = JStr (trim (textContent (cells ! 6)))"
proof -
  have "row_accepted cells" using assms by (rule process_row_accepted)
  then have "7 \<le> length cells" "10 \<le> length (trim (textContent (cells ! 6)))"
    by (simp_all add: row_accepted_def split: if_splits)
  then show ?thesis
    by (auto simp: process_row_sel [OF assms] nth_opt_def getCleanText_Some)
qed

lemma normalized_descripcion:
  assumes "process_row env i cells = Some p" "normalizeProcesoData rnd p = Inr q"
  shows "descripcion_objeto q = JStr (trim (textContent (cells ! 6)))"
proof -
  have "descripcion_objeto q = blank_to_null (descripcion_objeto p)"
    by (rule normalize_sel [OF assms(2)])
  also have "descripcion_objeto p = getCleanText (nth_opt cells 6)"
    by (rule process_row_sel [OF assms(1)])
  finally show ?thesis
    using process_row_descripcion [OF assms(1)]
    by (simp add: blank_to_null_clean process_row_sel [OF assms(1)])
qed

text \<open>The script keeps the accepted rows, in order, and the normalizer loses none.\<close>

lemma scan_and_normalize:
  "\<exists>qs. normalize_all rnd (scan_rows env i rows) = Inr qs
        \<and> map descripcion_objeto qs
            = map (\<lambda>cells. JStr (trim (textContent (cells ! 6)))) (filter row_accepted rows)"
proof (induction rows arbitrary: i)
  case Nil
  show ?case by simp
next
  case (Cons r rows)
  from Cons [of "Suc i"] obtain qs where qs: "normalize_all rnd (scan_rows env (Suc i) rows) = Inr qs"
    "map descripcion_objeto qs
       = map (\<lambda>cells. JStr (trim (textContent (cells ! 6)))) (filter row_accepted rows)"
    by blast
  show ?case
  proof (cases "process_row env i r")
    case None
    then have "\<not> row_accepted r" using process_row_None_iff [of env i r] by simp
    with None qs show ?thesis by simp
  next
    case (Some p)
    then have acc: "row_accepted r" by (rule process_row_accepted)
    from process_row_normalizes [OF Some] obtain q where q: "normalizeProcesoData rnd p = Inr q"
      by blast
    have "descripcion_objeto q = JStr (trim (textContent (r ! 6)))"
      using Some q by (rule normalized_descripcion)
    with Some q qs acc show ?thesis by simp
  qed
qed

lemma extractTableData_rows:
  "map descripcion_objeto (extractTableData env (Some d))
     = map (\<lambda>cells. JStr (trim (textContent (cells ! 6)))) (filter row_accepted (select_rows d))"
  using scan_and_normalize [of "norm_suffix env" env 0 "select_rows d"]
  by (auto simp: extractTableData_def)

lemma extractTableData_length:
  "length (extractTableData env (Some d)) = length (filter row_accepted (select_rows d))"
  using arg_cong [OF extractTableData_rows [of env d], of length] by simp

lemma parseInt_zero: "parseInt ''0'' = Some 0"
  by (simp add: parseInt_def str_eval)

lemma sample_row_accepted:
  "row_accepted (sample_row ''0'' ''AS-SM-1-2025'' ''09/10/2025 14:30'' ''100,50'')"
  by (simp add: row_accepted_def sample_row_def mk_cell_def parseInt_def str_eval
        toLowerCase_def lower_char_def)

text \<open>
  C7, as stated, fails: \<open>isNumber\<close> only asks that \<open>parseInt\<close> reads a number.
  A row whose first cell is \<open>0\<close> is kept although 0 is not a positive ordinal.
\<close>

theorem C7_ordinal_zero_kept:
  "length (extractTableData sample_env
             (Some (one_page [sample_row ''0'' ''AS-SM-1-2025'' ''09/10/2025 14:30'' ''100,50''])))
     = 1
   \<and> parseInt ''0'' = Some 0 \<and> \<not> (0 :: int) < 0"
  by (simp add: extractTableData_length select_rows_def one_page_def sample_row_accepted
        parseInt_zero)

text \<open>
  C7, amended. The page script keeps a row exactly when it has at least seven cells, its
  trimmed first cell is read by \<open>parseInt\<close> as a number (zero, a negative number or
  a numeric prefix pass too), its trimmed entity cell is non-empty and is not a header
  label, and its trimmed description has at least ten characters. The extracted list
  has one record for each such row, in order, and no row raises: the function returns
  for every page, and a failed page script gives the empty list.
\<close>

theorem C7_row_validation:
  "(process_row env i cells \<noteq> None) = row_accepted cells
   \<and> length (extractTableData env (Some d)) = length (filter row_accepted (select_rows d))
   \<and> map descripcion_objeto (extractTableData env (Some d))
       = map (\<lambda>cells. JStr (trim (textContent (cells ! 6)))) (filter row_accepted (select_rows d))
   \<and> extractTableData env None = []"
  using process_row_None_iff [of env i cells] extractTableData_length [of env d]
    extractTableData_rows [of env d]
  by (simp add: extractTableData_def)

section \<open>Extraction of the sample rows\<close>

lemma scan_normalize_index_free:
  assumes "\<And>j cells. cells \<in> set rows \<Longrightarrow> process_row env j cells = process_row env 0 cells"
  shows "normalize_all rnd (scan_rows env i rows)
     = Inr (map (\<lambda>cells. projr (normalizeProcesoData rnd (the (process_row env 0 cells))))
              (filter row_accepted rows))"
  using assms
proof (induction rows arbitrary: i)
  case Nil
  show ?case by simp
next
  case (Cons r rows)
  have IH: "normalize_all rnd (scan_rows env (Suc i) rows)
     = Inr (map (\<lambda>cells. projr (normalizeProcesoData rnd (the (process_row env 0 cells))))
              (filter row_accepted rows))"
    by (rule Cons.IH, rule Cons.prems) simp
  have r0: "process_row env i r = process_row env 0 r" by (rule Cons.prems) simp
  show ?case
  proof (cases "process_row env i r")
    case None
    then have "\<not> row_accepted r" using process_row_None_iff [of env i r] by simp
    with None IH show ?thesis by simp
  next
    case (Some p)
    then have acc: "row_accepted r" by (rule process_row_accepted)
    from process_row_normalizes [OF Some] obtain q where q: "normalizeProcesoData rnd p = Inr q"
      by blast
    from Some r0 have "the (process_row env 0 r) = p" by simp
    with Some acc q IH show ?thesis by simp
  qed
qed

lemma extractTableData_index_free:
  assumes "\<And>j cells. cells \<in> set (select_rows d) \<Longrightarrow> process_row env j cells = process_row env 0 cells"
  shows "extractTableData env (Some d)
     = map (\<lambda>cells. projr (normalizeProcesoData (norm_suffix env) (the (process_row env 0 cells))))
         (filter row_accepted (select_rows d))"
  unfolding extractTableData_def
  by (simp add: scan_normalize_index_free [OF assms])

lemma clean_mk_cell:
  "getCleanText (Some (mk_cell t)) = (if trim t = [] then JNull else JStr (trim t))"
  by (simp add: getCleanText_Some mk_cell_def)

lemma sample_cells:
  "nth_opt (sample_row ordinal nomen F M) 0 = Some (mk_cell ordinal)"
  "nth_opt (sample_row ordinal nomen F M) 1 = Some (mk_cell ''MUNICIPALIDAD DE LIMA'')"
  "nth_opt (sample_row ordinal nomen F M) (Suc 0) = Some (mk_cell ''MUNICIPALIDAD DE LIMA'')"
  "nth_opt (sample_row ordinal nomen F M) 2 = Some (mk_cell F)"
  "nth_opt (sample_row ordinal nomen F M) 3 = Some (mk_cell nomen)"
  "nth_opt (sample_row ordinal nomen F M) 4 = Some (mk_cell [])"
  "nth_opt (sample_row ordinal nomen F M) 5 = Some (mk_cell ''Servicio'')"
  "nth_opt (sample_row ordinal nomen F M) 6 = Some (mk_cell ''Servicio de desarrollo de software'')"
  "nth_opt (sample_row ordinal nomen F M) 7 = Some (mk_cell [])"
  "nth_opt (sample_row ordinal nomen F M) 8 = Some (mk_cell M)"
  "nth_opt (sample_row ordinal nomen F M) 9 = Some (mk_cell ''Soles'')"
  "nth_opt (sample_row ordinal nomen F M) 10 = Some (mk_cell ''3'')"
  by (simp_all add: nth_opt_def sample_row_def)

lemma sample_trims:
  "trim ''1'' = ''1''"
  "trim ''MUNICIPALIDAD DE LIMA'' = ''MUNICIPALIDAD DE LIMA''"
  "trim ''AS-SM-1-2025'' = ''AS-SM-1-2025''"
  "trim [] = []"
  "trim ''Servicio'' = ''Servicio''"
  "trim ''Servicio de desarrollo de software'' = ''Servicio de desarrollo de software''"
  "trim ''Soles'' = ''Soles''"
  "trim ''3'' = ''3''"
  "trim ''Publicado'' = ''Publicado''"
  "trim ''https://prodapp2.seace.gob.pe/buscadorPublico.xhtml''
     = ''https://prodapp2.seace.gob.pe/buscadorPublico.xhtml''"
  "trim ''2025-10-09T15:00:00.000Z'' = ''2025-10-09T15:00:00.000Z''"
  by (simp_all add: trim_def is_space_def)

lemma sample_row_ok: "row_accepted (sample_row ''1'' ''AS-SM-1-2025'' F M)"
  by (simp add: row_accepted_def sample_row_def mk_cell_def sample_trims parseInt_def
        is_digit_def is_space_def digits_val_def digit_val_def toLowerCase_def lower_char_def)

lemma sample_row_index_free:
  "process_row sample_env j (sample_row ''1'' ''AS-SM-1-2025'' F M)
     = process_row sample_env 0 (sample_row ''1'' ''AS-SM-1-2025'' F M)"
  by (simp add: process_row_def Let_def sample_cells(5) clean_mk_cell sample_trims orJ_def)

lemma sample_normalized:
  assumes pr: "process_row sample_env 0 (sample_row ''1'' ''AS-SM-1-2025'' F M) = Some p"
    and nq: "normalizeProcesoData ''n'' p = Inr q"
    and F': "blank_to_null (normalize_fecha (getCleanText (Some (mk_cell F)))) = F'"
    and M': "blank_to_null (normalize_monto
               (if truthy (getCleanText (Some (mk_cell M))) \<and> getCleanText (Some (mk_cell M)) \<noteq> JStr ''---''
                then getCleanText (Some (mk_cell M)) else JNull)) = M'"
  shows "q = sample_record F' M'"
proof (rule proceso.equality)
  show "fecha_publicacion q = fecha_publicacion (sample_record F' M')"
    using F' by (simp add: normalize_sel [OF nq] process_row_sel [OF pr] sample_cells sample_record_def)
  show "monto_referencial q = monto_referencial (sample_record F' M')"
    using M'
    by (auto simp: normalize_sel [OF nq] process_row_sel [OF pr] sample_cells sample_record_def
          split: if_splits)
qed (simp_all add: normalize_sel [OF nq] process_row_sel [OF pr] sample_cells clean_mk_cell
       sample_trims sample_record_def sample_env_def blank_to_null_def missing_or_blank_def orJ_def)

lemma sample_extract:
  assumes F': "blank_to_null (normalize_fecha (getCleanText (Some (mk_cell F)))) = F'"
    and M': "blank_to_null (normalize_monto
               (if truthy (getCleanText (Some (mk_cell M))) \<and> getCleanText (Some (mk_cell M)) \<noteq> JStr ''---''
                then getCleanText (Some (mk_cell M)) else JNull)) = M'"
  shows "extractTableData sample_env (Some (one_page (replicate n (sample_row ''1'' ''AS-SM-1-2025'' F M))))
           = replicate n (sample_record F' M')"
proof -
  let ?row = "sample_row ''1'' ''AS-SM-1-2025'' F M"
  obtain p where p: "process_row sample_env 0 ?row = Some p"
    using process_row_None_iff [of sample_env 0 ?row] sample_row_ok [of F M] by auto
  obtain q where q: "normalizeProcesoData ''n'' p = Inr q"
    using process_row_normalizes [OF p] by blast
  have q': "q = sample_record F' M'" using p q F' M' by (rule sample_normalized)
  have sel: "select_rows (one_page (replicate n ?row)) = replicate n ?row"
    by (simp add: select_rows_def one_page_def)
  have "extractTableData sample_env (Some (one_page (replicate n ?row)))
     = map (\<lambda>cells. projr (normalizeProcesoData (norm_suffix sample_env) (the (process_row sample_env 0 cells))))
         (filter row_accepted (select_rows (one_page (replicate n ?row))))"
  proof (rule extractTableData_index_free)
    fix j cells
    assume "cells \<in> set (select_rows (one_page (replicate n ?row)))"
    then have c: "cells = ?row" by (simp add: sel)
    show "process_row sample_env j cells = process_row sample_env 0 cells"
      unfolding c by (rule sample_row_index_free)
  qed
  also have "\<dots> = replicate n (sample_record F' M')"
    using p q q' sample_row_ok [of F M] by (simp add: sel sample_env_def)
  finally show ?thesis .
qed

lemma sample_page_records:
  "extractTableData sample_env (Some sample_page)
     = replicate 40 (sample_record (JStr ''2025-10-09 14:30'') (JNum (Fin (123456789 / 100))))"
  unfolding sample_page_def
  by (rule sample_extract)
     (simp_all add: clean_mk_cell normalize_fecha_def normalize_monto_def blank_to_null_def str_eval)

theorem C7_row_validation_witness:
  "process_row sample_env 0 (sample_row ''1'' ''AS-SM-1-2025'' ''09/10/2025 14:30'' ''1.234.567,89'') \<noteq> None
   \<and> \<not> row_accepted (sample_row ''x'' ''AS-SM-1-2025'' ''09/10/2025 14:30'' ''1.234.567,89'')
   \<and> length (extractTableData sample_env
        (Some (one_page [sample_row ''1'' ''AS-SM-1-2025'' ''09/10/2025 14:30'' ''1.234.567,89'',
                         sample_row ''x'' ''AS-SM-1-2025'' ''09/10/2025 14:30'' ''1.234.567,89'']))) = 1"
proof -
  let ?good = "sample_row ''1'' ''AS-SM-1-2025'' ''09/10/2025 14:30'' ''1.234.567,89''"
  let ?bad = "sample_row ''x'' ''AS-SM-1-2025'' ''09/10/2025 14:30'' ''1.234.567,89''"
  have bad: "\<not> row_accepted ?bad"
    by (simp add: row_accepted_def sample_row_def mk_cell_def parseInt_def trim_def
          is_space_def is_digit_def)
  from C7_row_validation [of sample_env 0 ?good "one_page [?good, ?bad]"]
  show ?thesis
    using sample_row_ok [of "''09/10/2025 14:30''" "''1.234.567,89''"] bad
    by (simp add: select_rows_def one_page_def)
qed

section \<open>Date normalization\<close>

text \<open>
  C5 at the failing input. The date text \<open>abc\<close> has no \<open>/\<close>: day, month and year are
  not all there, the \<open>if\<close> of step 1 has no \<open>else\<close>, and the record leaves the
  scraper with \<open>fecha_publicacion = 'abc'\<close>, not \<open>null\<close>. The parsable example of
  the claim and the empty input behave as claimed.
\<close>

theorem C5_unparsable_date_kept:
  "normalize_fecha (JStr ''abc'') = JStr ''abc''
   \<and> extractTableData sample_env
         (Some (one_page [sample_row ''1'' ''AS-SM-1-2025'' ''abc'' ''1.234.567,89'']))
       = [sample_record (JStr ''abc'') (JNum (Fin (123456789 / 100)))]
   \<and> normalize_fecha (JStr ''09/10/2025 14:30'') = JStr ''2025-10-09 14:30''
   \<and> normalize_fecha (JStr ''09/10/2025'') = JStr ''2025-10-09 00:00:00''
   \<and> normalize_fecha (JStr []) = JNull"
proof -
  have "extractTableData sample_env
          (Some (one_page (replicate 1 (sample_row ''1'' ''AS-SM-1-2025'' ''abc'' ''1.234.567,89''))))
        = replicate 1 (sample_record (JStr ''abc'') (JNum (Fin (123456789 / 100))))"
    by (rule sample_extract)
       (simp_all add: clean_mk_cell normalize_fecha_def normalize_monto_def blank_to_null_def
          str_eval)
  then show ?thesis
    by (simp add: normalize_fecha_def str_eval)
qed

section \<open>The schema mapping\<close>

lemma mapScrape_zero_amount:
  "mapScrapeDataToProcesoSchema now (p\<lparr>monto_referencial := JNum (Fin 0)\<rparr>)
     = mapScrapeDataToProcesoSchema now (p\<lparr>monto_referencial := JNull\<rparr>)"
  by (simp add: mapScrapeDataToProcesoSchema_def orJ_def)

lemma mapScrape_id: "id_proceso (mapScrapeDataToProcesoSchema now p) = id_proceso p"
  by (simp add: mapScrapeDataToProcesoSchema_def)

lemma upsert_zero_amount:
  "upsert rejects now t (p\<lparr>monto_referencial := JNum (Fin 0)\<rparr>)
     = upsert rejects now t (p\<lparr>monto_referencial := JNull\<rparr>)"
  by (simp add: upsert_def mapScrape_zero_amount)

lemma persist_step_zero_amount:
  "persist_step rejects now maxNew st (p\<lparr>monto_referencial := JNum (Fin 0)\<rparr>)
     = persist_step rejects now maxNew st (p\<lparr>monto_referencial := JNull\<rparr>)"
  by (simp add: persist_step_def upsert_zero_amount mapScrape_zero_amount
        cong: option.case_cong sum.case_cong)

text \<open>
  C10, as stated, fails at one key. \<open>mapScrapeDataToProcesoSchema\<close> writes
  \<open>id_proceso: procesoData.id_proceso\<close>, with no \<open>||\<close>: a falsy identifier
  (\<open>undefined\<close>, the empty string) is copied as it is and gets no default.
\<close>

theorem C10_falsy_id_kept:
  "id_proceso (mapScrapeDataToProcesoSchema (clock_iso ok_services)
                 ((sample_record JNull JNull)\<lparr>id_proceso := JUndefined\<rparr>)) = JUndefined
   \<and> \<not> truthy JUndefined
   \<and> id_proceso (mapScrapeDataToProcesoSchema (clock_iso ok_services)
                   ((sample_record JNull JNull)\<lparr>id_proceso := JStr []\<rparr>)) = JStr []
   \<and> \<not> truthy (JStr [])"
  by (simp add: mapScrapeDataToProcesoSchema_def)

text \<open>
  C10, amended. \<open>mapScrapeDataToProcesoSchema\<close> copies \<open>id_proceso\<close> and gives each
  of the other 27 keys its default when the value is falsy. A reference amount of 0 is
  falsy: it is mapped to \<open>null\<close>, and the mapped record, the upsert and the whole loop
  step are the same as for a record whose amount is \<open>null\<close>.
\<close>

theorem C10_falsy_fields_defaulted:
  "monto_referencial (mapScrapeDataToProcesoSchema now (p\<lparr>monto_referencial := JNum (Fin 0)\<rparr>)) = JNull
   \<and> mapScrapeDataToProcesoSchema now (p\<lparr>monto_referencial := JNum (Fin 0)\<rparr>)
       = mapScrapeDataToProcesoSchema now (p\<lparr>monto_referencial := JNull\<rparr>)
   \<and> upsert rejects now t (p\<lparr>monto_referencial := JNum (Fin 0)\<rparr>)
       = upsert rejects now t (p\<lparr>monto_referencial := JNull\<rparr>)
   \<and> persist_step rejects now maxNew st (p\<lparr>monto_referencial := JNum (Fin 0)\<rparr>)
       = persist_step rejects now maxNew st (p\<lparr>monto_referencial := JNull\<rparr>)
   \<and> id_proceso (mapScrapeDataToProcesoSchema now p) = id_proceso p
   \<and> nombre_entidad (mapScrapeDataToProcesoSchema now p)
       = (if truthy (nombre_entidad p) then nombre_entidad p else JNull)
   \<and> entidad_nombre (mapScrapeDataToProcesoSchema now p)
       = (if truthy (entidad_nombre p) then entidad_nombre p else JNull)
   \<and> fecha_publicacion (mapScrapeDataToProcesoSchema now p)
       = (if truthy (fecha_publicacion p) then fecha_publicacion p else JNull)
   \<and> nomenclatura (mapScrapeDataToProcesoSchema now p)
       = (if truthy (nomenclatura p) then nomenclatura p else JNull)
   \<and> reiniciado_desde (mapScrapeDataToProcesoSchema now p)
       = (if truthy (reiniciado_desde p) then reiniciado_desde p else JNull)
   \<and> objeto_contratacion (mapScrapeDataToProcesoSchema now p)
       = (if truthy (objeto_contratacion p) then objeto_contratacion p else JNull)
   \<and> descripcion_objeto (mapScrapeDataToProcesoSchema now p)
       = (if truthy (descripcion_objeto p) then descripcion_objeto p else JNull)
   \<and> codigo_snip (mapScrapeDataToProcesoSchema now p)
       = (if truthy (codigo_snip p) then codigo_snip p else JNull)
   \<and> estado_proceso (mapScrapeDataToProcesoSchema now p)
       = (if truthy (estado_proceso p) then estado_proceso p else JStr ''Publicado'')
   \<and> tipo_proceso (mapScrapeDataToProcesoSchema now p)
       = (if truthy (tipo_proceso p) then tipo_proceso p else JNull)
   \<and> url_proceso (mapScrapeDataToProcesoSchema now p)
       = (if truthy (url_proceso p) then url_proceso p else JNull)
   \<and> source_url (mapScrapeDataToProcesoSchema now p)
       = (if truthy (source_url p) then source_url p else JNull)
   \<and> pagina_scraping (mapScrapeDataToProcesoSchema now p)
       = (if truthy (pagina_scraping p) then pagina_scraping p else JNull)
   \<and> numero_convocatoria (mapScrapeDataToProcesoSchema now p)
       = (if truthy (numero_convocatoria p) then numero_convocatoria p else JNull)
   \<and> entidad_ruc (mapScrapeDataToProcesoSchema now p)
       = (if truthy (entidad_ruc p) then entidad_ruc p else JNull)
   \<and> codigo_cui (mapScrapeDataToProcesoSchema now p)
       = (if truthy (codigo_cui p) then codigo_cui p else JNull)
   \<and> departamento (mapScrapeDataToProcesoSchema now p)
       = (if truthy (departamento p) then departamento p else JNull)
   \<and> provincia (mapScrapeDataToProcesoSchema now p)
       = (if truthy (provincia p) then provincia p else JNull)
   \<and> distrito (mapScrapeDataToProcesoSchema now p)
       = (if truthy (distrito p) then distrito p else JNull)
   \<and> monto_referencial (mapScrapeDataToProcesoSchema now p)
       = (if truthy (monto_referencial p) then monto_referencial p else JNull)
   \<and> moneda (mapScrapeDataToProcesoSchema now p)
       = (if truthy (moneda p) then moneda p else JStr ''Soles'')
   \<and> rubro (mapScrapeDataToProcesoSchema now p)
       = (if truthy (rubro p) then rubro p else JNull)
   \<and> version_seace (mapScrapeDataToProcesoSchema now p)
       = (if truthy (version_seace p) then version_seace p else JStr ''3'')
   \<and> fecha_scraping (mapScrapeDataToProcesoSchema now p)
       = (if truthy (fecha_scraping p) then fecha_scraping p else JStr now)
   \<and> requiere_visita_previa (mapScrapeDataToProcesoSchema now p)
       = (if truthy (requiere_visita_previa p) then requiere_visita_previa p else JBool False)
   \<and> datos_ocds (mapScrapeDataToProcesoSchema now p)
       = (if truthy (datos_ocds p) then datos_ocds p else JNull)
   \<and> fecha_limite_presentacion (mapScrapeDataToProcesoSchema now p)
       = (if truthy (fecha_limite_presentacion p) then fecha_limite_presentacion p else JNull)"
proof -
  have a: "monto_referencial (mapScrapeDataToProcesoSchema now (p\<lparr>monto_referencial := JNum (Fin 0)\<rparr>)) = JNull"
    by (simp add: mapScrapeDataToProcesoSchema_def orJ_def)
  show ?thesis
    unfolding a
    by (simp only: mapScrape_zero_amount upsert_zero_amount persist_step_zero_amount mapScrape_id
          simp_thms)
       (simp add: mapScrapeDataToProcesoSchema_def orJ_def)
qed

section \<open>The form driver\<close>

lemma snd_logA: "snd (logA lv msg l) = Inr ()"
  by (simp add: logA_def)

lemma tryA_total:
  assumes "\<And>e l'. \<exists>v. snd (h e l') = Inr v"
  shows "\<exists>v. snd (tryA m h l) = Inr v"
proof (cases "m l")
  case (Pair l' r)
  show ?thesis
  proof (cases r)
    case (Inl e)
    with Pair assms [of e l'] show ?thesis by (simp add: tryA_def)
  next
    case (Inr v)
    with Pair show ?thesis by (simp add: tryA_def)
  qed
qed

lemma tryA_log_returns: "snd (tryA m (\<lambda>err. logA lv msg) l) = Inr ()"
  using tryA_total [of "\<lambda>err. logA lv msg" m l] by (simp add: snd_logA)

lemma tryA_log_false_returns:
  "\<exists>b. snd (tryA m (\<lambda>err. thenA (logA lv msg) (returnA False)) l) = Inr b"
  by (rule tryA_total) (auto simp: thenA_def bindA_def logA_def returnA_def)

lemma clickBuscar_returns: "snd (clickBuscar pg l) = Inr ()"
  unfolding clickBuscar_def by (rule tryA_log_returns)

lemma selectProcedimientosSeleccion_returns: "snd (selectProcedimientosSeleccion pg l) = Inr ()"
  unfolding selectProcedimientosSeleccion_def by (rule tryA_log_returns)

lemma selectObjetoContratacion_returns: "snd (selectObjetoContratacion pg valor l) = Inr ()"
  unfolding selectObjetoContratacion_def by (rule tryA_log_returns)

lemma fillDescripcion_returns: "snd (fillDescripcion pg texto l) = Inr ()"
  unfolding fillDescripcion_def by (rule tryA_log_returns)

lemma selectAnio_returns: "snd (selectAnio pg a l) = Inr ()"
  unfolding selectAnio_def by (rule tryA_log_returns)

lemma setFechaPublicacion_returns: "\<exists>b. snd (setFechaPublicacion pg d h l) = Inr b"
  unfolding setFechaPublicacion_def by (rule tryA_log_false_returns)

lemmas act_defs = returnA_def throwA_def bindA_def thenA_def logA_def callA_def tryA_def

lemma clickBuscar_no_button:
  assumes "pg_query pg sel_buscar = Inr False"
  shows "clickBuscar pg l
           = (l @ [(Info, ''Haciendo click en buscar''),
                   (Warn, ''No se encontro el elemento boton''),
                   (Warn, ''No se encontro boton de buscar'')], Inr ())"
  using assms by (simp add: clickBuscar_def act_defs)

lemma waitForResults_result:
  "snd (waitForResults pg timeout l)
     = (if pg_waitForSelector pg sel_results timeout = Inr () \<and> pg_waitForTimeout pg 2000 = Inr ()
        then Inr ()
        else Inl (Error ''No se encontraron resultados en el tiempo esperado''))"
  by (cases "pg_waitForSelector pg sel_results timeout"; cases "pg_waitForTimeout pg 2000")
     (simp_all add: waitForResults_def act_defs)

lemma snd_thenA_returns:
  assumes "\<And>l. \<exists>v. snd (m l) = Inr v"
  shows "snd (thenA m n l) = snd (n (fst (m l)))"
proof -
  obtain v where "snd (m l) = Inr v" using assms by blast
  then show ?thesis by (cases "m l") (simp add: thenA_def bindA_def)
qed

lemma snd_thenA_call:
  "snd (thenA (callA r) n l) = (case r of Inl e \<Rightarrow> Inl e | Inr v \<Rightarrow> snd (n l))"
  by (cases r) (simp_all add: thenA_def bindA_def callA_def)

lemma snd_thenA_unit: "snd (thenA m (returnA ()) l) = snd (m l)" for m :: "unit act"
proof (cases "m l")
  case (Pair l' r)
  then show ?thesis by (cases r) (simp_all add: thenA_def bindA_def returnA_def)
qed

lemma if_total:
  assumes "\<And>l. \<exists>v. snd (a l) = Inr v" "\<And>l. \<exists>v. snd (b l) = Inr v"
  shows "\<exists>v. snd ((if c then a else b) l) = Inr v"
  using assms by (cases c) simp_all

lemma form_driving_result:
  assumes "pg_goto pg baseUrl = Inr ()" "pg_waitForTimeout pg 3000 = Inr ()"
  shows "snd (form_driving pg timeout ps l)
     = (if pg_waitForSelector pg sel_results timeout = Inr () \<and> pg_waitForTimeout pg 2000 = Inr ()
        then Inr ()
        else Inl (Error ''No se encontraron resultados en el tiempo esperado''))"
proof -
  have r: "\<exists>v. snd (returnA () l) = Inr v" for l by (simp add: returnA_def)
  have lg: "\<exists>v. snd (logA Info ''Pagina SEACE cargada'' l) = Inr v" for l
    by (simp add: logA_def)
  have t1: "\<exists>v. snd (selectProcedimientosSeleccion pg l) = Inr v" for l
    by (simp add: selectProcedimientosSeleccion_returns)
  have t2: "\<exists>v. snd ((if objetoContratacion ps \<noteq> []
                        then selectObjetoContratacion pg (objetoContratacion ps)
                        else returnA ()) l) = Inr v" for l
    by (rule if_total) (simp_all add: selectObjetoContratacion_returns returnA_def)
  have t3: "\<exists>v. snd ((if anio ps \<noteq> [] then selectAnio pg (anio ps) else returnA ()) l) = Inr v"
    for l
    by (rule if_total) (simp_all add: selectAnio_returns returnA_def)
  have t4: "\<exists>v. snd (thenA (setFechaPublicacion pg d h) (returnA ()) l) = Inr v" for d h l
  proof -
    obtain b where "snd (setFechaPublicacion pg d h l) = Inr b"
      using setFechaPublicacion_returns by blast
    then show ?thesis
      by (cases "setFechaPublicacion pg d h l") (simp add: thenA_def bindA_def returnA_def)
  qed
  have t5: "\<exists>v. snd ((if join_blank (kwords ps) \<noteq> [] \<and> trim (join_blank (kwords ps)) \<noteq> []
                        then fillDescripcion pg (join_blank (kwords ps)) else returnA ()) l) = Inr v"
    for l
    by (rule if_total) (simp_all add: fillDescripcion_returns returnA_def)
  have t6: "\<exists>v. snd (clickBuscar pg l) = Inr v" for l
    by (simp add: clickBuscar_returns)
  show ?thesis
    unfolding form_driving_def seqA.simps
    by (simp only: snd_thenA_call assms sum.case snd_thenA_returns [OF lg]
          snd_thenA_returns [OF t1] snd_thenA_returns [OF t2] snd_thenA_returns [OF t3]
          snd_thenA_returns [OF t4] snd_thenA_returns [OF t5] snd_thenA_returns [OF t6]
          snd_thenA_unit waitForResults_result)
qed

lemma no_button_page_calls:
  "pg_query no_button_page sel_buscar = Inr False"
  "pg_goto no_button_page u = Inr ()"
  "pg_waitForTimeout no_button_page ms = Inr ()"
  "pg_waitForSelector no_button_page sel ms = Inr ()"
  by (simp_all add: no_button_page_def ok_page_def)

text \<open>
  C8, as stated, fails: without a search button \<open>clickBuscar\<close> returns normally,
  and when the results table is there the whole form driver returns normally too.
\<close>

theorem C8_clickBuscar_swallows:
  "pg_query no_button_page sel_buscar = Inr False
   \<and> snd (clickBuscar no_button_page []) = Inr ()
   \<and> snd (form_driving no_button_page 90000 (scraper_params ok_services (job None)) []) = Inr ()"
  by (simp add: no_button_page_calls clickBuscar_returns form_driving_result)

text \<open>
  C8, amended. \<open>clickBuscar\<close> never propagates: whatever the browser calls do it
  returns, and when no button is found it logs two warnings. The steps that set the tab
  and the filters never propagate either. \<open>waitForResults\<close> is the one fatal step:
  it throws exactly when the results table does not appear or its settle wait fails.
  Once the page is loaded, the form driver fails exactly when \<open>waitForResults\<close> does.
\<close>

theorem C8_form_steps:
  "snd (clickBuscar pg l) = Inr ()
   \<and> (pg_query pg sel_buscar = Inr False \<longrightarrow>
        clickBuscar pg l
          = (l @ [(Info, ''Haciendo click en buscar''),
                  (Warn, ''No se encontro el elemento boton''),
                  (Warn, ''No se encontro boton de buscar'')], Inr ()))
   \<and> snd (selectProcedimientosSeleccion pg l) = Inr ()
   \<and> snd (selectObjetoContratacion pg valor l) = Inr ()
   \<and> snd (selectAnio pg a l) = Inr ()
   \<and> snd (fillDescripcion pg texto l) = Inr ()
   \<and> (\<exists>b. snd (setFechaPublicacion pg d h l) = Inr b)
   \<and> snd (waitForResults pg timeout l)
       = (if pg_waitForSelector pg sel_results timeout = Inr () \<and> pg_waitForTimeout pg 2000 = Inr ()
          then Inr ()
          else Inl (Error ''No se encontraron resultados en el tiempo esperado''))
   \<and> (pg_goto pg baseUrl = Inr () \<and> pg_waitForTimeout pg 3000 = Inr () \<longrightarrow>
        snd (form_driving pg timeout ps l) = snd (waitForResults pg timeout l))"
  using clickBuscar_returns [of pg l] clickBuscar_no_button [of pg l]
    selectProcedimientosSeleccion_returns [of pg l] selectObjetoContratacion_returns [of pg valor l]
    selectAnio_returns [of pg a l] fillDescripcion_returns [of pg texto l]
    setFechaPublicacion_returns [of pg d h l] waitForResults_result [of pg timeout l]
    form_driving_result [of pg timeout ps l]
  by presburger

theorem C8_form_steps_witness:
  "pg_query no_button_page sel_buscar = Inr False
   \<and> pg_goto no_button_page baseUrl = Inr () \<and> pg_waitForTimeout no_button_page 3000 = Inr ()
   \<and> clickBuscar no_button_page []
       = ([(Info, ''Haciendo click en buscar''),
           (Warn, ''No se encontro el elemento boton''),
           (Warn, ''No se encontro boton de buscar'')], Inr ())
   \<and> snd (form_driving no_button_page 90000 (scraper_params ok_services (job (Some 50))) [])
       = snd (waitForResults no_button_page 90000 [])"
  using C8_form_steps [of no_button_page "[]" _ _ _ _ _ 90000 "scraper_params ok_services (job (Some 50))"]
  by (simp add: no_button_page_calls)

section \<open>The table and the persistence loop\<close>

lemma findOne_None_iff: "(findOne t k = None) = (\<forall>r\<in>set t. id_proceso r \<noteq> k)"
  by (auto simp: findOne_def find_None_iff)

lemma update_row_ids:
  "id_proceso v = k \<Longrightarrow> map id_proceso (update_row k v t) = map id_proceso t"
  by (induction t) simp_all

lemma update_row_absent:
  "findOne t k = None \<Longrightarrow> update_row k v (t @ [r]) = t @ [if id_proceso r = k then v else r]"
  by (induction t) (auto simp: findOne_def split: if_splits)

lemma findOne_append_absent:
  "findOne t k = None \<Longrightarrow> findOne (t @ [r]) k = (if id_proceso r = k then Some r else None)"
  by (induction t) (auto simp: findOne_def split: if_splits)

lemma filter_absent:
  "findOne t k = None \<Longrightarrow> filter (\<lambda>r. id_proceso r = k) t = []"
  by (simp add: findOne_None_iff filter_empty_conv)

text \<open>What one pass of the loop body does to the counters and to the size of the table.\<close>

lemma persist_step_capped:
  assumes "cap_reached maxNew st"
  shows "map id_proceso (tbl (persist_step rejects now maxNew st r)) = map id_proceso (tbl st)"
    and "savedCount (persist_step rejects now maxNew st r) = savedCount st"
    and "newProcessesInserted (persist_step rejects now maxNew st r) = newProcessesInserted st"
    and "findOne (tbl st) (id_proceso r) = None \<Longrightarrow> persist_step rejects now maxNew st r = st"
  using assms
  by (auto simp: persist_step_def db_update_def count_error_def update_row_ids mapScrape_id
        split: option.splits)

lemma persist_step_uncapped:
  assumes "\<not> cap_reached maxNew st"
  shows "\<exists>d\<le>1. newProcessesInserted (persist_step rejects now maxNew st r) = newProcessesInserted st + d
          \<and> savedCount (persist_step rejects now maxNew st r) = savedCount st + d
          \<and> length (tbl (persist_step rejects now maxNew st r)) = length (tbl st) + d"
    and "savedCount (persist_step rejects now maxNew st r) + updateCount (persist_step rejects now maxNew st r)
           + errorCount (persist_step rejects now maxNew st r)
         = Suc (savedCount st + updateCount st + errorCount st)"
proof -
  let ?m = "mapScrapeDataToProcesoSchema now r"
  have len: "length (update_row k v t) = length t" for k v t
    by (induction t) simp_all
  have "(\<exists>e. upsert rejects now (tbl st) r = Inl e)
      \<or> upsert rejects now (tbl st) r = Inr (tbl st @ [?m], True)
      \<or> upsert rejects now (tbl st) r = Inr (update_row (id_proceso ?m) ?m (tbl st), False)"
    by (cases "truthy (id_proceso ?m)"; cases "findOne (tbl st) (id_proceso ?m)"; cases "rejects ?m")
       (simp_all add: upsert_def Let_def db_create_def db_update_def)
  then consider (err) e where "upsert rejects now (tbl st) r = Inl e"
    | (new) "upsert rejects now (tbl st) r = Inr (tbl st @ [?m], True)"
    | (upd) "upsert rejects now (tbl st) r = Inr (update_row (id_proceso ?m) ?m (tbl st), False)"
    by blast
  then have
    "(\<exists>d\<le>1. newProcessesInserted (persist_step rejects now maxNew st r) = newProcessesInserted st + d
          \<and> savedCount (persist_step rejects now maxNew st r) = savedCount st + d
          \<and> length (tbl (persist_step rejects now maxNew st r)) = length (tbl st) + d)
     \<and> savedCount (persist_step rejects now maxNew st r) + updateCount (persist_step rejects now maxNew st r)
           + errorCount (persist_step rejects now maxNew st r)
         = Suc (savedCount st + updateCount st + errorCount st)"
  proof cases
    case err
    then show ?thesis using assms by (simp add: persist_step_def count_error_def)
  next
    case new
    then show ?thesis using assms by (simp add: persist_step_def)
  next
    case upd
    then show ?thesis using assms by (simp add: persist_step_def len)
  qed
  then show "\<exists>d\<le>1. newProcessesInserted (persist_step rejects now maxNew st r) = newProcessesInserted st + d
          \<and> savedCount (persist_step rejects now maxNew st r) = savedCount st + d
          \<and> length (tbl (persist_step rejects now maxNew st r)) = length (tbl st) + d"
    and "savedCount (persist_step rejects now maxNew st r) + updateCount (persist_step rejects now maxNew st r)
           + errorCount (persist_step rejects now maxNew st r)
         = Suc (savedCount st + updateCount st + errorCount st)"
    by blast+
qed

text \<open>The invariant of the loop under a positive cap.\<close>

lemma persist_step_inv:
  assumes "0 < N"
    and "int (newProcessesInserted st) \<le> N" "savedCount st = newProcessesInserted st"
      "length (tbl st) = L + savedCount st"
  shows "int (newProcessesInserted (persist_step rejects now (Some N) st r)) \<le> N
         \<and> savedCount (persist_step rejects now (Some N) st r)
             = newProcessesInserted (persist_step rejects now (Some N) st r)
         \<and> length (tbl (persist_step rejects now (Some N) st r))
             = L + savedCount (persist_step rejects now (Some N) st r)"
proof (cases "cap_reached (Some N) st")
  case True
  have "length (tbl (persist_step rejects now (Some N) st r)) = length (tbl st)"
    using arg_cong [OF persist_step_capped(1) [OF True, of rejects now r], of length] by simp
  with True assms show ?thesis by (simp add: persist_step_capped)
next
  case False
  then have lt: "int (newProcessesInserted st) < N" using assms(1) by (simp add: cap_reached_def)
  from persist_step_uncapped(1) [OF False, of rejects now r] obtain d where
    "d \<le> 1" "newProcessesInserted (persist_step rejects now (Some N) st r) = newProcessesInserted st + d"
    "savedCount (persist_step rejects now (Some N) st r) = savedCount st + d"
    "length (tbl (persist_step rejects now (Some N) st r)) = length (tbl st) + d"
    by blast
  with lt assms show ?thesis by simp
qed

lemma persist_all_inv:
  assumes "0 < N"
    and "int (newProcessesInserted st) \<le> N" "savedCount st = newProcessesInserted st"
      "length (tbl st) = L + savedCount st"
  shows "int (newProcessesInserted (persist_all rejects now (Some N) st rs)) \<le> N
         \<and> savedCount (persist_all rejects now (Some N) st rs)
             = newProcessesInserted (persist_all rejects now (Some N) st rs)
         \<and> length (tbl (persist_all rejects now (Some N) st rs))
             = L + savedCount (persist_all rejects now (Some N) st rs)"
  using assms(2-)
proof (induction rs arbitrary: st)
  case Nil
  then show ?case by (simp add: persist_all_def)
next
  case (Cons r rs)
  from persist_step_inv [OF assms(1) Cons.prems, of rejects now r]
  have "int (newProcessesInserted (persist_step rejects now (Some N) st r)) \<le> N"
    "savedCount (persist_step rejects now (Some N) st r)
       = newProcessesInserted (persist_step rejects now (Some N) st r)"
    "length (tbl (persist_step rejects now (Some N) st r))
       = L + savedCount (persist_step rejects now (Some N) st r)"
    by blast+
  from Cons.IH [OF this] show ?case by (simp add: persist_all_def)
qed

text \<open>While fewer rows than the cap were handled, every row moves exactly one counter.\<close>

lemma persist_all_counts:
  assumes "0 < N"
    and "savedCount st + updateCount st + errorCount st = k" "newProcessesInserted st \<le> k"
      "int (k + length rs) \<le> N"
  shows "savedCount (persist_all rejects now (Some N) st rs)
           + updateCount (persist_all rejects now (Some N) st rs)
           + errorCount (persist_all rejects now (Some N) st rs) = k + length rs"
  using assms(2-)
proof (induction rs arbitrary: st k)
  case Nil
  then show ?case by (simp add: persist_all_def)
next
  case (Cons r rs)
  let ?st = "persist_step rejects now (Some N) st r"
  have nocap: "\<not> cap_reached (Some N) st" using Cons.prems by (simp add: cap_reached_def)
  from persist_step_uncapped(1) [OF nocap, of rejects now r] obtain d where
    d: "d \<le> 1" "newProcessesInserted ?st = newProcessesInserted st + d"
    by blast
  have a: "savedCount ?st + updateCount ?st + errorCount ?st = Suc k"
    using persist_step_uncapped(2) [OF nocap, of rejects now r] Cons.prems(1) by simp
  have b: "newProcessesInserted ?st \<le> Suc k" using d Cons.prems(2) by simp
  have c: "int (Suc k + length rs) \<le> N" using Cons.prems(3) by simp
  from Cons.IH [OF a b c] show ?case by (simp add: persist_all_def)
qed

section \<open>What a normalized record looks like\<close>

lemma orJ_same: "orJ x x = x"
  by (simp add: orJ_def)

lemma orJ_clean: "orJ (getCleanText c) JNull = getCleanText c"
  using getCleanText_cases [of c] by (auto simp: orJ_def)

lemma orJ_blank_str: "orJ (blank_to_null (JStr s)) JNull = blank_to_null (JStr s)"
  by (simp add: orJ_def blank_to_null_def)

lemma normalize_fecha_text: "normalize_fecha v = JNull \<or> (\<exists>s. normalize_fecha v = JStr s)"
  by (cases v) (auto simp: normalize_fecha_def Let_def split: option.splits)

lemma orJ_blank_fecha:
  "orJ (blank_to_null (normalize_fecha v)) JNull = blank_to_null (normalize_fecha v)"
proof -
  consider "normalize_fecha v = JNull" | s where "normalize_fecha v = JStr s"
    using normalize_fecha_text [of v] by blast
  then show ?thesis
  proof cases
    case 1
    then show ?thesis by (simp add: orJ_def blank_to_null_def)
  next
    case 2
    then show ?thesis by (simp add: orJ_blank_str)
  qed
qed

lemma orJ_blank_monto:
  "orJ (blank_to_null (normalize_monto v)) JNull
     = (if blank_to_null (normalize_monto v) = JNum (Fin 0) then JNull
        else blank_to_null (normalize_monto v))"
  using normalize_monto_never_NaN [of v] by (auto simp: orJ_def blank_to_null_def)

lemma text_or_default:
  assumes "x = orJ (getCleanText c) (JStr d)" "d \<noteq> []" "trim d = d"
  shows "blank_to_null (if missing_or_blank x = Inr True then JStr d' else x) = x"
    and "truthy x"
  using getCleanText_cases [of c] assms
  by (auto simp: orJ_def missing_or_blank_def blank_to_null_def)

lemma trim_defaults: "trim ''Soles'' = ''Soles''" "trim ''3'' = ''3''" "trim ''Publicado'' = ''Publicado''"
  by (simp_all add: trim_def is_space_def)

lemma orJ_truthy: "truthy x \<Longrightarrow> orJ x d = x"
  by (simp add: orJ_def)

lemma truthy_or_default:
  "truthy (if truthy x then x else JStr (c # s))"
  by simp

lemma mapScrape_normalized:
  assumes pr: "process_row env i cells = Some p"
    and nq: "normalizeProcesoData rnd p = Inr R"
    and clock: "trim (now_iso env) \<noteq> []"
  shows "mapScrapeDataToProcesoSchema now R
           = R\<lparr>monto_referencial :=
                 (if monto_referencial R = JNum (Fin 0) then JNull else monto_referencial R)\<rparr>"
proof -
  have now_ne: "now_iso env \<noteq> []" using clock by (auto simp: trim_def)
  note nsel = normalize_sel [OF nq]
  note rsel = process_row_sel [OF pr]
  have mon: "orJ (moneda R) (JStr ''Soles'') = moneda R"
  proof -
    have "moneda R = moneda p" "truthy (moneda p)"
      unfolding nsel(22)
      by (rule text_or_default [OF rsel(22)]; simp add: trim_defaults)+
    then show ?thesis by (simp add: orJ_def)
  qed
  have ver: "orJ (version_seace R) (JStr ''3'') = version_seace R"
  proof -
    have "version_seace R = version_seace p" "truthy (version_seace p)"
      unfolding nsel(24)
      by (rule text_or_default [OF rsel(24)]; simp add: trim_defaults)+
    then show ?thesis by (simp add: orJ_def)
  qed
  have estado: "blank_to_null (JStr ''Publicado'') = JStr ''Publicado''"
    by (simp add: blank_to_null_def trim_defaults)
  have scraping: "blank_to_null (JStr (now_iso env)) = JStr (now_iso env)"
    using clock now_ne by (simp add: blank_to_null_def)
  have cst: "blank_to_null JNull = JNull" "blank_to_null (JBool False) = JBool False"
    by (simp_all add: blank_to_null_def)
  have nombre: "orJ (if truthy x then x else JStr ''Entidad Desconocida'') JNull
                  = (if truthy x then x else JStr ''Entidad Desconocida'')" for x
    by (simp add: orJ_def)
  note fld = nsel(1-21) nsel(23) nsel(25-28) rsel
  show ?thesis
    by (rule proceso.equality)
       (simp_all add: mapScrapeDataToProcesoSchema_def mon ver fld blank_to_null_clean orJ_clean
          orJ_blank_str orJ_blank_fecha orJ_blank_monto estado scraping cst nombre
          orJ_same orJ_truthy now_ne)
qed

lemma normalized_id_truthy:
  assumes "normalizeProcesoData rnd p = Inr R"
  shows "truthy (id_proceso R)"
  by (simp add: normalize_sel [OF assms])

lemma normalize_all_member:
  "normalize_all rnd ps = Inr qs \<Longrightarrow> q \<in> set qs \<Longrightarrow> \<exists>p\<in>set ps. normalizeProcesoData rnd p = Inr q"
proof (induction ps arbitrary: qs)
  case Nil
  then show ?case by simp
next
  case (Cons p ps)
  then show ?case by (auto split: sum.splits)
qed

lemma scan_rows_member:
  "p \<in> set (scan_rows env i rows) \<Longrightarrow> \<exists>j cells. process_row env j cells = Some p"
proof (induction rows arbitrary: i)
  case Nil
  then show ?case by simp
next
  case (Cons r rows)
  then show ?case by (cases "process_row env i r") auto
qed

lemma extract_member:
  assumes "R \<in> set (extractTableData env page)"
  shows "\<exists>j cells p. process_row env j cells = Some p
           \<and> normalizeProcesoData (norm_suffix env) p = Inr R"
proof -
  from assms obtain d where d: "page = Some d" by (cases page) (simp_all add: extractTableData_def)
  from assms d obtain qs where qs: "normalize_all (norm_suffix env) (scan_rows env 0 (select_rows d)) = Inr qs"
    "R \<in> set qs"
    by (cases "normalize_all (norm_suffix env) (scan_rows env 0 (select_rows d))")
       (simp_all add: extractTableData_def)
  from normalize_all_member [OF qs] obtain p where
    p: "p \<in> set (scan_rows env 0 (select_rows d))" "normalizeProcesoData (norm_suffix env) p = Inr R"
    by blast
  from scan_rows_member [OF p(1)] p(2) show ?thesis by blast
qed

section \<open>Idempotent upsert\<close>

lemma upsert_twice:
  assumes "truthy (id_proceso R)"
    and "findOne t (id_proceso R) = None"
    and "\<not> rejects (mapScrapeDataToProcesoSchema now R)"
  shows "upsert rejects now t R = Inr (t @ [mapScrapeDataToProcesoSchema now R], True)"
    and "upsert rejects now (t @ [mapScrapeDataToProcesoSchema now R]) R
           = Inr (t @ [mapScrapeDataToProcesoSchema now R], False)"
    and "length (filter (\<lambda>r. id_proceso r = id_proceso R) (t @ [mapScrapeDataToProcesoSchema now R])) = 1"
    and "findOne (t @ [mapScrapeDataToProcesoSchema now R]) (id_proceso R)
           = Some (mapScrapeDataToProcesoSchema now R)"
proof -
  let ?m = "mapScrapeDataToProcesoSchema now R"
  have idm: "id_proceso ?m = id_proceso R" by (rule mapScrape_id)
  show 1: "upsert rejects now t R = Inr (t @ [?m], True)"
    using assms by (simp add: upsert_def Let_def idm db_create_def)
  show 4: "findOne (t @ [?m]) (id_proceso R) = Some ?m"
    using assms(2) by (simp add: findOne_append_absent idm)
  show "upsert rejects now (t @ [?m]) R = Inr (t @ [?m], False)"
    using assms 4 by (simp add: upsert_def Let_def idm db_update_def update_row_absent)
  show "length (filter (\<lambda>r. id_proceso r = id_proceso R) (t @ [?m])) = 1"
    using assms(2) by (simp add: filter_absent idm)
qed

text \<open>
  C1, as stated, fails. The record scraped from a row whose amount cell is \<open>0\<close> has
  the amount 0; after two upserts into the empty table there is one row, inserted by
  the first and refreshed by the second, but its amount is \<open>null\<close>, not 0.
\<close>

theorem C1_zero_amount_not_stored:
  "sample_record (JStr ''2025-10-09 14:30'') (JNum (Fin 0))
     \<in> set (extractTableData sample_env
              (Some (one_page [sample_row ''1'' ''AS-SM-1-2025'' ''09/10/2025 14:30'' ''0''])))
   \<and> upsert (db_rejects ok_services) (clock_iso ok_services) []
        (sample_record (JStr ''2025-10-09 14:30'') (JNum (Fin 0)))
     = Inr ([mapScrapeDataToProcesoSchema (clock_iso ok_services)
              (sample_record (JStr ''2025-10-09 14:30'') (JNum (Fin 0)))], True)
   \<and> upsert (db_rejects ok_services) (clock_iso ok_services)
        [mapScrapeDataToProcesoSchema (clock_iso ok_services)
              (sample_record (JStr ''2025-10-09 14:30'') (JNum (Fin 0)))]
        (sample_record (JStr ''2025-10-09 14:30'') (JNum (Fin 0)))
     = Inr ([mapScrapeDataToProcesoSchema (clock_iso ok_services)
              (sample_record (JStr ''2025-10-09 14:30'') (JNum (Fin 0)))], False)
   \<and> monto_referencial (mapScrapeDataToProcesoSchema (clock_iso ok_services)
              (sample_record (JStr ''2025-10-09 14:30'') (JNum (Fin 0)))) = JNull
   \<and> monto_referencial (sample_record (JStr ''2025-10-09 14:30'') (JNum (Fin 0))) = JNum (Fin 0)"
proof -
  let ?R = "sample_record (JStr ''2025-10-09 14:30'') (JNum (Fin 0))"
  have "extractTableData sample_env
          (Some (one_page (replicate 1 (sample_row ''1'' ''AS-SM-1-2025'' ''09/10/2025 14:30'' ''0''))))
        = replicate 1 ?R"
    by (rule sample_extract)
       (simp_all add: clean_mk_cell normalize_fecha_def normalize_monto_def blank_to_null_def
          str_eval)
  then have mem: "?R \<in> set (extractTableData sample_env
              (Some (one_page [sample_row ''1'' ''AS-SM-1-2025'' ''09/10/2025 14:30'' ''0''])))"
    by simp
  have id: "truthy (id_proceso ?R)" by (simp add: sample_record_def)
  have ab: "findOne [] (id_proceso ?R) = None" by (simp add: findOne_def)
  have ok: "\<not> db_rejects ok_services (mapScrapeDataToProcesoSchema (clock_iso ok_services) ?R)"
    by (simp add: ok_services_def)
  have z: "monto_referencial (mapScrapeDataToProcesoSchema (clock_iso ok_services) ?R) = JNull"
    by (simp add: mapScrapeDataToProcesoSchema_def sample_record_def orJ_def)
  have m: "monto_referencial ?R = JNum (Fin 0)" by (simp add: sample_record_def)
  from upsert_twice(1,2) [where rejects = "db_rejects ok_services", OF id ab ok] mem z m
  show ?thesis by simp
qed

text \<open>
  C1, amended. Let \<open>R\<close> be a record that the scraper extracted and normalized (the clock
  text is not blank), let no row of the table have its \<open>id_proceso\<close>, and let the
  database accept its values. The first upsert inserts and reports \<open>created = true\<close>,
  the second changes nothing and reports \<open>created = false\<close>; the table then holds
  exactly one row with that \<open>id_proceso\<close>, and its fields are those of \<open>R\<close>, except
  that a reference amount of 0 is stored as \<open>null\<close>.
\<close>

theorem C1_upsert_twice:
  assumes "R \<in> set (extractTableData env page)"
    and "trim (now_iso env) \<noteq> []"
    and "findOne t (id_proceso R) = None"
    and "\<not> rejects (mapScrapeDataToProcesoSchema now R)"
  shows "\<exists>t1. upsert rejects now t R = Inr (t1, True)
          \<and> upsert rejects now t1 R = Inr (t1, False)
          \<and> length (filter (\<lambda>r. id_proceso r = id_proceso R) t1) = 1
          \<and> findOne t1 (id_proceso R)
              = Some (R\<lparr>monto_referencial :=
                         (if monto_referencial R = JNum (Fin 0) then JNull
                          else monto_referencial R)\<rparr>)"
proof -
  from extract_member [OF assms(1)] obtain j cells p where
    p: "process_row env j cells = Some p" "normalizeProcesoData (norm_suffix env) p = Inr R"
    by blast
  have id: "truthy (id_proceso R)" using p(2) by (rule normalized_id_truthy)
  have m: "mapScrapeDataToProcesoSchema now R
             = R\<lparr>monto_referencial :=
                   (if monto_referencial R = JNum (Fin 0) then JNull else monto_referencial R)\<rparr>"
    using p assms(2) by (rule mapScrape_normalized)
  from upsert_twice [where rejects = rejects, OF id assms(3,4)] show ?thesis
    unfolding m by blast
qed

theorem C1_upsert_twice_witness:
  "sample_record (JStr ''2025-10-09 14:30'') (JNum (Fin (123456789 / 100)))
     \<in> set (extractTableData sample_env (Some sample_page))
   \<and> trim (now_iso sample_env) \<noteq> []
   \<and> findOne [] (id_proceso (sample_record (JStr ''2025-10-09 14:30'') (JNum (Fin (123456789 / 100)))))
       = None
   \<and> (\<exists>t1. upsert (db_rejects ok_services) (clock_iso ok_services) []
              (sample_record (JStr ''2025-10-09 14:30'') (JNum (Fin (123456789 / 100))))
            = Inr (t1, True)
          \<and> upsert (db_rejects ok_services) (clock_iso ok_services) t1
              (sample_record (JStr ''2025-10-09 14:30'') (JNum (Fin (123456789 / 100))))
            = Inr (t1, False)
          \<and> findOne t1 (JStr ''AS-SM-1-2025'')
            = Some (sample_record (JStr ''2025-10-09 14:30'') (JNum (Fin (123456789 / 100)))))"
proof -
  let ?R = "sample_record (JStr ''2025-10-09 14:30'') (JNum (Fin (123456789 / 100)))"
  have mem: "?R \<in> set (extractTableData sample_env (Some sample_page))"
    by (simp add: sample_page_records)
  have clock: "trim (now_iso sample_env) \<noteq> []"
    by (simp add: sample_env_def trim_def is_space_def)
  have ab: "findOne [] (id_proceso ?R) = None" by (simp add: findOne_def)
  have ok: "\<not> db_rejects ok_services (mapScrapeDataToProcesoSchema (clock_iso ok_services) ?R)"
    by (simp add: ok_services_def)
  have nz: "monto_referencial ?R \<noteq> JNum (Fin 0)" "id_proceso ?R = JStr ''AS-SM-1-2025''"
    by (simp_all add: sample_record_def)
  have same: "?R\<lparr>monto_referencial := monto_referencial ?R\<rparr> = ?R" by simp
  from C1_upsert_twice [where rejects = "db_rejects ok_services", OF mem clock ab ok] mem clock ab
  show ?thesis
    by (simp only: nz if_False same) blast
qed

section \<open>The admission cap\<close>

lemma maxNew_pos: "0 < N \<Longrightarrow> maxNewProcesses_of (Some N) = Some N"
  by (simp add: maxNewProcesses_of_def)

lemma persist_init_inv:
  "int (newProcessesInserted (persist_init t)) \<le> N \<longleftrightarrow> 0 \<le> N"
  "savedCount (persist_init t) = newProcessesInserted (persist_init t)"
  "length (tbl (persist_init t)) = length t + savedCount (persist_init t)"
  by (simp_all add: persist_init_def)

lemma findOne_update_row:
  "findOne t k \<noteq> None \<Longrightarrow> id_proceso v = k \<Longrightarrow> findOne (update_row k v t) k = Some v"
  by (induction t) (auto simp: findOne_def)

text \<open>At the cap a row whose identifier is stored rewrites that record, and only that.\<close>

lemma persist_step_capped_update:
  assumes "cap_reached maxNew st" and "findOne (tbl st) (id_proceso r) \<noteq> None"
  shows "\<not> rejects (mapScrapeDataToProcesoSchema now r) \<Longrightarrow>
           persist_step rejects now maxNew st r
           = st\<lparr>tbl := update_row (id_proceso r) (mapScrapeDataToProcesoSchema now r) (tbl st),
                updateCount := Suc (updateCount st)\<rparr>"
    and "\<not> rejects (mapScrapeDataToProcesoSchema now r) \<Longrightarrow>
           findOne (tbl (persist_step rejects now maxNew st r)) (id_proceso r)
           = Some (mapScrapeDataToProcesoSchema now r)"
    and "rejects (mapScrapeDataToProcesoSchema now r) \<Longrightarrow>
           persist_step rejects now maxNew st r
           = count_error (id_proceso r) (Error ''database error'') st"
proof -
  from assms(2) obtain e where e: "findOne (tbl st) (id_proceso r) = Some e" by auto
  show a: "persist_step rejects now maxNew st r
           = st\<lparr>tbl := update_row (id_proceso r) (mapScrapeDataToProcesoSchema now r) (tbl st),
                updateCount := Suc (updateCount st)\<rparr>"
    if "\<not> rejects (mapScrapeDataToProcesoSchema now r)"
    using assms(1) e that by (simp add: persist_step_def db_update_def)
  show "findOne (tbl (persist_step rejects now maxNew st r)) (id_proceso r)
           = Some (mapScrapeDataToProcesoSchema now r)"
    if "\<not> rejects (mapScrapeDataToProcesoSchema now r)"
    using findOne_update_row [OF assms(2) mapScrape_id [of now r]] by (simp add: a [OF that])
  show "persist_step rejects now maxNew st r
           = count_error (id_proceso r) (Error ''database error'') st"
    if "rejects (mapScrapeDataToProcesoSchema now r)"
    using assms(1) e that by (simp add: persist_step_def db_update_def)
qed

text \<open>The inserted counter of a job with a positive cap.\<close>

lemma performScraping_capped:
  assumes "0 < N"
    and "performScraping sv env pg pgr s0 (params\<lparr>jp_maxProcesses := Some N\<rparr>) t = Some (lg, t')"
  shows "int (inserted_count lg) \<le> N \<and> length t' = length t + inserted_count lg"
proof (cases "status lg = Completed")
  case False
  have "lg = failed_log \<and> t' = t"
  proof (rule ccontr)
    assume n: "\<not> (lg = failed_log \<and> t' = t)"
    from assms(2) n have "status lg = Completed"
      by (auto simp: performScraping_def Let_def split: sum.splits option.splits if_splits)
    with False show False by simp
  qed
  then show ?thesis using assms(1) by (simp add: failed_log_def)
next
  case True
  then have nf: "lg \<noteq> failed_log" by (auto simp: failed_log_def)
  from assms(2) nf obtain results where
    lg: "inserted_count lg
           = savedCount (persist_all (db_rejects sv) (clock_iso sv) (maxNewProcesses_of (Some N))
                           (persist_init t) results)"
    and t': "t' = tbl (persist_all (db_rejects sv) (clock_iso sv) (maxNewProcesses_of (Some N))
                           (persist_init t) results)"
    by (auto simp: performScraping_def Let_def split: sum.splits option.splits if_splits)
  have init: "int (newProcessesInserted (persist_init t)) \<le> N"
    using assms(1) by (simp add: persist_init_def)
  from persist_all_inv [OF assms(1) init persist_init_inv(2,3),
      where rejects = "db_rejects sv" and now = "clock_iso sv" and rs = results]
  show ?thesis unfolding lg t' maxNew_pos [OF assms(1)] by simp
qed

text \<open>
  C2, as stated, fails for the cap 0: \<open>params.maxProcesses || null\<close> turns 0 into
  \<open>null\<close>, the loop runs uncapped, and a new record is inserted.
\<close>

theorem C2_zero_cap_inserts:
  "savedCount (persist_all (db_rejects ok_services) (clock_iso ok_services) (maxNewProcesses_of (Some 0))
                 (persist_init []) [sample_record (JStr ''2025-10-09 14:30'') JNull]) = 1
   \<and> \<not> (1 :: int) \<le> 0"
proof -
  let ?R = "sample_record (JStr ''2025-10-09 14:30'') JNull"
  have id: "truthy (id_proceso ?R)" by (simp add: sample_record_def)
  have ab: "findOne [] (id_proceso ?R) = None" by (simp add: findOne_def)
  have ok: "\<not> db_rejects ok_services (mapScrapeDataToProcesoSchema (clock_iso ok_services) ?R)"
    by (simp add: ok_services_def)
  note u = upsert_twice(1) [where rejects = "db_rejects ok_services", OF id ab ok]
  show ?thesis
    by (simp add: persist_all_def persist_step_def maxNewProcesses_of_def cap_reached_def
          persist_init_def u)
qed

text \<open>
  C2, amended. For every run with a positive cap \<open>maxProcesses = N\<close>: after every
  prefix of the scraped rows the number of newly inserted records is at most \<open>N\<close>; at
  the end the inserted counter is that number and the table has grown by exactly as
  many rows, and so the log of every job that returns reports at most \<open>N\<close> inserted
  records. Once \<open>N\<close> new inserts have occurred, a further row creates no record: it
  leaves the identifiers of the table and the insert counters as they are. When a
  stored record has its identifier, that record is rewritten with the mapped row and
  the update counter goes up by one, or, when the database refuses the values, the
  error counter goes up by one and the table stays; when no stored record has its
  identifier, nothing changes at all. The statements about a further row are about the
  loop on any list of rows: in a job the scraper is given the same cap and hands over
  at most \<open>N\<close> rows, so there the cap is met with the last row at the earliest.
\<close>

theorem C2_new_inserts_capped:
  assumes "0 < N"
  shows "int (newProcessesInserted
               (persist_all rejects now (maxNewProcesses_of (Some N)) (persist_init t) (take k results))) \<le> N
         \<and> savedCount (persist_all rejects now (maxNewProcesses_of (Some N)) (persist_init t) results)
             = newProcessesInserted
                 (persist_all rejects now (maxNewProcesses_of (Some N)) (persist_init t) results)
         \<and> int (savedCount (persist_all rejects now (maxNewProcesses_of (Some N)) (persist_init t) results)) \<le> N
         \<and> length (tbl (persist_all rejects now (maxNewProcesses_of (Some N)) (persist_init t) results))
             = length t
               + savedCount (persist_all rejects now (maxNewProcesses_of (Some N)) (persist_init t) results)
         \<and> (\<forall>lg t'. performScraping sv env pg pgr s0 (params\<lparr>jp_maxProcesses := Some N\<rparr>) t = Some (lg, t')
               \<longrightarrow> int (inserted_count lg) \<le> N \<and> length t' = length t + inserted_count lg)
         \<and> (N \<le> int (newProcessesInserted st) \<longrightarrow>
              map id_proceso (tbl (persist_step rejects now (maxNewProcesses_of (Some N)) st r))
                = map id_proceso (tbl st)
              \<and> savedCount (persist_step rejects now (maxNewProcesses_of (Some N)) st r) = savedCount st
              \<and> newProcessesInserted (persist_step rejects now (maxNewProcesses_of (Some N)) st r)
                  = newProcessesInserted st
              \<and> (findOne (tbl st) (id_proceso r) = None \<longrightarrow>
                   persist_step rejects now (maxNewProcesses_of (Some N)) st r = st)
              \<and> (findOne (tbl st) (id_proceso r) \<noteq> None
                    \<and> \<not> rejects (mapScrapeDataToProcesoSchema now r) \<longrightarrow>
                   persist_step rejects now (maxNewProcesses_of (Some N)) st r
                     = st\<lparr>tbl := update_row (id_proceso r) (mapScrapeDataToProcesoSchema now r) (tbl st),
                          updateCount := Suc (updateCount st)\<rparr>
                   \<and> findOne (tbl (persist_step rejects now (maxNewProcesses_of (Some N)) st r))
                        (id_proceso r)
                     = Some (mapScrapeDataToProcesoSchema now r))
              \<and> (findOne (tbl st) (id_proceso r) \<noteq> None
                    \<and> rejects (mapScrapeDataToProcesoSchema now r) \<longrightarrow>
                   persist_step rejects now (maxNewProcesses_of (Some N)) st r
                     = count_error (id_proceso r) (Error ''database error'') st))"
proof -
  have init: "int (newProcessesInserted (persist_init t)) \<le> N"
    using assms by (simp add: persist_init_def)
  note inv = persist_all_inv [OF assms init persist_init_inv(2,3), where rejects = rejects and now = now]
  have capped: "cap_reached (Some N) st" if "N \<le> int (newProcessesInserted st)"
    using that assms by (simp add: cap_reached_def)
  have run: "\<forall>lg t'. performScraping sv env pg pgr s0 (params\<lparr>jp_maxProcesses := Some N\<rparr>) t = Some (lg, t')
               \<longrightarrow> int (inserted_count lg) \<le> N \<and> length t' = length t + inserted_count lg"
    by (intro allI impI) (rule performScraping_capped [OF assms])
  have upd: "N \<le> int (newProcessesInserted st) \<longrightarrow>
              (findOne (tbl st) (id_proceso r) \<noteq> None
                    \<and> \<not> rejects (mapScrapeDataToProcesoSchema now r) \<longrightarrow>
                   persist_step rejects now (Some N) st r
                     = st\<lparr>tbl := update_row (id_proceso r) (mapScrapeDataToProcesoSchema now r) (tbl st),
                          updateCount := Suc (updateCount st)\<rparr>
                   \<and> findOne (tbl (persist_step rejects now (Some N) st r))
                        (id_proceso r)
                     = Some (mapScrapeDataToProcesoSchema now r))
              \<and> (findOne (tbl st) (id_proceso r) \<noteq> None
                    \<and> rejects (mapScrapeDataToProcesoSchema now r) \<longrightarrow>
                   persist_step rejects now (Some N) st r
                     = count_error (id_proceso r) (Error ''database error'') st)"
    using persist_step_capped_update [OF capped, where rejects = rejects and now = now and r = r]
    by blast
  have old: "N \<le> int (newProcessesInserted st) \<longrightarrow>
              map id_proceso (tbl (persist_step rejects now (Some N) st r))
                = map id_proceso (tbl st)
              \<and> savedCount (persist_step rejects now (Some N) st r) = savedCount st
              \<and> newProcessesInserted (persist_step rejects now (Some N) st r)
                  = newProcessesInserted st
              \<and> (findOne (tbl st) (id_proceso r) = None \<longrightarrow>
                   persist_step rejects now (Some N) st r = st)"
    using persist_step_capped [OF capped, where rejects = rejects and now = now and r = r]
    by blast
  have a1: "int (newProcessesInserted
               (persist_all rejects now (Some N) (persist_init t) (take k results))) \<le> N"
    using inv [where rs = "take k results"] by simp
  have a2: "savedCount (persist_all rejects now (Some N) (persist_init t) results)
             = newProcessesInserted (persist_all rejects now (Some N) (persist_init t) results)"
    and a3: "int (savedCount (persist_all rejects now (Some N) (persist_init t) results)) \<le> N"
    and a4: "length (tbl (persist_all rejects now (Some N) (persist_init t) results))
             = length t + savedCount (persist_all rejects now (Some N) (persist_init t) results)"
    using inv [where rs = results] by simp_all
  have cap: "N \<le> int (newProcessesInserted st) \<longrightarrow>
              map id_proceso (tbl (persist_step rejects now (Some N) st r))
                = map id_proceso (tbl st)
              \<and> savedCount (persist_step rejects now (Some N) st r) = savedCount st
              \<and> newProcessesInserted (persist_step rejects now (Some N) st r)
                  = newProcessesInserted st
              \<and> (findOne (tbl st) (id_proceso r) = None \<longrightarrow>
                   persist_step rejects now (Some N) st r = st)
              \<and> (findOne (tbl st) (id_proceso r) \<noteq> None
                    \<and> \<not> rejects (mapScrapeDataToProcesoSchema now r) \<longrightarrow>
                   persist_step rejects now (Some N) st r
                     = st\<lparr>tbl := update_row (id_proceso r) (mapScrapeDataToProcesoSchema now r) (tbl st),
                          updateCount := Suc (updateCount st)\<rparr>
                   \<and> findOne (tbl (persist_step rejects now (Some N) st r))
                        (id_proceso r)
                     = Some (mapScrapeDataToProcesoSchema now r))
              \<and> (findOne (tbl st) (id_proceso r) \<noteq> None
                    \<and> rejects (mapScrapeDataToProcesoSchema now r) \<longrightarrow>
                   persist_step rejects now (Some N) st r
                     = count_error (id_proceso r) (Error ''database error'') st)"
    using upd old by blast
  show ?thesis
    unfolding maxNew_pos [OF assms]
    by (intro conjI a1 a2 a3 a4 run cap)
qed

text \<open>
  With the cap 1: the first row is inserted; a second row with a new identifier changes
  nothing; the first row seen again rewrites its record and counts as an update.
\<close>

theorem C2_new_inserts_capped_witness:
  "(0 :: int) < 1
   \<and> persist_all (db_rejects ok_services) (clock_iso ok_services) (maxNewProcesses_of (Some 1))
       (persist_init [])
       [sample_record (JStr ''2025-10-09 14:30'') JNull,
        (sample_record (JStr ''2025-10-09 14:30'') JNull)\<lparr>id_proceso := JStr ''AS-SM-2-2025''\<rparr>,
        sample_record (JStr ''2025-10-10 09:00'') JNull]
     = \<lparr> tbl = [mapScrapeDataToProcesoSchema (clock_iso ok_services)
                   (sample_record (JStr ''2025-10-10 09:00'') JNull)],
         savedCount = 1, updateCount = 1, errorCount = 0, errorDetails = [],
         newProcessesInserted = 1 \<rparr>"
proof -
  let ?R = "sample_record (JStr ''2025-10-09 14:30'') JNull"
  let ?R2 = "?R\<lparr>id_proceso := JStr ''AS-SM-2-2025''\<rparr>"
  let ?R3 = "sample_record (JStr ''2025-10-10 09:00'') JNull"
  let ?rej = "db_rejects ok_services"
  let ?now = "clock_iso ok_services"
  let ?m = "mapScrapeDataToProcesoSchema ?now ?R"
  let ?m3 = "mapScrapeDataToProcesoSchema ?now ?R3"
  define st1 :: persist where
    "st1 = \<lparr> tbl = [?m], savedCount = 1, updateCount = 0, errorCount = 0, errorDetails = [],
             newProcessesInserted = 1 \<rparr>"
  have h: "(0 :: int) < 1" by simp
  have id: "truthy (id_proceso ?R)" by (simp add: sample_record_def)
  have ab: "findOne [] (id_proceso ?R) = None" by (simp add: findOne_def)
  have ok: "\<not> ?rej p" for p by (simp add: ok_services_def)
  note u = upsert_twice(1) [where rejects = ?rej and now = ?now, OF id ab ok]
  have s1: "persist_step ?rej ?now (maxNewProcesses_of (Some 1)) (persist_init []) ?R = st1"
    by (simp add: persist_step_def maxNewProcesses_of_def cap_reached_def persist_init_def u st1_def)
  have cap: "1 \<le> int (newProcessesInserted st1)" by (simp add: st1_def)
  have f2: "findOne (tbl st1) (id_proceso ?R2) = None"
    by (simp add: st1_def findOne_def mapScrape_id sample_record_def)
  have f3: "findOne (tbl st1) (id_proceso ?R3) \<noteq> None"
    by (simp add: st1_def findOne_def mapScrape_id sample_record_def)
  note c2 = C2_new_inserts_capped [OF h, where rejects = ?rej and now = ?now and st = st1 and r = ?R2,
      THEN conjunct2, THEN conjunct2, THEN conjunct2, THEN conjunct2, THEN conjunct2, THEN mp, OF cap]
  note c3 = C2_new_inserts_capped [OF h, where rejects = ?rej and now = ?now and st = st1 and r = ?R3,
      THEN conjunct2, THEN conjunct2, THEN conjunct2, THEN conjunct2, THEN conjunct2, THEN mp, OF cap]
  have s2: "persist_step ?rej ?now (maxNewProcesses_of (Some 1)) st1 ?R2 = st1"
    using c2 f2 by simp
  have p3: "findOne (tbl st1) (id_proceso ?R3) \<noteq> None \<and> \<not> ?rej ?m3"
    using f3 ok [of ?m3] by simp
  have s3: "persist_step ?rej ?now (maxNewProcesses_of (Some 1)) st1 ?R3
              = st1\<lparr>tbl := update_row (id_proceso ?R3) ?m3 (tbl st1),
                    updateCount := Suc (updateCount st1)\<rparr>"
    by (rule c3 [THEN conjunct2, THEN conjunct2, THEN conjunct2, THEN conjunct2, THEN conjunct1,
          THEN mp, OF p3, THEN conjunct1])
  have u3: "update_row (id_proceso ?R3) ?m3 (tbl st1) = [?m3]"
    by (simp add: st1_def mapScrape_id sample_record_def)
  have "persist_all ?rej ?now (maxNewProcesses_of (Some 1)) (persist_init []) [?R, ?R2, ?R3]
          = st1\<lparr>tbl := [?m3], updateCount := Suc (updateCount st1)\<rparr>"
    by (simp only: persist_all_def foldl.simps s1 s2 s3 u3)
  also have "\<dots> = \<lparr> tbl = [?m3], savedCount = 1, updateCount = 1, errorCount = 0,
                       errorDetails = [], newProcessesInserted = 1 \<rparr>"
    by (simp add: st1_def)
  finally show ?thesis using h by simp
qed

section \<open>A bounded run over three pages\<close>

lemma list_pager_sel:
  "current_dom list_pager (d # ds) = Some d"
  "has_next list_pager (d # ds) = (ds \<noteq> [])"
  "go_next list_pager (d # ds) = Inr ds"
  by (simp_all add: list_pager_def)

text \<open>With forty rows on each page the cap of fifty is met after the second page.\<close>

lemma extract_pages_cap_50:
  assumes "length (extractTableData env (Some d1)) = 40"
    and "length (extractTableData env (Some d2)) = 40"
  shows "extract_pages env list_pager (Some 50) [d1, d2, d3] True []
           = Some (Inr (extractTableData env (Some d1) @ extractTableData env (Some d2), LimitReached))"
proof -
  have ne: "extractTableData env (Some d1) \<noteq> []" "extractTableData env (Some d2) \<noteq> []"
    using assms by auto
  have "extract_pages env list_pager (Some 50) [d1, d2, d3] True []
          = extract_pages env list_pager (Some 50) [d2, d3] True (extractTableData env (Some d1))"
    by (subst extract_pages.simps) (simp add: list_pager_sel Let_def ne assms)
  also have "\<dots> = Some (Inr (extractTableData env (Some d1) @ extractTableData env (Some d2), LimitReached))"
    by (subst extract_pages.simps) (simp add: list_pager_sel Let_def ne assms)
  finally show ?thesis .
qed


lemma scraper_params_max:
  "maxProcesses (scraper_params sv (params\<lparr>jp_maxProcesses := Some 50\<rparr>)) = Some 50"
  "maxProcesses (scraper_params sv (params\<lparr>jp_maxProcesses := None\<rparr>)) = Some 100"
  by (simp_all add: scraper_params_def)

lemma ok_page_form:
  "snd (form_driving ok_page timeout ps l) = Inr ()"
  by (subst form_driving_result) (simp_all add: ok_page_def)

lemma searchProcesses_cap_50:
  assumes "snd (form_driving pg tm (scraper_params sv (params\<lparr>jp_maxProcesses := Some 50\<rparr>)) []) = Inr ()"
    and "length (extractTableData env (Some d1)) = 40"
    and "length (extractTableData env (Some d2)) = 40"
  shows "searchProcesses env pg tm list_pager [d1, d2, d3]
           (scraper_params sv (params\<lparr>jp_maxProcesses := Some 50\<rparr>))
         = Some (Inr (take 50 (extractTableData env (Some d1) @ extractTableData env (Some d2))))"
  using assms(1)
  by (simp add: searchProcesses_def scraper_params_max extract_pages_cap_50 [OF assms(2,3)] slice0_def)


text \<open>
  A row seen again while the cap is not reached rewrites its record and counts as an
  update each time.
\<close>

lemma persist_all_reseen:
  assumes "truthy (id_proceso R)" and "\<not> rejects (mapScrapeDataToProcesoSchema now R)"
    and "findOne t (id_proceso R) = None"
    and "tbl st = t @ [mapScrapeDataToProcesoSchema now R]"
    and "\<not> cap_reached maxNew st"
  shows "persist_all rejects now maxNew st (replicate n R) = st\<lparr>updateCount := updateCount st + n\<rparr>"
  using assms(4,5)
proof (induction n arbitrary: st)
  case 0
  then show ?case by (simp add: persist_all_def)
next
  case (Suc n)
  let ?m = "mapScrapeDataToProcesoSchema now R"
  let ?st = "st\<lparr>updateCount := Suc (updateCount st)\<rparr>"
  have u: "upsert rejects now (tbl st) R = Inr (tbl st, False)"
    unfolding Suc.prems(1) using assms(1,3,2) by (rule upsert_twice(2))
  have step: "persist_step rejects now maxNew st R = ?st"
    using Suc.prems(2) by (simp add: persist_step_def u)
  have t: "tbl ?st = t @ [?m]" using Suc.prems(1) by simp
  have c: "\<not> cap_reached maxNew ?st"
    using Suc.prems(2) by (simp add: cap_reached_def cong: option.case_cong)
  have "persist_all rejects now maxNew st (replicate (Suc n) R)
          = persist_all rejects now maxNew ?st (replicate n R)"
    by (simp add: persist_all_def step)
  also have "\<dots> = ?st\<lparr>updateCount := updateCount ?st + n\<rparr>"
    by (rule Suc.IH [OF t c])
  finally show ?case by simp
qed

text \<open>
  C3. In a bounded run the cap is meant to limit new inserts only: the comment in
  \<open>performScraping\<close> says so, and the loop has a branch that, at the cap, only updates
  stored records. But \<open>performScraping\<close> hands the same cap to the scraper
  (\<open>maxProcesses: params.maxProcesses || 100\<close>), whose page loop stops as soon as the
  accumulated rows reach it and whose result is cut to it. For a run with
  \<open>maxProcesses = 50\<close> over three pages of forty rows each the claim expects all 120
  rows to be read. The code reads two pages, eighty rows, whatever the third page holds,
  and hands the first fifty to the persistence loop; the job ends \<open>completed\<close>, and
  its counters cover those fifty rows only (here all fifty carry one identifier: one
  insert, forty-nine updates).
\<close>

theorem C3_cap_stops_extraction:
  "maxProcesses (scraper_params ok_services (job (Some 50))) = Some 50
   \<and> (\<forall>d. extract_pages sample_env list_pager (Some 50) [sample_page, sample_page, d] True []
            = Some (Inr (replicate 80 (sample_record (JStr ''2025-10-09 14:30'')
                                         (JNum (Fin (123456789 / 100)))), LimitReached)))
   \<and> (80 :: nat) < 120
   \<and> searchProcesses sample_env ok_page 90000 list_pager [sample_page, sample_page, sample_page]
        (scraper_params ok_services (job (Some 50)))
      = Some (Inr (replicate 50 (sample_record (JStr ''2025-10-09 14:30'')
                                   (JNum (Fin (123456789 / 100))))))
   \<and> performScraping ok_services sample_env ok_page list_pager
        [sample_page, sample_page, sample_page] (job (Some 50)) []
      = Some (\<lparr> status = Completed, process_count = 50, inserted_count = 1,
                 updated_count = 49, error_count = 0 \<rparr>,
              [mapScrapeDataToProcesoSchema (clock_iso ok_services)
                 (sample_record (JStr ''2025-10-09 14:30'') (JNum (Fin (123456789 / 100))))])"
proof -
  let ?R = "sample_record (JStr ''2025-10-09 14:30'') (JNum (Fin (123456789 / 100)))"
  let ?rej = "db_rejects ok_services"
  let ?now = "clock_iso ok_services"
  let ?m = "mapScrapeDataToProcesoSchema ?now ?R"
  define rs where "rs = replicate 50 ?R"
  define st1 :: persist where
    "st1 = \<lparr> tbl = [?m], savedCount = 1, updateCount = 0, errorCount = 0, errorDetails = [],
             newProcessesInserted = 1 \<rparr>"
  have j: "(job None)\<lparr>jp_maxProcesses := Some 50\<rparr> = job (Some 50)" by (simp add: job_def)
  have m: "maxProcesses (scraper_params ok_services (job (Some 50))) = Some 50"
    using scraper_params_max(1) [of ok_services "job None"] unfolding j .
  have l: "length (extractTableData sample_env (Some sample_page)) = 40"
    by (simp add: sample_page_records)
  have r80: "extractTableData sample_env (Some sample_page) @ extractTableData sample_env (Some sample_page)
             = replicate 80 ?R"
    by (simp add: sample_page_records replicate_add [symmetric])
  have ex: "extract_pages sample_env list_pager (Some 50) [sample_page, sample_page, d] True []
            = Some (Inr (replicate 80 ?R, LimitReached))" for d
    using extract_pages_cap_50 [OF l l, of d] unfolding r80 .
  have a2: "snd (form_driving ok_page 90000
                   (scraper_params ok_services ((job None)\<lparr>jp_maxProcesses := Some 50\<rparr>)) []) = Inr ()"
    by (rule ok_page_form)
  have r50: "take 50 (extractTableData sample_env (Some sample_page)
                      @ extractTableData sample_env (Some sample_page)) = rs"
    unfolding r80 rs_def by simp
  have sp: "searchProcesses sample_env ok_page 90000 list_pager [sample_page, sample_page, sample_page]
              (scraper_params ok_services (job (Some 50))) = Some (Inr rs)"
    using searchProcesses_cap_50 [OF a2 l l, of sample_page] unfolding j r50 .
  have id: "truthy (id_proceso ?R)" by (simp add: sample_record_def)
  have ab: "findOne [] (id_proceso ?R) = None" by (simp add: findOne_def)
  have ok: "\<not> ?rej ?m" by (simp add: ok_services_def)
  note u = upsert_twice(1) [where rejects = ?rej and now = ?now, OF id ab ok]
  have s1: "persist_step ?rej ?now (Some 50) (persist_init []) ?R = st1"
    by (simp add: persist_step_def cap_reached_def persist_init_def u st1_def)
  have t1: "tbl st1 = [] @ [?m]" by (simp add: st1_def)
  have c1: "\<not> cap_reached (Some 50) st1" by (simp add: cap_reached_def st1_def)
  have "rs = ?R # replicate 49 ?R" unfolding rs_def using replicate_Suc [of 49 ?R] by simp
  then have "persist_all ?rej ?now (Some 50) (persist_init []) rs
          = persist_all ?rej ?now (Some 50) st1 (replicate 49 ?R)"
    by (simp only: persist_all_def foldl.simps s1)
  also have "\<dots> = st1\<lparr>updateCount := updateCount st1 + 49\<rparr>"
    using id ok ab t1 c1 by (rule persist_all_reseen)
  finally have pa: "persist_all ?rej ?now (Some 50) (persist_init []) rs
          = \<lparr> tbl = [?m], savedCount = 1, updateCount = 49, errorCount = 0, errorDetails = [],
              newProcessesInserted = 1 \<rparr>"
    by (simp add: st1_def)
  have ne: "rs \<noteq> []" by (simp add: rs_def)
  have la: "launch ok_services = Inr ()" "export_results ok_services rs = Inr ()"
    "jp_maxProcesses (job (Some 50)) = Some 50"
    by (simp_all add: ok_services_def job_def)
  have run: "performScraping ok_services sample_env ok_page list_pager
        [sample_page, sample_page, sample_page] (job (Some 50)) []
      = Some (\<lparr> status = Completed, process_count = 50, inserted_count = 1,
                 updated_count = 49, error_count = 0 \<rparr>, [?m])"
    by (simp add: performScraping_def sp la ne maxNewProcesses_of_def pa Let_def)
  show ?thesis
    using m ex sp [unfolded rs_def] run by simp
qed

section \<open>Termination of the page loop\<close>

lemma page_at_Suc: "go_next pgr s = Inr s' \<Longrightarrow> page_at pgr s (Suc n) = page_at pgr s' n"
  by simp

lemma rows_before_Suc:
  "go_next pgr s = Inr s' \<Longrightarrow>
     rows_before env pgr s (Suc n) = extractTableData env (current_dom pgr s) @ rows_before env pgr s' n"
  by simp

lemma passes_Suc:
  "go_next pgr s = Inr s' \<Longrightarrow>
     passes env pgr maxP s acc (Suc n)
     = (extractTableData env (current_dom pgr s) \<noteq> []
        \<and> \<not> limit_hit maxP (acc @ extractTableData env (current_dom pgr s))
        \<and> has_next pgr s
        \<and> passes env pgr maxP s' (acc @ extractTableData env (current_dom pgr s)) n)"
  by simp














section \<open>A run without a cap\<close>







end
